(* ===== verification/Prelude.thy ===== *)
theory Prelude
  imports Main "HOL-Library.Word"
begin

text \<open>
  Shared base of the development: the collections of rewrite rules the component proofs
  use, the Go types every component mentions (durations, instants, 64-bit wrap-around),
  and the parts of Go's standard library on strings that the program calls:
  \<^verbatim>\<open>fmt\<close>'s decimal verbs, \<^verbatim>\<open>strings.Split\<close>, \<^verbatim>\<open>strings.Join\<close>, \<^verbatim>\<open>strings.TrimSpace\<close> and
  \<^verbatim>\<open>utf8.RuneCountInString\<close>. A Go string is a sequence of bytes, here a \<^typ>\<open>string\<close>.
\<close>

section \<open>Collections\<close>

named_theorems fmt_simps \<open>evaluation of the decimal verbs of fmt\<close>
named_theorems frame_simps \<open>state components an operation leaves alone\<close>
named_theorems wf_intros \<open>well-formedness is kept by an operation\<close>

section \<open>Integers, durations and instants\<close>

text \<open>
  Instants are nanoseconds since the epoch. Durations are Go's \<^verbatim>\<open>time.Duration\<close>, an int64
  count of nanoseconds; a product that can leave the int64 range goes through \<open>wrap64\<close>.
\<close>

type_synonym instant = int
type_synonym duration = int

definition wrap64 :: "int \<Rightarrow> int" where
  "wrap64 x = signed_take_bit 63 x"

abbreviation nanos_per_second :: int where
  "nanos_per_second \<equiv> 1000000000"

text \<open>Go's integer division truncates towards zero.\<close>

definition quot_trunc :: "int \<Rightarrow> int \<Rightarrow> int" where
  "quot_trunc a b = (if b = 0 then 0 else sgn a * sgn b * (\<bar>a\<bar> div \<bar>b\<bar>))"

definition rem_trunc :: "int \<Rightarrow> int \<Rightarrow> int" where
  "rem_trunc a b = a - b * quot_trunc a b"

lemma wrap64_id [simp]: "- (2 ^ 63) \<le> x \<Longrightarrow> x < 2 ^ 63 \<Longrightarrow> wrap64 x = x"
  by (simp add: wrap64_def signed_take_bit_int_eq_self)

lemma wrap64_range: "- (2 ^ 63) \<le> wrap64 x \<and> wrap64 x < 2 ^ 63"
  using signed_take_bit_int_greater_eq_minus_exp [of 63 x] signed_take_bit_int_less_exp [of 63 x]
  by (simp add: wrap64_def)

lemma quot_trunc_nonneg: "0 \<le> a \<Longrightarrow> 0 < b \<Longrightarrow> quot_trunc a b = a div b"
  by (cases "a = 0") (simp_all add: quot_trunc_def)

lemma rem_trunc_nonneg: "0 \<le> a \<Longrightarrow> 0 < b \<Longrightarrow> rem_trunc a b = a mod b"
  by (simp add: rem_trunc_def quot_trunc_nonneg minus_mult_div_eq_mod)

section \<open>Decimal output\<close>

definition digit_char :: "nat \<Rightarrow> char" where
  "digit_char d = char_of (48 + d)"

fun dec_nat :: "nat \<Rightarrow> string" where
  "dec_nat n = (if n < 10 then [digit_char n] else dec_nat (n div 10) @ [digit_char (n mod 10)])"

declare dec_nat.simps [simp del]

definition pad0 :: "nat \<Rightarrow> string \<Rightarrow> string" where
  "pad0 w s = replicate (w - length s) (CHR ''0'') @ s"

text \<open>The verbs \<^verbatim>\<open>%d\<close> and \<^verbatim>\<open>%0wd\<close>: the sign counts towards the width.\<close>

definition fmt_d :: "int \<Rightarrow> string" where
  "fmt_d i = (if i < 0 then CHR ''-'' # dec_nat (nat (- i)) else dec_nat (nat i))"

definition fmt_0d :: "nat \<Rightarrow> int \<Rightarrow> string" where
  "fmt_0d w i = (if i < 0 then CHR ''-'' # pad0 (w - 1) (dec_nat (nat (- i)))
                 else pad0 w (dec_nat (nat i)))"

text \<open>Reading the digits back; used to show that printed numbers determine the number.\<close>

definition dec_value :: "string \<Rightarrow> nat" where
  "dec_value s = foldl (\<lambda>a c. 10 * a + (of_char c - 48)) 0 s"

lemma of_char_digit_char [simp]: "d < 10 \<Longrightarrow> of_char (digit_char d) = 48 + d"
  by (simp add: digit_char_def)

lemma dec_value_snoc [simp]: "dec_value (s @ [c]) = 10 * dec_value s + (of_char c - 48)"
  by (simp add: dec_value_def)

lemma dec_value_Nil [simp]: "dec_value [] = 0"
  by (simp add: dec_value_def)

lemma foldl_zeros: "foldl (\<lambda>a c. 10 * a + (of_char c - 48)) (0::nat) (replicate k (CHR ''0'')) = 0"
  by (induction k) simp_all

lemma dec_value_pad0 [simp]: "dec_value (pad0 w s) = dec_value s"
  by (simp add: pad0_def dec_value_def foldl_zeros)

lemma dec_value_dec_nat [simp]: "dec_value (dec_nat n) = n"
proof (induction n rule: dec_nat.induct)
  case (1 n)
  show ?case
  proof (cases "n < 10")
    case True
    then show ?thesis by (simp add: dec_nat.simps [of n] dec_value_def)
  next
    case False
    with 1 show ?thesis by (simp add: dec_nat.simps [of n])
  qed
qed

lemma dec_nat_inject: "dec_nat m = dec_nat n \<longleftrightarrow> m = n"
  by (metis dec_value_dec_nat)

lemma fmt_0d_inject: "0 \<le> i \<Longrightarrow> 0 \<le> j \<Longrightarrow> fmt_0d v i = fmt_0d w j \<Longrightarrow> i = j"
  by (metis dec_value_dec_nat dec_value_pad0 eq_nat_nat_iff fmt_0d_def linorder_not_le)

lemma dec_nat_digits: "c \<in> set (dec_nat n) \<Longrightarrow> \<exists>d < 10. c = digit_char d"
proof (induction n rule: dec_nat.induct)
  case (1 n)
  show ?case
  proof (cases "n < 10")
    case True
    with "1.prems" show ?thesis by (auto simp: dec_nat.simps [of n])
  next
    case False
    with 1 show ?thesis
      by (auto simp: dec_nat.simps [of n] intro: exI [of _ "n mod 10"])
  qed
qed

lemma length_dec_nat_le: "n < 10 ^ Suc k \<Longrightarrow> length (dec_nat n) \<le> Suc k"
proof (induction k arbitrary: n)
  case 0
  then show ?case by (simp add: dec_nat.simps [of n])
next
  case (Suc k)
  then have "n div 10 < 10 ^ Suc k" by auto
  from Suc.IH [OF this] show ?case by (simp add: dec_nat.simps [of n])
qed

lemma length_dec_nat_ge: "10 ^ k \<le> n \<Longrightarrow> Suc k \<le> length (dec_nat n)"
proof (induction k arbitrary: n)
  case 0
  then show ?case by (simp add: dec_nat.simps [of n])
next
  case (Suc k)
  then have "10 ^ k \<le> n div 10" by (simp add: less_eq_div_iff_mult_less_eq)
  moreover have "\<not> n < 10" using Suc.prems
    by (metis less_le_trans not_less power_Suc one_le_power mult.right_neutral mult_le_mono2 one_le_numeral)
  ultimately show ?case using Suc.IH [of "n div 10"] by (simp add: dec_nat.simps [of n])
qed

section \<open>Splitting, joining and trimming\<close>

fun split_on :: "char \<Rightarrow> string \<Rightarrow> string list" where
  "split_on d [] = [[]]"
| "split_on d (c # cs) =
     (if c = d then [] # split_on d cs
      else case split_on d cs of [] \<Rightarrow> [[c]] | w # ws \<Rightarrow> (c # w) # ws)"

fun join_with :: "string \<Rightarrow> string list \<Rightarrow> string" where
  "join_with sep [] = []"
| "join_with sep [w] = w"
| "join_with sep (w # v # ws) = w @ sep @ join_with sep (v # ws)"

lemma split_on_nonempty [simp]: "split_on d s \<noteq> []"
  by (induction s) (auto split: list.splits)

lemma split_on_free: "d \<notin> set w \<Longrightarrow> split_on d w = [w]"
  by (induction w) auto

lemma split_on_append: "d \<notin> set w \<Longrightarrow> split_on d (w @ d # s) = w # split_on d s"
  by (induction w) auto

lemma split_on_join:
  "ws \<noteq> [] \<Longrightarrow> \<forall>w \<in> set ws. d \<notin> set w \<Longrightarrow> split_on d (join_with [d] ws) = ws"
  by (induction "[d]" ws rule: join_with.induct) (auto simp: split_on_free split_on_append)

text \<open>
  The code points \<^verbatim>\<open>unicode.IsSpace\<close> accepts, as their UTF-8 encodings: the six ASCII
  ones, U+0085, U+00A0, U+1680, U+2000 to U+200A, U+2028, U+2029, U+202F, U+205F, U+3000.
\<close>

definition bytes :: "nat list \<Rightarrow> string" where
  "bytes ns = map char_of ns"

definition space_encodings :: "string list" where
  "space_encodings =
     map bytes ([[9], [10], [11], [12], [13], [32], [194, 133], [194, 160], [225, 154, 128],
       [226, 128, 168], [226, 128, 169], [226, 128, 175], [226, 129, 159], [227, 128, 128]]
       @ map (\<lambda>b. [226, 128, b]) [128 ..< 139])"

definition starts_with :: "string \<Rightarrow> string \<Rightarrow> bool" where
  "starts_with p s \<longleftrightarrow> take (length p) s = p"

lemma space_encodings_nonempty: "e \<in> set space_encodings \<Longrightarrow> e \<noteq> []"
  by (auto simp: space_encodings_def bytes_def)

lemma find_space_Some:
  "find (\<lambda>e. starts_with e s) space_encodings = Some e \<Longrightarrow> 0 < length e \<and> 0 < length s"
  by (auto simp: find_Some_iff starts_with_def dest!: nth_mem space_encodings_nonempty)

function trim_left_by :: "(string \<Rightarrow> string) \<Rightarrow> string \<Rightarrow> string" where
  "trim_left_by f s =
     (case find (\<lambda>e. starts_with (f e) s) space_encodings of
        None \<Rightarrow> s
      | Some e \<Rightarrow> if f e = [] \<or> s = [] then s else trim_left_by f (drop (length (f e)) s))"
  by pat_completeness auto
termination
  by (relation "measure (\<lambda>(f, s). length s)") auto

declare trim_left_by.simps [simp del]

definition TrimSpace :: "string \<Rightarrow> string" where
  "TrimSpace s = rev (trim_left_by rev (rev (trim_left_by id s)))"

section \<open>Counting runes\<close>

text \<open>
  \<^verbatim>\<open>utf8.RuneCountInString\<close>: a byte sequence that is not valid UTF-8 counts one rune per
  offending byte. \<open>rune_size\<close> is the width of the first rune.
\<close>

definition cont_byte :: "nat \<Rightarrow> bool" where
  "cont_byte b \<longleftrightarrow> 128 \<le> b \<and> b \<le> 191"

definition second_range :: "nat \<Rightarrow> nat \<times> nat" where
  "second_range b =
     (if b = 224 then (160, 191) else if b = 237 then (128, 159)
      else if b = 240 then (144, 191) else if b = 244 then (128, 143) else (128, 191))"

definition lead_size :: "nat \<Rightarrow> nat" where
  "lead_size b =
     (if 194 \<le> b \<and> b \<le> 223 then 2 else if 224 \<le> b \<and> b \<le> 239 then 3
      else if 240 \<le> b \<and> b \<le> 244 then 4 else 1)"

definition rune_size :: "nat list \<Rightarrow> nat" where
  "rune_size bs =
     (case bs of [] \<Rightarrow> 0 | b # rest \<Rightarrow>
        let n = lead_size b; (lo, hi) = second_range b in
        if n \<ge> 2 \<and> n \<le> length bs \<and> lo \<le> hd rest \<and> hd rest \<le> hi
           \<and> list_all cont_byte (take (n - 2) (tl rest))
        then n else 1)"

lemma rune_size_pos: "bs \<noteq> [] \<Longrightarrow> 0 < rune_size bs"
  by (auto simp: rune_size_def Let_def split: list.splits prod.splits)

function rune_count_bytes :: "nat list \<Rightarrow> nat" where
  "rune_count_bytes bs = (if bs = [] then 0 else Suc (rune_count_bytes (drop (rune_size bs) bs)))"
  by pat_completeness auto
termination
  by (relation "measure length") (auto simp: rune_size_pos)

declare rune_count_bytes.simps [simp del]

definition RuneCountInString :: "string \<Rightarrow> nat" where
  "RuneCountInString s = rune_count_bytes (map of_char s)"

lemma rune_count_bytes_le: "rune_count_bytes bs \<le> length bs"
proof (induction bs rule: rune_count_bytes.induct)
  case (1 bs)
  show ?case
  proof (cases "bs = []")
    case True
    then show ?thesis by (simp add: rune_count_bytes.simps)
  next
    case False
    with 1 have "rune_count_bytes (drop (rune_size bs) bs) \<le> length bs - rune_size bs" by simp
    moreover have "0 < length bs" using False by simp
    ultimately have "Suc (rune_count_bytes (drop (rune_size bs) bs)) \<le> length bs"
      using rune_size_pos [OF False] by linarith
    with False show ?thesis by (simp add: rune_count_bytes.simps [of bs])
  qed
qed

lemma rune_count_bytes_ascii: "list_all (\<lambda>b. b < 128) bs \<Longrightarrow> rune_count_bytes bs = length bs"
proof (induction bs)
  case Nil
  then show ?case by (simp add: rune_count_bytes.simps)
next
  case (Cons b bs)
  then have "rune_size (b # bs) = 1"
    by (auto simp: rune_size_def lead_size_def Let_def split: prod.splits)
  with Cons show ?case by (simp add: rune_count_bytes.simps [of "b # bs"])
qed

lemma RuneCountInString_le: "RuneCountInString s \<le> length s"
  using rune_count_bytes_le [of "map of_char s"] by (simp add: RuneCountInString_def)

lemma RuneCountInString_ascii:
  "list_all (\<lambda>c. of_char c < (128::nat)) s \<Longrightarrow> RuneCountInString s = length s"
  by (simp add: RuneCountInString_def rune_count_bytes_ascii list_all_iff)

lemma RuneCountInString_zero: "RuneCountInString s = 0 \<longleftrightarrow> s = []"
  by (simp add: RuneCountInString_def rune_count_bytes.simps)

text \<open>What a PostgreSQL database in UTF-8 accepts as text: valid UTF-8 without the byte 0.\<close>

function valid_utf8 :: "nat list \<Rightarrow> bool" where
  "valid_utf8 bs =
     (if bs = [] then True else (hd bs < 128 \<or> 2 \<le> rune_size bs) \<and> valid_utf8 (drop (rune_size bs) bs))"
  by pat_completeness auto
termination
  by (relation "measure length") (auto simp: rune_size_pos)

declare valid_utf8.simps [simp del]

definition pg_text :: "string \<Rightarrow> bool" where
  "pg_text s \<longleftrightarrow> list_all (\<lambda>c. (of_char c :: nat) \<noteq> 0) s \<and> valid_utf8 (map of_char s)"

lemma valid_utf8_ascii: "list_all (\<lambda>b. b < 128) bs \<Longrightarrow> valid_utf8 bs"
proof (induction bs)
  case Nil
  then show ?case by (simp add: valid_utf8.simps)
next
  case (Cons b bs)
  then have "rune_size (b # bs) = 1"
    by (auto simp: rune_size_def lead_size_def Let_def split: prod.splits)
  with Cons show ?case by (simp add: valid_utf8.simps [of "b # bs"])
qed

lemma pg_text_ascii [simp]:
  "list_all (\<lambda>c. 0 < (of_char c :: nat) \<and> (of_char c :: nat) < 128) s \<Longrightarrow> pg_text s"
  by (auto simp: pg_text_def list_all_iff intro: valid_utf8_ascii)

end
