(* ===== verification/Float64.thy ===== *)
theory Float64
  imports Complex_Main Prelude "HOL-Library.Log_Nat"
begin

text \<open>
  Go's \<^verbatim>\<open>float64\<close>: IEEE binary64 with rounding to nearest, ties to even. A finite value is
  kept as the rational number it denotes (the two zeros are one value), so that arithmetic
  is exact arithmetic followed by \<open>fl\<close>, the rounding to 53 significant bits with the
  exponent range of the format. Prices and totals of orders are of this type. The lemmas
  bound the rounding error; they carry the analysis of the order total.
\<close>

section \<open>Rounding\<close>

text \<open>\<open>binade q\<close> is the exponent of the power of two at or below \<open>\<bar>q\<bar>\<close>.\<close>

definition binade :: "rat \<Rightarrow> int" where
  "binade q = (let (n, d) = quotient_of \<bar>q\<bar>; k = bitlen n - bitlen d
               in if 2 powi k \<le> \<bar>q\<bar> then k else k - 1)"

definition round_even :: "rat \<Rightarrow> int" where
  "round_even q =
     (let f = \<lfloor>q\<rfloor>; r = q - of_int f
      in if r < 1 / 2 then f else if r > 1 / 2 then f + 1 else if even f then f else f + 1)"

definition ulp_exp :: "rat \<Rightarrow> int" where
  "ulp_exp q = max (binade q - 52) (- 1074)"

definition rnd64 :: "rat \<Rightarrow> rat" where
  "rnd64 q = (if q = 0 then 0
              else of_int (round_even (q / 2 powi ulp_exp q)) * 2 powi ulp_exp q)"

datatype float64 = Fin rat | PInf | NInf | NaN

definition fl :: "rat \<Rightarrow> float64" where
  "fl q = (let r = rnd64 q
           in if r \<ge> 2 ^ 1024 then PInf else if r \<le> - (2 ^ 1024) then NInf else Fin r)"

section \<open>Arithmetic and comparison\<close>

fun fadd :: "float64 \<Rightarrow> float64 \<Rightarrow> float64" where
  "fadd (Fin a) (Fin b) = fl (a + b)"
| "fadd NaN y = NaN"
| "fadd x NaN = NaN"
| "fadd PInf NInf = NaN"
| "fadd NInf PInf = NaN"
| "fadd PInf y = PInf"
| "fadd NInf y = NInf"
| "fadd x PInf = PInf"
| "fadd x NInf = NInf"

definition finf :: "bool \<Rightarrow> float64" where
  "finf pos = (if pos then PInf else NInf)"

fun fmul :: "float64 \<Rightarrow> float64 \<Rightarrow> float64" where
  "fmul (Fin a) (Fin b) = fl (a * b)"
| "fmul NaN y = NaN"
| "fmul x NaN = NaN"
| "fmul (Fin a) PInf = (if a = 0 then NaN else finf (a > 0))"
| "fmul (Fin a) NInf = (if a = 0 then NaN else finf (a < 0))"
| "fmul PInf (Fin b) = (if b = 0 then NaN else finf (b > 0))"
| "fmul NInf (Fin b) = (if b = 0 then NaN else finf (b < 0))"
| "fmul PInf PInf = PInf"
| "fmul NInf NInf = PInf"
| "fmul PInf NInf = NInf"
| "fmul NInf PInf = NInf"

definition float_of_int :: "int \<Rightarrow> float64" where
  "float_of_int n = fl (of_int n)"

fun fless :: "float64 \<Rightarrow> float64 \<Rightarrow> bool" where
  "fless (Fin a) (Fin b) = (a < b)"
| "fless NInf (Fin b) = True"
| "fless NInf PInf = True"
| "fless (Fin a) PInf = True"
| "fless _ _ = False"

fun fleq :: "float64 \<Rightarrow> float64 \<Rightarrow> bool" where
  "fleq (Fin a) (Fin b) = (a \<le> b)"
| "fleq NInf NInf = True"
| "fleq PInf PInf = True"
| "fleq NInf (Fin b) = True"
| "fleq NInf PInf = True"
| "fleq (Fin a) PInf = True"
| "fleq _ _ = False"

section \<open>Rounding is to nearest\<close>

lemma powi_rat_pos [simp]: "0 < (2::rat) powi k"
  by simp

lemma powi2_less_iff: "(2::rat) powi a < 2 powi b \<longleftrightarrow> a < b"
proof
  assume "(2::rat) powi a < 2 powi b"
  then show "a < b"
    by (metis linorder_not_le one_le_numeral power_int_increasing)
next
  assume "a < b"
  then show "(2::rat) powi a < 2 powi b" by (simp add: power_int_strict_increasing)
qed

lemma powi2_le_iff: "(2::rat) powi a \<le> 2 powi b \<longleftrightarrow> a \<le> b"
  using powi2_less_iff [of b a] by linarith

lemma bitlen_rat_bounds:
  assumes "0 < n"
  shows "2 powi (bitlen n - 1) \<le> (of_int n :: rat)" and "(of_int n :: rat) < 2 powi bitlen n"
proof -
  have b: "2 ^ nat (bitlen n - 1) \<le> n \<and> n < 2 ^ nat (bitlen n)"
    by (rule bitlen_bounds [OF assms])
  have p: "0 \<le> bitlen n - 1" using assms by (simp add: bitlen_def floorlog_def)
  have "(of_int (2 ^ nat (bitlen n - 1)) :: rat) \<le> of_int n"
    using b by (simp only: of_int_le_iff)
  with p show "2 powi (bitlen n - 1) \<le> (of_int n :: rat)" by (simp add: power_int_def)
  have "(of_int n :: rat) < of_int (2 ^ nat (bitlen n))"
    using b by (simp only: of_int_less_iff)
  with p show "(of_int n :: rat) < 2 powi bitlen n" by (simp add: power_int_def)
qed

lemma binade_bounds:
  assumes "q \<noteq> 0"
  shows "2 powi binade q \<le> \<bar>q\<bar> \<and> \<bar>q\<bar> < 2 powi (binade q + 1)"
proof -
  obtain n d where nd: "quotient_of \<bar>q\<bar> = (n, d)" by (cases "quotient_of \<bar>q\<bar>")
  have d: "0 < d" using nd by (rule quotient_of_denom_pos)
  have q: "\<bar>q\<bar> = of_int n / of_int d" using nd by (rule quotient_of_div)
  have n: "0 < n"
    using assms q d by (metis abs_ge_zero abs_zero div_0 linorder_neqE of_int_0 of_int_0_less_iff
        of_int_less_0_iff divide_neg_pos not_less zero_less_abs_iff)
  define k where "k = bitlen n - bitlen d"
  note bn = bitlen_rat_bounds [OF n] and bd = bitlen_rat_bounds [OF d]
  have "\<bar>q\<bar> * of_int d = of_int n" using q d by simp
  have up: "\<bar>q\<bar> < 2 powi (k + 1)"
  proof -
    have "(of_int n :: rat) < 2 powi (k + 1) * 2 powi (bitlen d - 1)"
      using bn(2) by (simp add: k_def flip: power_int_add)
    also have "\<dots> \<le> 2 powi (k + 1) * of_int d"
      using bd(1) by (intro mult_left_mono) simp_all
    finally show ?thesis using q d by (simp add: pos_divide_less_eq)
  qed
  have lo: "2 powi (k - 1) \<le> \<bar>q\<bar>"
  proof -
    have "2 powi (k - 1) * (of_int d :: rat) \<le> 2 powi (k - 1) * 2 powi bitlen d"
      using bd(2) by (intro mult_left_mono) simp_all
    also have "\<dots> = 2 powi (bitlen n - 1)" by (simp add: k_def flip: power_int_add)
    also have "\<dots> \<le> of_int n" by (rule bn(1))
    finally show ?thesis using q d by (simp add: pos_le_divide_eq)
  qed
  have "binade q = (if 2 powi k \<le> \<bar>q\<bar> then k else k - 1)"
    by (simp add: binade_def nd k_def)
  then show ?thesis using up lo by (auto simp: not_le)
qed

lemma round_even_error: "\<bar>of_int (round_even q) - q\<bar> \<le> 1 / 2"
proof -
  have "of_int \<lfloor>q\<rfloor> \<le> q" and "q < of_int \<lfloor>q\<rfloor> + 1" by linarith+
  then show ?thesis by (auto simp: round_even_def Let_def abs_le_iff)
qed

lemma rnd64_error_ulp: "q \<noteq> 0 \<Longrightarrow> \<bar>rnd64 q - q\<bar> \<le> 2 powi (ulp_exp q - 1)"
proof -
  assume q: "q \<noteq> 0"
  let ?u = "2 powi ulp_exp q :: rat"
  have "rnd64 q - q = (of_int (round_even (q / ?u)) - q / ?u) * ?u"
    using q by (simp add: rnd64_def left_diff_distrib)
  then have "\<bar>rnd64 q - q\<bar> = \<bar>of_int (round_even (q / ?u)) - q / ?u\<bar> * ?u"
    by (simp add: abs_mult)
  also have "\<dots> \<le> 1 / 2 * ?u"
    by (intro mult_right_mono round_even_error) simp
  finally show ?thesis by (simp add: power_int_diff)
qed

text \<open>For a normal number the relative error is at most half a unit in the last place.\<close>

lemma rnd64_error:
  assumes "2 powi (- 1022) \<le> \<bar>q\<bar>"
  shows "\<bar>rnd64 q - q\<bar> \<le> \<bar>q\<bar> * 2 powi (- 53)"
proof -
  have q: "q \<noteq> 0" using assms by (metis abs_zero not_le powi_rat_pos)
  have b: "2 powi binade q \<le> \<bar>q\<bar>" "\<bar>q\<bar> < 2 powi (binade q + 1)"
    using binade_bounds [OF q] by auto
  have "(2::rat) powi (- 1022) < 2 powi (binade q + 1)" using assms b(2) by linarith
  then have "- 1022 < binade q + 1" unfolding powi2_less_iff .
  then have "- 1022 \<le> binade q" by simp
  then have u: "ulp_exp q = binade q - 52" by (simp add: ulp_exp_def)
  have "\<bar>rnd64 q - q\<bar> \<le> 2 powi (binade q + (- 53))"
    using rnd64_error_ulp [OF q] by (simp add: u)
  also have "\<dots> = 2 powi binade q * 2 powi (- 53)" by (rule power_int_add) simp
  also have "\<dots> \<le> \<bar>q\<bar> * 2 powi (- 53)" using b(1) by (intro mult_right_mono) simp_all
  finally show ?thesis .
qed

lemma rnd64_zero [simp]: "rnd64 0 = 0"
  by (simp add: rnd64_def)

text \<open>An absolute form that also covers zero and subnormal numbers.\<close>

lemma rnd64_abs_error:
  assumes "\<bar>q\<bar> \<le> 2 ^ n" "n \<le> 52"
  shows "\<bar>rnd64 q - q\<bar> \<le> 2 ^ n * 2 powi (- 53)"
proof (cases "2 powi (- 1022) \<le> \<bar>q\<bar>")
  case True
  then have "\<bar>rnd64 q - q\<bar> \<le> \<bar>q\<bar> * 2 powi (- 53)" by (rule rnd64_error)
  also have "\<dots> \<le> 2 ^ n * 2 powi (- 53)" using assms(1) by (intro mult_right_mono) simp_all
  finally show ?thesis .
next
  case False
  show ?thesis
  proof (cases "q = 0")
    case True
    then show ?thesis by simp
  next
    case q: False
    have "2 powi binade q \<le> \<bar>q\<bar>" using binade_bounds [OF q] by simp
    with False have "(2::rat) powi binade q < 2 powi (- 1022)" by linarith
    then have "binade q < - 1022" unfolding powi2_less_iff .
    then have "ulp_exp q \<le> - 1074" by (simp add: ulp_exp_def)
    then have "(2::rat) powi (ulp_exp q - 1) \<le> 2 powi (- 53)" unfolding powi2_le_iff by simp
    also have "(2::rat) powi (- 53) \<le> 2 ^ n * 2 powi (- 53)" by simp
    finally show ?thesis using rnd64_error_ulp [OF q] by linarith
  qed
qed

lemma fl_Fin: "\<bar>rnd64 q\<bar> < 2 ^ 1024 \<Longrightarrow> fl q = Fin (rnd64 q)"
  by (simp add: fl_def Let_def abs_if split: if_splits)

lemma fl_small:
  assumes "\<bar>q\<bar> \<le> 2 ^ n" "n \<le> 52"
  shows "\<exists>r. fl q = Fin r \<and> \<bar>r - q\<bar> \<le> 2 ^ n * 2 powi (- 53)"
proof -
  have e: "\<bar>rnd64 q - q\<bar> \<le> 2 ^ n * 2 powi (- 53)" by (rule rnd64_abs_error [OF assms])
  have n: "(2::rat) ^ n \<le> 2 ^ 52" by (rule power_increasing [OF assms(2)]) simp
  moreover have "(2::rat) ^ n * 2 powi (- 53) \<le> 2 ^ 52 * 2 powi (- 53)"
    by (intro mult_right_mono n) simp
  moreover have "(2::rat) ^ 52 * 2 powi (- 53) < 1" by (simp add: power_int_minus)
  moreover have "\<bar>rnd64 q\<bar> \<le> \<bar>q\<bar> + \<bar>rnd64 q - q\<bar>" by arith
  ultimately have "\<bar>rnd64 q\<bar> < 2 ^ 52 + 1" using e assms(1) by linarith
  then have "\<bar>rnd64 q\<bar> < 2 ^ 54" by (rule less_trans) simp
  then have "\<bar>rnd64 q\<bar> < 2 ^ 1024" by (rule less_trans) (simp add: power_strict_increasing)
  then show ?thesis using e fl_Fin by blast
qed

section \<open>Exactness\<close>

lemma round_even_of_int [simp]: "round_even (of_int n) = n"
  by (simp add: round_even_def)

text \<open>A value that is a multiple of its own unit in the last place is not rounded.\<close>

lemma rnd64_exact: "q = of_int m * 2 powi ulp_exp q \<Longrightarrow> rnd64 q = q"
proof -
  assume q: "q = of_int m * 2 powi ulp_exp q"
  then have "q / 2 powi ulp_exp q = of_int m"
    by (metis nonzero_mult_div_cancel_right powi_rat_pos less_irrefl)
  then show ?thesis using q by (simp add: rnd64_def)
qed

text \<open>Every dyadic number with at most 53 significant bits is a float64.\<close>

lemma rnd64_dyadic:
  assumes "\<bar>m\<bar> < 2 ^ 53" "- 1074 \<le> j"
  shows "rnd64 (of_int m * 2 powi j) = of_int m * 2 powi j"
proof (cases "m = 0")
  case True
  then show ?thesis by simp
next
  case False
  let ?q = "of_int m * 2 powi j :: rat"
  have q: "?q \<noteq> 0" using False by simp
  have "\<bar>of_int m :: rat\<bar> < 2 ^ 53" using assms(1)
    by (metis of_int_abs of_int_less_iff of_int_numeral of_int_power)
  then have m: "\<bar>of_int m :: rat\<bar> < 2 powi 53" by (simp add: power_int_def)
  have "\<bar>?q\<bar> = \<bar>of_int m\<bar> * 2 powi j" by (simp add: abs_mult)
  also have "\<dots> < 2 powi 53 * 2 powi j" by (rule mult_strict_right_mono [OF m]) simp
  also have "\<dots> = 2 powi (53 + j)" by (rule power_int_add [symmetric]) simp
  finally have "(2::rat) powi binade ?q < 2 powi (53 + j)" using binade_bounds [OF q] by linarith
  then have "binade ?q < 53 + j" unfolding powi2_less_iff .
  then have u: "ulp_exp ?q \<le> j" using assms(2) by (simp add: ulp_exp_def)
  have "(2::rat) powi j = 2 powi (j - ulp_exp ?q) * 2 powi ulp_exp ?q"
    by (simp flip: power_int_add)
  also have "(2::rat) powi (j - ulp_exp ?q) = of_int (2 ^ nat (j - ulp_exp ?q))"
    using u by (simp add: power_int_def)
  finally have "?q = of_int (m * 2 ^ nat (j - ulp_exp ?q)) * 2 powi ulp_exp ?q" by simp
  then show ?thesis by (rule rnd64_exact)
qed

lemma rnd64_of_int: "\<bar>n\<bar> < 2 ^ 53 \<Longrightarrow> rnd64 (of_int n) = of_int n"
  using rnd64_dyadic [of n 0] by simp

text \<open>Rounding twice is rounding once.\<close>

lemma rnd64_idem: "rnd64 (rnd64 q) = rnd64 q"
proof (cases "q = 0")
  case True
  then show ?thesis by (simp add: rnd64_def)
next
  case False
  define u x m where "u = ulp_exp q" "x = q / 2 powi u" "m = round_even x"
  have r: "rnd64 q = of_int m * 2 powi u" using False by (simp add: rnd64_def u_x_m_def)
  have u: "binade q - 52 \<le> u" "- 1074 \<le> u" by (simp_all add: u_x_m_def ulp_exp_def)
  have "\<bar>q\<bar> < 2 powi (binade q + 1)" using binade_bounds [OF False] by blast
  also have "\<dots> \<le> (2::rat) powi (53 + u)" unfolding powi2_le_iff using u by simp
  also have "\<dots> = 2 powi 53 * 2 powi u" by (rule power_int_add) simp
  finally have "\<bar>x\<bar> < 2 powi 53" by (simp add: u_x_m_def abs_divide divide_less_eq)
  then have "\<bar>x\<bar> < 2 ^ 53" by (simp add: power_int_def)
  moreover have "\<bar>of_int m - x\<bar> \<le> 1 / 2" unfolding u_x_m_def(3) by (rule round_even_error)
  ultimately have "\<bar>of_int m :: rat\<bar> < 2 ^ 53 + 1" by linarith
  then have "(of_int \<bar>m\<bar> :: rat) < of_int (2 ^ 53 + 1)" by simp
  then have "\<bar>m\<bar> < 2 ^ 53 + 1" by (simp only: of_int_less_iff)
  then consider "\<bar>m\<bar> < 2 ^ 53" | "m = 2 ^ 53" | "m = - (2 ^ 53)" by linarith
  then show ?thesis
  proof cases
    case 1
    then show ?thesis unfolding r using u(2) by (rule rnd64_dyadic)
  next
    case 2
    then have "of_int m * 2 powi u = (of_int (2 ^ 52) * 2 powi (u + 1) :: rat)"
      by (simp add: power_int_add)
    then show ?thesis unfolding r using u(2) by (simp only:) (rule rnd64_dyadic, simp_all)
  next
    case 3
    then have "of_int m * 2 powi u = (of_int (- (2 ^ 52)) * 2 powi (u + 1) :: rat)"
      by (simp add: power_int_add)
    then show ?thesis unfolding r using u(2) by (simp only:) (rule rnd64_dyadic, simp_all)
  qed
qed

lemma fl_idem: "fl q = Fin r \<Longrightarrow> fl r = Fin r"
  by (auto simp: fl_def Let_def rnd64_idem split: if_splits)

text \<open>Certificates: an exponent and a significand that determine a rounded value.\<close>

lemma binade_eqI:
  assumes "2 powi e \<le> \<bar>q\<bar>" "\<bar>q\<bar> < 2 powi (e + 1)"
  shows "binade q = e"
proof -
  have q: "q \<noteq> 0" using assms(1) by (metis abs_zero not_le powi_rat_pos)
  have "(2::rat) powi e < 2 powi (binade q + 1)" "(2::rat) powi binade q < 2 powi (e + 1)"
    using binade_bounds [OF q] assms by linarith+
  then show ?thesis unfolding powi2_less_iff by simp
qed

lemma round_even_near:
  assumes "\<bar>q - of_int m\<bar> < 1 / 2"
  shows "round_even q = m"
proof -
  have "\<bar>of_int (round_even q) - of_int m :: rat\<bar> < 1"
    using round_even_error [of q] assms by arith
  then have "of_int \<bar>round_even q - m\<bar> < (of_int 1 :: rat)" by simp
  then have "\<bar>round_even q - m\<bar> < 1" unfolding of_int_less_iff .
  then show ?thesis by simp
qed

lemma round_even_tie:
  assumes "\<bar>q - of_int m\<bar> = 1 / 2" "even m"
  shows "round_even q = m"
proof -
  consider "q = of_int m + 1 / 2" | "q = of_int (m - 1) + 1 / 2"
    using assms(1) by (auto simp: abs_if split: if_splits)
  then show ?thesis
  proof cases
    case 1
    then have "\<lfloor>q\<rfloor> = m" by (simp add: floor_eq_iff)
    with 1 assms(2) show ?thesis by (simp add: round_even_def)
  next
    case 2
    then have "\<lfloor>q\<rfloor> = m - 1" by (simp add: floor_eq_iff)
    with 2 assms(2) show ?thesis by (simp add: round_even_def)
  qed
qed

definition rounds_to :: "rat \<Rightarrow> int \<Rightarrow> bool" where
  "rounds_to q m \<longleftrightarrow> \<bar>q - of_int m\<bar> < 1 / 2 \<or> \<bar>q - of_int m\<bar> = 1 / 2 \<and> even m"

lemma round_even_eqI: "rounds_to q m \<Longrightarrow> round_even q = m"
  unfolding rounds_to_def using round_even_near round_even_tie by blast

lemma rnd64_eqI:
  assumes "2 powi e \<le> \<bar>q\<bar>" "\<bar>q\<bar> < 2 powi (e + 1)" "- 1022 \<le> e"
    and "rounds_to (q / 2 powi (e - 52)) m"
  shows "rnd64 q = of_int m * 2 powi (e - 52)"
proof -
  have q: "q \<noteq> 0" using assms(1) by (metis abs_zero not_le powi_rat_pos)
  have "ulp_exp q = e - 52"
    using binade_eqI [OF assms(1,2)] assms(3) by (simp add: ulp_exp_def)
  then show ?thesis using q round_even_eqI [OF assms(4)] by (simp add: rnd64_def)
qed

lemma float_of_int_exact: "\<bar>n\<bar> < 2 ^ 53 \<Longrightarrow> float_of_int n = Fin (of_int n)"
proof -
  assume n: "\<bar>n\<bar> < 2 ^ 53"
  have "\<bar>of_int n :: rat\<bar> < 2 ^ 53" using n
    by (metis of_int_abs of_int_less_iff of_int_numeral of_int_power)
  also have "(2::rat) ^ 53 < 2 ^ 1024" by (simp add: power_strict_increasing)
  finally show ?thesis using rnd64_of_int [OF n] by (simp add: float_of_int_def fl_Fin)
qed

lemma fl_exact: "rnd64 q = q \<Longrightarrow> \<bar>q\<bar> < 2 ^ 1024 \<Longrightarrow> fl q = Fin q"
  by (simp add: fl_Fin)

lemma fl_eqI:
  assumes "2 powi e \<le> \<bar>q\<bar>" "\<bar>q\<bar> < 2 powi (e + 1)" "- 1022 \<le> e" "e \<le> 60"
    and "rounds_to (q / 2 powi (e - 52)) m" "\<bar>m\<bar> \<le> 2 ^ 53"
  shows "fl q = Fin (of_int m * 2 powi (e - 52))"
proof -
  have r: "rnd64 q = of_int m * 2 powi (e - 52)" by (rule rnd64_eqI [OF assms(1-3,5)])
  have "\<bar>of_int m :: rat\<bar> \<le> of_int (2 ^ 53)"
    using assms(6) by (metis of_int_abs of_int_le_iff)
  then have m: "\<bar>of_int m :: rat\<bar> \<le> 2 ^ 53" by simp
  have "(2::rat) powi (e - 52) \<le> 2 powi 8" unfolding powi2_le_iff using assms(4) by simp
  then have p: "(2::rat) powi (e - 52) \<le> 2 ^ 8" by (simp add: power_int_def)
  have "\<bar>rnd64 q\<bar> = \<bar>of_int m\<bar> * 2 powi (e - 52)" by (simp add: r abs_mult)
  also have "\<dots> \<le> 2 ^ 53 * 2 ^ 8" by (rule mult_mono [OF m p]) simp_all
  also have "(2::rat) ^ 53 * 2 ^ 8 = 2 ^ 61" by (simp flip: power_add)
  also have "(2::rat) ^ 61 < 2 ^ 1024" by (rule power_strict_increasing) simp_all
  finally show ?thesis using r by (simp add: fl_Fin)
qed

text \<open>Dyadic numbers with few bits, written as a fraction.\<close>

lemma fl_dyadic:
  assumes "\<bar>m\<bar> < 2 ^ 53" "k \<le> 1074"
  shows "fl (of_int m / 2 ^ k) = Fin (of_int m / 2 ^ k)"
proof -
  have e: "(of_int m / 2 ^ k :: rat) = of_int m * 2 powi (- int k)"
    by (simp add: power_int_minus divide_inverse)
  have "\<bar>of_int m :: rat\<bar> < of_int (2 ^ 53)"
    using assms(1) by (metis of_int_abs of_int_less_iff)
  then have "\<bar>of_int m :: rat\<bar> < 2 ^ 53" by simp
  moreover have "\<bar>of_int m / 2 ^ k :: rat\<bar> \<le> \<bar>of_int m\<bar>"
    using mult_left_mono [of 1 "2 ^ k" "\<bar>of_int m :: rat\<bar>"] by (simp add: divide_le_eq)
  moreover have "(2::rat) ^ 53 < 2 ^ 1024" by (rule power_strict_increasing) simp_all
  ultimately have "\<bar>of_int m / 2 ^ k :: rat\<bar> < 2 ^ 1024" by linarith
  moreover have "rnd64 (of_int m / 2 ^ k) = of_int m / 2 ^ k"
    unfolding e using assms by (intro rnd64_dyadic) simp_all
  ultimately show ?thesis by (simp add: fl_Fin)
qed

section \<open>Durations as floating-point numbers\<close>

definition fdiv_fin :: "rat \<Rightarrow> rat \<Rightarrow> float64" where
  "fdiv_fin a b = fl (a / b)"

text \<open>
  \<^verbatim>\<open>Duration.Seconds\<close>, \<^verbatim>\<open>Minutes\<close> and \<^verbatim>\<open>Hours\<close>: the whole units plus the rest divided by the
  unit, in float64 arithmetic; and \<^verbatim>\<open>int64(f)\<close>, which truncates towards zero.
\<close>

definition duration_units :: "int \<Rightarrow> duration \<Rightarrow> float64" where
  "duration_units unit d =
     fadd (float_of_int (quot_trunc d unit))
       (case float_of_int (rem_trunc d unit) of Fin r \<Rightarrow> fdiv_fin r (of_int unit) | x \<Rightarrow> x)"

fun int64_of_float :: "float64 \<Rightarrow> int" where
  "int64_of_float (Fin q) = (if q \<ge> 0 then \<lfloor>q\<rfloor> else \<lceil>q\<rceil>)"
| "int64_of_float _ = - (2 ^ 63)"

abbreviation Duration_Seconds :: "duration \<Rightarrow> float64" where
  "Duration_Seconds \<equiv> duration_units nanos_per_second"

lemma fl_zero [simp]: "fl 0 = Fin 0"
  by (simp add: fl_def)

lemma quot_trunc_mult: "0 < u \<Longrightarrow> quot_trunc (k * u) u = k"
  by (auto simp: quot_trunc_def abs_mult sgn_mult mult_sgn_abs)

lemma int64_of_whole_units:
  assumes "0 < u" "\<bar>k\<bar> < 2 ^ 53"
  shows "int64_of_float (duration_units u (k * u)) = k"
proof -
  have k: "float_of_int k = Fin (of_int k)" by (rule float_of_int_exact [OF assms(2)])
  have r: "rem_trunc (k * u) u = 0" using assms(1) by (simp add: rem_trunc_def quot_trunc_mult)
  have "float_of_int 0 = Fin 0" by (simp add: float_of_int_def)
  then have "duration_units u (k * u) = fl (of_int k)"
    using assms(1) k r by (simp add: duration_units_def fdiv_fin_def quot_trunc_mult)
  also have "\<dots> = Fin (of_int k)" using k by (simp add: float_of_int_def)
  finally show ?thesis by simp
qed

end
