(* ===== verification/Go_Errors.thy ===== *)
theory Go_Errors
  imports Prelude
begin

text \<open>
  Go error values. A package-level \<^verbatim>\<open>errors.New\<close> variable is a \<open>Sentinel\<close>, identified by
  its qualified name; \<^verbatim>\<open>fmt.Errorf\<close> with a \<^verbatim>\<open>%w\<close> verb is \<open>Wrapped\<close> (text before, the
  wrapped error, text after); an error with no identity the program compares against (an
  anonymous \<^verbatim>\<open>errors.New\<close>, \<^verbatim>\<open>fmt.Errorf\<close> with \<^verbatim>\<open>%v\<close> only, a driver's error) is \<open>Opaque\<close>.
  Formatting an error with \<^verbatim>\<open>%v\<close> keeps its text and loses its identity: \<open>errorf_v\<close>.
\<close>

datatype err = Sentinel string string | Opaque string | Wrapped string err string

primrec ErrorText :: "err \<Rightarrow> string" where
  "ErrorText (Sentinel n t) = t"
| "ErrorText (Opaque t) = t"
| "ErrorText (Wrapped p e s) = p @ ErrorText e @ s"

definition errorf_v :: "string \<Rightarrow> err \<Rightarrow> err" where
  "errorf_v prefix e = Opaque (prefix @ ErrorText e)"

definition errorf_w :: "string \<Rightarrow> err \<Rightarrow> err" where
  "errorf_w prefix e = Wrapped prefix e []"

text \<open>\<^verbatim>\<open>errors.Is\<close> walks the chain of wrapped errors.\<close>

primrec errors_is :: "err \<Rightarrow> err \<Rightarrow> bool" where
  "errors_is (Sentinel n t) target = (Sentinel n t = target)"
| "errors_is (Opaque t) target = (Opaque t = target)"
| "errors_is (Wrapped p e s) target = (Wrapped p e s = target \<or> errors_is e target)"

type_synonym 'a result = "err + 'a"

lemma errors_is_refl [simp]: "errors_is e e"
  by (cases e) simp_all

lemma errors_is_errorf_w [simp]: "errors_is (errorf_w p e) (Sentinel n t) = errors_is e (Sentinel n t)"
  by (simp add: errorf_w_def)

lemma errors_is_errorf_v [simp]: "\<not> errors_is (errorf_v p e) (Sentinel n t)"
  by (simp add: errorf_v_def)

lemma errorf_v_not_sentinel [simp]: "errorf_v p e \<noteq> Sentinel n t" "Sentinel n t \<noteq> errorf_v p e"
  by (simp_all add: errorf_v_def)

lemma errorf_w_not_sentinel [simp]: "errorf_w p e \<noteq> Sentinel n t" "Sentinel n t \<noteq> errorf_w p e"
  by (simp_all add: errorf_w_def)

end
