(* ===== verification/Domain.thy ===== *)
theory Domain
  imports Float64 Go_Errors
begin

text \<open>
  The domain packages: \<^verbatim>\<open>internal/domain/types\<close> (statuses, order types, cooking times) and
  \<^verbatim>\<open>internal/domain/models\<close> (orders, their number, total and priority, sentinel errors,
  status updates, tracking and worker views).
\<close>

section \<open>Constants of domain/types\<close>

definition StatusOrderReceived :: string where "StatusOrderReceived = ''received''"
definition StatusOrderCooking :: string where "StatusOrderCooking = ''cooking''"
definition StatusOrderReady :: string where "StatusOrderReady = ''ready''"
definition StatusOrderCompleted :: string where "StatusOrderCompleted = ''completed''"
definition StatusOrderCancelled :: string where "StatusOrderCancelled = ''cancelled''"

definition OrderTypeDineIn :: string where "OrderTypeDineIn = ''dine_in''"
definition OrderTypeTakeOut :: string where "OrderTypeTakeOut = ''takeout''"
definition OrderTypeDelivery :: string where "OrderTypeDelivery = ''delivery''"

definition CookingTimeDineIn :: duration where "CookingTimeDineIn = nanos_per_second * 8"
definition CookingTimeTakeOut :: duration where "CookingTimeTakeOut = nanos_per_second * 10"
definition CookingTimeDelivery :: duration where "CookingTimeDelivery = nanos_per_second * 12"
definition DefaultCookingTime :: duration where "DefaultCookingTime = nanos_per_second * 5"

definition WorkerOnline :: string where "WorkerOnline = ''online''"
definition WorkerOffline :: string where "WorkerOffline = ''offline''"

lemmas status_defs = StatusOrderReceived_def StatusOrderCooking_def StatusOrderReady_def
  StatusOrderCompleted_def StatusOrderCancelled_def
lemmas order_type_defs = OrderTypeDineIn_def OrderTypeTakeOut_def OrderTypeDelivery_def
lemmas worker_status_defs = WorkerOnline_def WorkerOffline_def
lemmas cooking_time_defs = CookingTimeDineIn_def CookingTimeTakeOut_def CookingTimeDelivery_def
  DefaultCookingTime_def

definition AllOrderTypes :: "string list" where
  "AllOrderTypes = [OrderTypeDineIn, OrderTypeTakeOut, OrderTypeDelivery]"

definition IsValidOrderType :: "string \<Rightarrow> bool" where
  "IsValidOrderType s \<longleftrightarrow> List.member AllOrderTypes s"

definition GetSimulateCookingDuration :: "string \<Rightarrow> duration" where
  "GetSimulateCookingDuration orderType =
     (if orderType = OrderTypeDineIn then CookingTimeDineIn
      else if orderType = OrderTypeTakeOut then CookingTimeTakeOut
      else if orderType = OrderTypeDelivery then CookingTimeDelivery
      else DefaultCookingTime)"

section \<open>Errors of domain/models\<close>

definition ErrWorkerNotFound :: err where
  "ErrWorkerNotFound = Sentinel ''models.ErrWorkerNotFound'' ''worker is not found''"
definition ErrOrderNotFound :: err where
  "ErrOrderNotFound = Sentinel ''models.ErrOrderNotFound'' ''order is not found''"
definition ErrWorkerAlreadyOnline :: err where
  "ErrWorkerAlreadyOnline =
     Sentinel ''models.ErrWorkerAlreadyOnline'' ''worker already exists and is online''"

lemmas model_err_defs = ErrWorkerNotFound_def ErrOrderNotFound_def ErrWorkerAlreadyOnline_def

section \<open>Orders\<close>

record CreateOrderItem =
  ci_Name :: string
  ci_Quantity :: int
  ci_Price :: float64

record CreateOrder =
  co_Number :: string
  co_CustomerName :: string
  co_Type :: string
  co_Items :: "CreateOrderItem list"
  co_TableNumber :: "int option"
  co_DeliveryAddress :: "string option"
  co_TotalAmount :: float64
  co_Priority :: int
  co_Status :: string

record Order =
  or_ID :: int
  or_CreatedAt :: instant
  or_UpdatedAt :: instant
  or_Number :: string
  or_CustomerName :: string
  or_Type :: string
  or_TableNumber :: "int option"
  or_DeliveryAddress :: "string option"
  or_TotalAmount :: float64
  or_Priority :: int
  or_Status :: string
  or_ProcessedBy :: "string option"
  or_CompletedAt :: "instant option"

record OrderCreatedInfo =
  oi_Number :: string
  oi_Status :: string
  oi_TotalAmount :: float64

record StatusUpdate =
  su_OrderNumber :: string
  su_OldStatus :: string
  su_NewStatus :: string
  su_ChangedBy :: string
  su_Timestamp :: instant
  su_Completion :: instant
  su_RequestID :: string

record OrderStatus =
  os_OrderNumber :: string
  os_Status :: string
  os_UpdatedAt :: instant
  os_Completion :: "instant option"
  os_ProcessedBy :: "string option"

record OrderHistory =
  oh_Status :: string
  oh_Timestamp :: instant
  oh_ChangedBy :: string

record Worker =
  wk_Name :: string
  wk_Status :: string
  wk_ProcessedOrders :: int
  wk_LastSeen :: instant

text \<open>\<open>item_amount\<close> is the body of the loop of \<^verbatim>\<open>CalucalteTotalAmount\<close>.\<close>

definition item_amount :: "CreateOrderItem \<Rightarrow> float64" where
  "item_amount item = fmul (ci_Price item) (float_of_int (ci_Quantity item))"

definition CalucalteTotalAmount :: "CreateOrder \<Rightarrow> CreateOrder" where
  "CalucalteTotalAmount m =
     m\<lparr>co_TotalAmount := foldl (\<lambda>total item. fadd total (item_amount item)) (Fin 0) (co_Items m)\<rparr>"

definition CalculatePriority :: "CreateOrder \<Rightarrow> CreateOrder" where
  "CalculatePriority m =
     m\<lparr>co_Priority :=
         (if fless (Fin 100) (co_TotalAmount m) then 10
          else if fless (Fin 50) (co_TotalAmount m) then 5
          else 1)\<rparr>"

definition SetNumber :: "string \<Rightarrow> int \<Rightarrow> CreateOrder \<Rightarrow> CreateOrder" where
  "SetNumber date sequence m =
     (let width = (if sequence > 9999 then 5 else if sequence > 999 then 4 else 3)
      in m\<lparr>co_Number := ''ORD_'' @ date @ ''_'' @ fmt_0d width sequence\<rparr>)"

text \<open>
  A concrete order at which the theorems are instantiated: 2 x 12.50 and 3 x 8.25 at
  table 7; prices, amounts and total are all exact float64 values.
\<close>

definition example_order :: CreateOrder where
  "example_order = \<lparr>co_Number = [], co_CustomerName = ''Ann'', co_Type = ''dine_in'',
     co_Items = [\<lparr>ci_Name = ''Margherita'', ci_Quantity = 2, ci_Price = Fin (25 / 2)\<rparr>,
                 \<lparr>ci_Name = ''Soup'', ci_Quantity = 3, ci_Price = Fin (33 / 4)\<rparr>],
     co_TableNumber = Some 7, co_DeliveryAddress = None,
     co_TotalAmount = Fin 0, co_Priority = 0, co_Status = []\<rparr>"

section \<open>Order numbers\<close>

text \<open>
  C27. Order numbers are unique: two numbers made from dates of equal length and
  non-negative sequence values are equal only for the same date and the same sequence
  value, although the width of the sequence field grows from three to five digits.
\<close>

theorem SetNumber_unique:
  assumes "length d = length d'" "0 \<le> n" "0 \<le> n'"
    and "co_Number (SetNumber d n m) = co_Number (SetNumber d' n' m')"
  shows "d = d' \<and> n = n'"
  using assms by (auto simp: SetNumber_def Let_def dest: fmt_0d_inject)

theorem SetNumber_unique_witness:
  "co_Number (SetNumber ''20250101'' 7 example_order) = ''ORD_20250101_007''
   \<and> ''20250101'' = ''20250101'' \<and> (7::int) = 7"
  using SetNumber_unique [of "''20250101''" "''20250101''" 7 7 example_order example_order]
  by (simp add: SetNumber_def; code_simp)

text \<open>
  Up to sequence value 99999 the sequence field of the order number has exactly
  three digits below 1000, four below 10000 and five from there on.
\<close>

theorem SetNumber_length:
  assumes "0 \<le> n" "n \<le> 99999"
  shows "length (co_Number (SetNumber d n m)) =
    length d + 5 + (if n \<le> 999 then 3 else if n \<le> 9999 then 4 else 5)"
proof -
  let ?n = "nat n"
  have up: "?n < 10 ^ Suc 2 \<Longrightarrow> length (dec_nat ?n) \<le> 3"
    "?n < 10 ^ Suc 3 \<Longrightarrow> length (dec_nat ?n) \<le> 4" "?n < 10 ^ Suc 4 \<Longrightarrow> length (dec_nat ?n) \<le> 5"
    using length_dec_nat_le [of ?n 2] length_dec_nat_le [of ?n 3] length_dec_nat_le [of ?n 4]
    by simp_all
  consider "n \<le> 999" | "999 < n" "n \<le> 9999" | "9999 < n" by linarith
  then show ?thesis
    using assms up by cases (auto simp: SetNumber_def Let_def fmt_0d_def pad0_def)
qed

theorem SetNumber_length_witness:
  "length (co_Number (SetNumber ''20250101'' 12345 example_order)) = 18"
  using SetNumber_length [of 12345 "''20250101''" example_order] by simp

section \<open>The order total in floating point\<close>

text \<open>
  \<open>cent_item cs it\<close>: the item passed validation and its price is the float64 nearest to
  a whole number \<open>cs it\<close> of cents, as a decoder makes it from a price with two decimals.
\<close>

definition cent_item :: "(CreateOrderItem \<Rightarrow> int) \<Rightarrow> CreateOrderItem \<Rightarrow> bool" where
  "cent_item cs it \<longleftrightarrow> 1 \<le> cs it \<and> cs it \<le> 99999 \<and> 1 \<le> ci_Quantity it \<and> ci_Quantity it \<le> 10
     \<and> ci_Price it = fl (of_int (cs it) / 100)"

definition exact_cents :: "(CreateOrderItem \<Rightarrow> int) \<Rightarrow> CreateOrderItem list \<Rightarrow> int" where
  "exact_cents cs its = sum_list (map (\<lambda>it. cs it * ci_Quantity it) its)"

lemma exact_cents_simps [simp]:
  "exact_cents cs [] = 0"
  "exact_cents cs (it # its) = cs it * ci_Quantity it + exact_cents cs its"
  by (simp_all add: exact_cents_def)

lemma item_amount_error:
  assumes "cent_item cs it"
  shows "\<exists>a. item_amount it = Fin a \<and> \<bar>a - of_int (cs it * ci_Quantity it) / 100\<bar> \<le> 2 powi (- 38)"
proof -
  let ?c = "of_int (cs it) / 100 :: rat" and ?q = "of_int (ci_Quantity it) :: rat"
  have c: "1 \<le> cs it" "cs it \<le> 99999" and q: "1 \<le> ci_Quantity it" "ci_Quantity it \<le> 10"
    and pr: "ci_Price it = fl ?c"
    using assms by (auto simp: cent_item_def)
  have c': "0 \<le> ?c" "?c \<le> 1000" using c by (simp_all add: of_int_le_iff [of _ 100000, simplified])
  have q': "1 \<le> ?q" "?q \<le> 10" using q by (simp_all add: of_int_le_iff [of _ 10, simplified])
  have "\<bar>?c\<bar> \<le> 2 ^ 10" using c' by simp
  then obtain p where p: "fl ?c = Fin p" and pe: "\<bar>p - ?c\<bar> \<le> 2 ^ 10 * 2 powi (- 53)"
    using fl_small [of ?c 10] by auto
  have pe': "\<bar>p - ?c\<bar> \<le> 1 / 8796093022208" using pe by (simp add: power_int_minus)
  have "\<bar>p\<bar> \<le> 1001" using pe' c' by arith
  then have "\<bar>p * ?q\<bar> \<le> 1001 * 10" unfolding abs_mult using q' by (intro mult_mono) simp_all
  then have "\<bar>p * ?q\<bar> \<le> 2 ^ 14" by simp
  then obtain a where a: "fl (p * ?q) = Fin a" and ae: "\<bar>a - p * ?q\<bar> \<le> 2 ^ 14 * 2 powi (- 53)"
    using fl_small [of "p * ?q" 14] by auto
  have ae': "\<bar>a - p * ?q\<bar> \<le> 1 / 549755813888" using ae by (simp add: power_int_minus)
  have "p * ?q - ?c * ?q = (p - ?c) * ?q" by (simp add: left_diff_distrib)
  then have "\<bar>p * ?q - ?c * ?q\<bar> = \<bar>p - ?c\<bar> * \<bar>?q\<bar>" by (simp add: abs_mult)
  also have "\<dots> \<le> 1 / 8796093022208 * 10" using pe' q' by (intro mult_mono) simp_all
  finally have me: "\<bar>p * ?q - ?c * ?q\<bar> \<le> 10 / 8796093022208" by simp
  have "float_of_int (ci_Quantity it) = Fin ?q" using q by (simp add: float_of_int_exact)
  then have "item_amount it = Fin a" by (simp add: item_amount_def pr p a)
  moreover have "\<bar>a - ?c * ?q\<bar> \<le> 1 / 274877906944" using ae' me by arith
  ultimately show ?thesis by (simp add: power_int_minus)
qed

lemma exact_item_bound: "cent_item cs it \<Longrightarrow> 0 \<le> cs it * ci_Quantity it \<and> cs it * ci_Quantity it \<le> 999990"
  using mult_mono [of "cs it" 99999 "ci_Quantity it" 10] by (simp add: cent_item_def)

lemma total_step:
  assumes it: "cent_item cs it" and k: "k \<le> 19" and e: "0 \<le> e" "e \<le> int k * 999990"
    and t: "\<bar>t - of_int e / 100\<bar> \<le> of_nat k * 2 powi (- 34)"
  shows "\<exists>t'. fadd (Fin t) (item_amount it) = Fin t'
    \<and> \<bar>t' - of_int (e + cs it * ci_Quantity it) / 100\<bar> \<le> of_nat (Suc k) * 2 powi (- 34)"
proof -
  let ?x = "cs it * ci_Quantity it"
  obtain a where a: "item_amount it = Fin a" and ae: "\<bar>a - of_int ?x / 100\<bar> \<le> 1 / 274877906944"
    using item_amount_error [OF it] by (auto simp: power_int_minus)
  have x: "0 \<le> ?x" "?x \<le> 999990" using exact_item_bound [OF it] by auto
  have "e \<le> 18999810" using e k by linarith
  then have "0 \<le> e + ?x" "e + ?x \<le> 20000000" using e x by linarith+
  then have "(0::rat) \<le> of_int (e + ?x)" "(of_int (e + ?x) :: rat) \<le> of_int 20000000"
    unfolding of_int_0_le_iff of_int_le_iff by simp_all
  then have s: "0 \<le> (of_int (e + ?x) :: rat) / 100" "(of_int (e + ?x) :: rat) / 100 \<le> 200000"
    by simp_all
  have k34: "\<bar>t - of_int e / 100\<bar> \<le> of_nat k / 17179869184" using t by (simp add: power_int_minus)
  have kk: "(of_nat k :: rat) \<le> 19" using k by (simp add: of_nat_le_iff [of _ 19, simplified])
  have sum: "\<bar>(t + a) - of_int (e + ?x) / 100\<bar> \<le> of_nat k / 17179869184 + 1 / 274877906944"
    using k34 ae unfolding of_int_add add_divide_distrib by arith
  have "\<bar>t + a\<bar> \<le> 262144" using sum s kk by arith
  then have "\<bar>t + a\<bar> \<le> 2 ^ 18" by simp
  then obtain t' where t': "fl (t + a) = Fin t'" and te: "\<bar>t' - (t + a)\<bar> \<le> 2 ^ 18 * 2 powi (- 53)"
    using fl_small [of "t + a" 18] by auto
  have "\<bar>t' - (t + a)\<bar> \<le> 1 / 34359738368" using te by (simp add: power_int_minus)
  with sum have "\<bar>t' - of_int (e + ?x) / 100\<bar> \<le> (of_nat k + 1) / 17179869184"
    unfolding add_divide_distrib [of "of_nat k" 1] by arith
  then show ?thesis using a t' by (simp add: power_int_minus)
qed

lemma total_foldl:
  assumes "\<forall>it \<in> set its. cent_item cs it" "length its + k \<le> 20" "0 \<le> e" "e \<le> int k * 999990"
    and "\<bar>t - of_int e / 100\<bar> \<le> of_nat k * 2 powi (- 34)"
  shows "\<exists>t'. foldl (\<lambda>total item. fadd total (item_amount item)) (Fin t) its = Fin t'
    \<and> \<bar>t' - of_int (e + exact_cents cs its) / 100\<bar> \<le> of_nat (k + length its) * 2 powi (- 34)"
  using assms
proof (induction its arbitrary: t e k)
  case Nil
  then show ?case by simp
next
  case (Cons it its)
  then have it: "cent_item cs it" and k: "k \<le> 19" by auto
  obtain t' where t': "fadd (Fin t) (item_amount it) = Fin t'"
    and te: "\<bar>t' - of_int (e + cs it * ci_Quantity it) / 100\<bar> \<le> of_nat (Suc k) * 2 powi (- 34)"
    using total_step [OF it k Cons.prems(3-5)] by blast
  have "\<exists>t''. foldl (\<lambda>total item. fadd total (item_amount item)) (Fin t') its = Fin t''
    \<and> \<bar>t'' - of_int (e + cs it * ci_Quantity it + exact_cents cs its) / 100\<bar>
        \<le> of_nat (Suc k + length its) * 2 powi (- 34)"
    using Cons.prems te exact_item_bound [OF it] by (intro Cons.IH) auto
  then show ?case using t' by (simp add: add.assoc)
qed

lemma CalucalteTotalAmount_bound:
  assumes "length (co_Items m) \<le> 20" "\<forall>it \<in> set (co_Items m). cent_item cs it"
  shows "\<exists>t. co_TotalAmount (CalucalteTotalAmount m) = Fin t
    \<and> \<bar>t - of_int (exact_cents cs (co_Items m)) / 100\<bar> < 1 / 10 ^ 8"
proof -
  obtain t where t: "co_TotalAmount (CalucalteTotalAmount m) = Fin t"
    and e: "\<bar>t - of_int (exact_cents cs (co_Items m)) / 100\<bar>
              \<le> of_nat (length (co_Items m)) * 2 powi (- 34)"
    using total_foldl [of "co_Items m" cs 0 0 0] assms by (auto simp: CalucalteTotalAmount_def)
  have "(of_nat (length (co_Items m)) :: rat) \<le> 20"
    using assms(1) by (simp add: of_nat_le_iff [of _ 20, simplified])
  then have "(of_nat (length (co_Items m)) :: rat) * 2 powi (- 34) \<le> 20 * 2 powi (- 34)"
    by (intro mult_right_mono) simp_all
  also have "\<dots> < (1 / 10 ^ 8 :: rat)" by (simp add: power_int_minus)
  finally show ?thesis using t e by (auto intro: le_less_trans)
qed

text \<open>
  C19. For an order of at most twenty items with quantities 1 to 10 and prices of whole cents between 0.01
  and 999.99, each the float64 nearest to its decimal value, the total computed in float64
  arithmetic is finite and differs from the exact total by less than a millionth of a cent. Validation
  itself also accepts prices that are not whole cents.
\<close>

theorem CalucalteTotalAmount_accurate:
  assumes "length (co_Items m) \<le> 20" "\<forall>it \<in> set (co_Items m). cent_item cs it"
  shows "\<exists>t. co_TotalAmount (CalucalteTotalAmount m) = Fin t
    \<and> \<bar>t - of_int (exact_cents cs (co_Items m)) / 100\<bar> < 1 / 10 ^ 8"
  using assms by (rule CalucalteTotalAmount_bound)

definition example_cents :: "CreateOrderItem \<Rightarrow> int" where
  "example_cents it = (if ci_Name it = ''Margherita'' then 1250 else 825)"

lemma example_prices: "fl (25 / 2) = Fin (25 / 2)" "fl (33 / 4) = Fin (33 / 4)"
  using fl_dyadic [of 25 1] fl_dyadic [of 33 2] by simp_all

lemma example_cent_items:
  "\<forall>it \<in> set (co_Items example_order). cent_item example_cents it"
  "exact_cents example_cents (co_Items example_order) = 4975"
  "length (co_Items example_order) = 2"
  using example_prices by (simp_all add: example_order_def cent_item_def example_cents_def)

theorem CalucalteTotalAmount_accurate_witness:
  "length (co_Items example_order) \<le> 20 \<and> (\<exists>t. co_TotalAmount (CalucalteTotalAmount example_order) = Fin t
    \<and> \<bar>t - 4975 / 100\<bar> < 1 / 10 ^ 8)"
  using CalucalteTotalAmount_accurate [of example_order example_cents] example_cent_items by simp

section \<open>Priorities\<close>

text \<open>
  C28. For an order of at most twenty items with quantities 1 to 10 and prices of whole cents between 0.01
  and 999.99, each the float64 nearest to its decimal value, the priority is the one the exact decimal
  total asks for, unless that total is exactly 50 or exactly 100 dollars: 10 above 100
  dollars, 5 between 50 and 100 dollars, 1 below 50 dollars.
\<close>

theorem CalculatePriority_exact:
  assumes "length (co_Items m) \<le> 20" "\<forall>it \<in> set (co_Items m). cent_item cs it"
    and "exact_cents cs (co_Items m) = e" "e \<noteq> 10000" "e \<noteq> 5000"
  shows "co_Priority (CalculatePriority (CalucalteTotalAmount m)) =
    (if e > 10000 then 10 else if e > 5000 then 5 else 1)"
proof -
  obtain t where t: "co_TotalAmount (CalucalteTotalAmount m) = Fin t"
    and a: "\<bar>t - of_int e / 100\<bar> < 1 / 10 ^ 8"
    using CalucalteTotalAmount_bound [OF assms(1,2)] assms(3) by blast
  have a': "\<bar>t - of_int e / 100\<bar> < 1 / 100000000" using a by simp
  have above: "of_int (n div 100) < t" if "n < e" "n mod 100 = 0" for n
  proof -
    have "(of_int (n + 1) :: rat) \<le> of_int e" using that(1) unfolding of_int_le_iff by simp
    moreover have "(of_int n :: rat) = 100 * of_int (n div 100)"
      using that(2) by (metis add.right_neutral mult_div_mod_eq of_int_mult of_int_numeral)
    ultimately show ?thesis using a' unfolding of_int_add of_int_1 by arith
  qed
  have below: "t < of_int (n div 100)" if "e < n" "n mod 100 = 0" for n
  proof -
    have "(of_int e :: rat) \<le> of_int (n - 1)" using that(1) unfolding of_int_le_iff by simp
    moreover have "(of_int n :: rat) = 100 * of_int (n div 100)"
      using that(2) by (metis add.right_neutral mult_div_mod_eq of_int_mult of_int_numeral)
    ultimately show ?thesis using a' unfolding of_int_diff of_int_1 by arith
  qed
  consider "e > 10000" | "5000 < e" "e < 10000" | "e < 5000" using assms(4,5) by linarith
  then show ?thesis using above [of 10000] above [of 5000] below [of 10000] below [of 5000] t
    by cases (simp_all add: CalculatePriority_def)
qed

theorem CalculatePriority_exact_witness:
  "exact_cents example_cents (co_Items example_order) = 4975
   \<and> co_Priority (CalculatePriority (CalucalteTotalAmount example_order)) = 1"
  using CalculatePriority_exact [of example_order example_cents 4975] example_cent_items by simp

text \<open>
  An order of 1 x 0.20 and 5 x 19.96: exactly 100 dollars, and 100.00000000000001 in
  float64 arithmetic.
\<close>

definition boundary_order :: CreateOrder where
  "boundary_order = example_order\<lparr>co_Items :=
     [\<lparr>ci_Name = ''Sauce'', ci_Quantity = 1, ci_Price = fl (20 / 100)\<rparr>,
      \<lparr>ci_Name = ''Pizza'', ci_Quantity = 5, ci_Price = fl (1996 / 100)\<rparr>]\<rparr>"

definition boundary_cents :: "CreateOrderItem \<Rightarrow> int" where
  "boundary_cents it = (if ci_Name it = ''Sauce'' then 20 else 1996)"

lemma boundary_fl:
  "fl (1 / 5) = Fin (7205759403792794 / 2 ^ 55)"
  "fl (499 / 25) = Fin (5618240535144694 / 2 ^ 48)"
  "fl (7205759403792794 / 2 ^ 55) = Fin (7205759403792794 / 2 ^ 55)"
  "fl (5618240535144694 / 2 ^ 48 * 5) = Fin (7022800668930868 / 2 ^ 46)"
  "fl (7205759403792794 / 2 ^ 55 + 7022800668930868 / 2 ^ 46) = Fin (7036874417766401 / 2 ^ 46)"
  using fl_eqI [of "- 3" "1 / 5" 7205759403792794] fl_eqI [of 4 "499 / 25" 5618240535144694]
    fl_dyadic [of 7205759403792794 55]
    fl_eqI [of 6 "5618240535144694 / 2 ^ 48 * 5" 7022800668930868]
    fl_eqI [of 6 "7205759403792794 / 2 ^ 55 + 7022800668930868 / 2 ^ 46" 7036874417766401]
  by (simp_all add: power_int_minus rounds_to_def)

text \<open>
  At the boundary the rounding shows: an order whose exact total is 100 dollars, which
  is not greater than 100 dollars, gets priority 10 instead of 5.
\<close>

theorem CalculatePriority_boundary:
  "list_all (cent_item boundary_cents) (co_Items boundary_order)
   \<and> exact_cents boundary_cents (co_Items boundary_order) = 10000
   \<and> co_Priority (CalculatePriority (CalucalteTotalAmount boundary_order)) = 10"
proof (intro conjI)
  show "list_all (cent_item boundary_cents) (co_Items boundary_order)"
    by (simp add: boundary_order_def boundary_cents_def cent_item_def)
  show "exact_cents boundary_cents (co_Items boundary_order) = 10000"
    by (simp add: boundary_order_def boundary_cents_def)
  have q: "float_of_int 1 = Fin 1" "float_of_int 5 = Fin 5"
    using float_of_int_exact [of 1] float_of_int_exact [of 5] by simp_all
  show "co_Priority (CalculatePriority (CalucalteTotalAmount boundary_order)) = 10"
    using boundary_fl q
    by (simp add: boundary_order_def CalculatePriority_def CalucalteTotalAmount_def item_amount_def)
qed

end
