(* ===== verification/Json.thy ===== *)
theory Json
  imports Domain
begin

text \<open>
  The part of \<^verbatim>\<open>encoding/json\<close> the program relies on, at the level of parsed values: a
  message body is the JSON value it spells, or \<^const>\<open>None\<close> when it is not well-formed JSON.
  Numbers written as integers are \<open>JInt\<close>, the others \<open>JDec\<close>; strings that spell an RFC 3339
  instant for a time field are \<open>JTime\<close>. Decoding an object into a struct goes through the
  members in order, finds the field by its exact name or else up to case folding, ignores or
  rejects unknown members, leaves a field alone on \<^verbatim>\<open>null\<close> (a pointer becomes nil), and
  reports the first type error after having decoded the rest.
\<close>

datatype json =
    JNull | JBool bool | JInt int | JDec rat | JStr string | JTime instant
  | JArr "json list" | JObj "(string \<times> json) list"

definition upper_char :: "char \<Rightarrow> char" where
  "upper_char c = (let n = of_char c :: nat in if 97 \<le> n \<and> n \<le> 122 then char_of (n - 32) else c)"

text \<open>
  Case folding of member names. The Kelvin sign and the long s fold to K and S.
\<close>

fun fold_name :: "string \<Rightarrow> string" where
  "fold_name [] = []"
| "fold_name (c # cs) =
     (if of_char c = (197::nat) \<and> take 1 cs = bytes [191] then CHR ''S'' # fold_name (drop 1 cs)
      else if of_char c = (226::nat) \<and> take 2 cs = bytes [132, 170] then CHR ''K'' # fold_name (drop 2 cs)
      else upper_char c # fold_name cs)"

definition field_for :: "string list \<Rightarrow> string \<Rightarrow> string option" where
  "field_for names key =
     (if List.member names key then Some key
      else find (\<lambda>f. fold_name f = fold_name key) names)"

type_synonym 's decoding = "'s \<times> err option"

definition type_error :: "string \<Rightarrow> err" where
  "type_error field = Opaque (''json: cannot unmarshal into Go struct field '' @ field)"

definition first_error :: "err option \<Rightarrow> err \<Rightarrow> err option" where
  "first_error prev e = (case prev of None \<Rightarrow> Some e | Some e0 \<Rightarrow> Some e0)"

definition mismatch :: "string \<Rightarrow> 's decoding \<Rightarrow> 's decoding" where
  "mismatch field d = (fst d, first_error (snd d) (type_error field))"

definition put :: "('a \<Rightarrow> 's \<Rightarrow> 's) \<Rightarrow> 'a \<Rightarrow> 's decoding \<Rightarrow> 's decoding" where
  "put upd x d = (upd x (fst d), snd d)"

definition dec_string :: "string \<Rightarrow> (string \<Rightarrow> 's \<Rightarrow> 's) \<Rightarrow> json \<Rightarrow> 's decoding \<Rightarrow> 's decoding" where
  "dec_string field upd v d = (case v of JNull \<Rightarrow> d | JStr x \<Rightarrow> put upd x d | _ \<Rightarrow> mismatch field d)"

definition int64_range :: "int \<Rightarrow> bool" where
  "int64_range n \<longleftrightarrow> - (2 ^ 63) \<le> n \<and> n < 2 ^ 63"

definition dec_int :: "string \<Rightarrow> (int \<Rightarrow> 's \<Rightarrow> 's) \<Rightarrow> json \<Rightarrow> 's decoding \<Rightarrow> 's decoding" where
  "dec_int field upd v d =
     (case v of JNull \<Rightarrow> d
      | JInt n \<Rightarrow> if int64_range n then put upd n d else mismatch field d
      | _ \<Rightarrow> mismatch field d)"

definition dec_float_value :: "string \<Rightarrow> (float64 \<Rightarrow> 's \<Rightarrow> 's) \<Rightarrow> rat \<Rightarrow> 's decoding \<Rightarrow> 's decoding" where
  "dec_float_value field upd q d =
     (case fl q of Fin r \<Rightarrow> put upd (Fin r) d | _ \<Rightarrow> mismatch field d)"

definition dec_float :: "string \<Rightarrow> (float64 \<Rightarrow> 's \<Rightarrow> 's) \<Rightarrow> json \<Rightarrow> 's decoding \<Rightarrow> 's decoding" where
  "dec_float field upd v d =
     (case v of JNull \<Rightarrow> d
      | JInt n \<Rightarrow> dec_float_value field upd (of_int n) d
      | JDec q \<Rightarrow> dec_float_value field upd q d
      | _ \<Rightarrow> mismatch field d)"

definition dec_time :: "string \<Rightarrow> (instant \<Rightarrow> 's \<Rightarrow> 's) \<Rightarrow> json \<Rightarrow> 's decoding \<Rightarrow> 's decoding" where
  "dec_time field upd v d = (case v of JNull \<Rightarrow> d | JTime t \<Rightarrow> put upd t d | _ \<Rightarrow> mismatch field d)"

text \<open>Pointer names: \<^verbatim>\<open>null\<close> sets nil, anything else allocates and decodes the target.\<close>

definition dec_ptr_int :: "string \<Rightarrow> (int option \<Rightarrow> 's \<Rightarrow> 's) \<Rightarrow> json \<Rightarrow> 's decoding \<Rightarrow> 's decoding" where
  "dec_ptr_int field upd v d =
     (if v = JNull then put upd None d else dec_int field (\<lambda>n. upd (Some n)) v (put upd (Some 0) d))"

definition dec_ptr_string :: "string \<Rightarrow> (string option \<Rightarrow> 's \<Rightarrow> 's) \<Rightarrow> json \<Rightarrow> 's decoding \<Rightarrow> 's decoding" where
  "dec_ptr_string field upd v d =
     (if v = JNull then put upd None d else dec_string field (\<lambda>x. upd (Some x)) v (put upd (Some []) d))"

text \<open>
  One struct: \<open>names\<close> are its member names, \<open>setter\<close> decodes one member, \<open>strict\<close> is the
  decoder's \<^verbatim>\<open>DisallowUnknownFields\<close>.
\<close>

definition unknown_field :: "string \<Rightarrow> err" where
  "unknown_field key = Opaque (''json: unknown field '' @ [CHR 0x22] @ key @ [CHR 0x22])"

definition dec_member ::
  "bool \<Rightarrow> string list \<Rightarrow> (string \<Rightarrow> json \<Rightarrow> 's decoding \<Rightarrow> 's decoding)
    \<Rightarrow> string \<times> json \<Rightarrow> 's decoding \<Rightarrow> 's decoding" where
  "dec_member strict names setter m d =
     (case field_for names (fst m) of
        None \<Rightarrow> if strict then (fst d, first_error (snd d) (unknown_field (fst m))) else d
      | Some f \<Rightarrow> setter f (snd m) d)"

definition dec_struct ::
  "bool \<Rightarrow> string list \<Rightarrow> (string \<Rightarrow> json \<Rightarrow> 's decoding \<Rightarrow> 's decoding)
    \<Rightarrow> json \<Rightarrow> 's decoding \<Rightarrow> 's decoding" where
  "dec_struct strict names setter v d =
     (case v of JNull \<Rightarrow> d
      | JObj ms \<Rightarrow> fold (dec_member strict names setter) ms d
      | _ \<Rightarrow> mismatch [] d)"

text \<open>A slice of structs: every element is decoded into a fresh zero value.\<close>

definition dec_slice ::
  "string \<Rightarrow> ('e list \<Rightarrow> 's \<Rightarrow> 's) \<Rightarrow> 'e \<Rightarrow> (json \<Rightarrow> 'e decoding \<Rightarrow> 'e decoding)
    \<Rightarrow> json \<Rightarrow> 's decoding \<Rightarrow> 's decoding" where
  "dec_slice field upd zero elem v d =
     (case v of JNull \<Rightarrow> put upd [] d
      | JArr vs \<Rightarrow>
          (let (xs, e) = foldl (\<lambda>(xs, e) v. case elem v (zero, e) of (x, e') \<Rightarrow> (xs @ [x], e'))
                           ([], snd d) vs
           in (upd xs (fst d), e))
      | _ \<Rightarrow> mismatch field d)"

definition decoded :: "'s decoding \<Rightarrow> 's result" where
  "decoded d = (case snd d of None \<Rightarrow> Inr (fst d) | Some e \<Rightarrow> Inl e)"

section \<open>Encoding\<close>

fun enc_float :: "float64 \<Rightarrow> json option" where
  "enc_float (Fin q) = Some (JDec q)"
| "enc_float _ = None"

text \<open>A float64 value is a fixed point of rounding; every result of arithmetic is one.\<close>

definition is_float64 :: "rat \<Rightarrow> bool" where
  "is_float64 q \<longleftrightarrow> fl q = Fin q"

fun go_float :: "float64 \<Rightarrow> bool" where
  "go_float (Fin q) = is_float64 q"
| "go_float _ = False"

lemma go_floatE: "go_float x \<Longrightarrow> (\<And>q. x = Fin q \<Longrightarrow> is_float64 q \<Longrightarrow> P) \<Longrightarrow> P"
  by (cases x) auto

lemma dec_float_JDec [simp]: "is_float64 q \<Longrightarrow> dec_float f upd (JDec q) d = put upd (Fin q) d"
  by (simp add: dec_float_def dec_float_value_def is_float64_def)

lemma dec_string_JStr [simp]: "dec_string f upd (JStr x) d = put upd x d"
  by (simp add: dec_string_def)

lemma dec_int_JInt [simp]: "int64_range n \<Longrightarrow> dec_int f upd (JInt n) d = put upd n d"
  by (simp add: dec_int_def)

lemma dec_time_JTime [simp]: "dec_time f upd (JTime t) d = put upd t d"
  by (simp add: dec_time_def)

lemma dec_ptr_int_JInt [simp]:
  "int64_range n \<Longrightarrow> dec_ptr_int f upd (JInt n) d = put upd (Some n) (put upd (Some 0) d)"
  by (simp add: dec_ptr_int_def put_def)

lemma dec_ptr_string_JStr [simp]:
  "dec_ptr_string f upd (JStr x) d = put upd (Some x) (put upd (Some []) d)"
  by (simp add: dec_ptr_string_def put_def)

lemma field_for_known [simp]: "f \<in> set names \<Longrightarrow> field_for names f = Some f"
  by (simp add: field_for_def)

lemma dec_member_known [simp]:
  "f \<in> set names \<Longrightarrow> dec_member strict names setter (f, v) d = setter f v d"
  by (simp add: dec_member_def)

lemma dec_struct_JObj [simp]:
  "dec_struct strict names setter (JObj ms) d = fold (dec_member strict names setter) ms d"
  by (simp add: dec_struct_def)

lemma dec_slice_enc:
  assumes "\<And>x e. x \<in> set xs \<Longrightarrow> elem (enc x) (zero, e) = (x, e)"
  shows "dec_slice f upd zero elem (JArr (map enc xs)) d = (upd xs (fst d), snd d)"
proof -
  have "set ys \<subseteq> set xs \<Longrightarrow>
    foldl (\<lambda>(xs, e) v. case elem v (zero, e) of (x, e') \<Rightarrow> (xs @ [x], e')) (acc, e) (map enc ys)
      = (acc @ ys, e)" for acc e ys
    by (induction ys arbitrary: acc) (auto simp: assms)
  then show ?thesis by (simp add: dec_slice_def)
qed

end
