(* ===== verification/Rabbit_Dto.thy ===== *)
theory Rabbit_Dto
  imports Json
begin

text \<open>
  \<^verbatim>\<open>internal/adapter/rabbit/dto.go\<close>: the order message, its JSON form and the conversions
  between it and the internal order. A nil pointer is \<^const>\<open>None\<close>; the request id of a
  context is the optional string stored under the request-id key.
\<close>

record OrderItemMsg =
  im_Name :: string
  im_Quantity :: int
  im_Price :: float64

record OrderMsg =
  om_OrderNumber :: string
  om_CustomerName :: string
  om_OrderType :: string
  om_TableNumber :: "int option"
  om_DeliveryAddress :: "string option"
  om_Items :: "OrderItemMsg list"
  om_TotalAmount :: float64
  om_Priority :: int
  om_RequestID :: string

definition ctx_request_id :: "string option \<Rightarrow> string" where
  "ctx_request_id ctx = (case ctx of None \<Rightarrow> [] | Some r \<Rightarrow> r)"

definition FromInternalToPublishOrder :: "string option \<Rightarrow> CreateOrder option \<Rightarrow> OrderMsg option" where
  "FromInternalToPublishOrder ctx mp =
     (case mp of None \<Rightarrow> None
      | Some m \<Rightarrow> Some
          \<lparr>om_OrderNumber = co_Number m, om_CustomerName = co_CustomerName m,
           om_OrderType = co_Type m, om_TableNumber = co_TableNumber m,
           om_DeliveryAddress = co_DeliveryAddress m,
           om_Items = map (\<lambda>i. \<lparr>im_Name = ci_Name i, im_Quantity = ci_Quantity i,
                                 im_Price = ci_Price i\<rparr>) (co_Items m),
           om_TotalAmount = co_TotalAmount m, om_Priority = co_Priority m,
           om_RequestID = ctx_request_id ctx\<rparr>)"

definition FromPublishToInternalOrder :: "OrderMsg option \<Rightarrow> CreateOrder option" where
  "FromPublishToInternalOrder mp =
     (case mp of None \<Rightarrow> None
      | Some m \<Rightarrow> Some
          \<lparr>co_Number = om_OrderNumber m, co_CustomerName = om_CustomerName m,
           co_Type = om_OrderType m,
           co_Items = map (\<lambda>i. \<lparr>ci_Name = im_Name i, ci_Quantity = im_Quantity i,
                                 ci_Price = im_Price i\<rparr>) (om_Items m),
           co_TableNumber = om_TableNumber m, co_DeliveryAddress = om_DeliveryAddress m,
           co_TotalAmount = om_TotalAmount m, co_Priority = om_Priority m, co_Status = []\<rparr>)"

section \<open>JSON form\<close>

definition marshal_item :: "OrderItemMsg \<Rightarrow> json option" where
  "marshal_item i =
     (case enc_float (im_Price i) of None \<Rightarrow> None
      | Some p \<Rightarrow> Some (JObj [(''name'', JStr (im_Name i)), (''quantity'', JInt (im_Quantity i)),
                               (''price'', p)]))"

text \<open>\<^verbatim>\<open>omitempty\<close>: a nil pointer and an empty request id leave no member.\<close>

definition omit_nil :: "string \<Rightarrow> ('a \<Rightarrow> json) \<Rightarrow> 'a option \<Rightarrow> (string \<times> json) list" where
  "omit_nil key enc x = (case x of None \<Rightarrow> [] | Some y \<Rightarrow> [(key, enc y)])"

definition omit_empty :: "string \<Rightarrow> string \<Rightarrow> (string \<times> json) list" where
  "omit_empty key s = (if s = [] then [] else [(key, JStr s)])"

definition marshal_order :: "OrderMsg \<Rightarrow> json option" where
  "marshal_order m =
     (case (those (map marshal_item (om_Items m)), enc_float (om_TotalAmount m)) of
        (Some items, Some amount) \<Rightarrow> Some (JObj
          ([(''order_number'', JStr (om_OrderNumber m)),
            (''customer_name'', JStr (om_CustomerName m)),
            (''order_type'', JStr (om_OrderType m))]
           @ omit_nil ''table_number'' JInt (om_TableNumber m)
           @ omit_nil ''delivery_address'' JStr (om_DeliveryAddress m)
           @ [(''items'', JArr items), (''total_amount'', amount), (''priority'', JInt (om_Priority m))]
           @ omit_empty ''request_id'' (om_RequestID m)))
      | _ \<Rightarrow> None)"

definition zero_item :: OrderItemMsg where
  "zero_item = \<lparr>im_Name = [], im_Quantity = 0, im_Price = Fin 0\<rparr>"

definition zero_order :: OrderMsg where
  "zero_order = \<lparr>om_OrderNumber = [], om_CustomerName = [], om_OrderType = [],
     om_TableNumber = None, om_DeliveryAddress = None, om_Items = [],
     om_TotalAmount = Fin 0, om_Priority = 0, om_RequestID = []\<rparr>"

definition item_names :: "string list" where
  "item_names = [''name'', ''quantity'', ''price'']"

definition item_setter :: "string \<Rightarrow> json \<Rightarrow> OrderItemMsg decoding \<Rightarrow> OrderItemMsg decoding" where
  "item_setter f =
     (if f = ''name'' then dec_string f (\<lambda>x s. s\<lparr>im_Name := x\<rparr>)
      else if f = ''quantity'' then dec_int f (\<lambda>x s. s\<lparr>im_Quantity := x\<rparr>)
      else dec_float f (\<lambda>x s. s\<lparr>im_Price := x\<rparr>))"

definition order_names :: "string list" where
  "order_names = [''order_number'', ''customer_name'', ''order_type'', ''table_number'',
     ''delivery_address'', ''items'', ''total_amount'', ''priority'', ''request_id'']"

definition order_setter :: "string \<Rightarrow> json \<Rightarrow> OrderMsg decoding \<Rightarrow> OrderMsg decoding" where
  "order_setter f =
     (if f = ''order_number'' then dec_string f (\<lambda>x s. s\<lparr>om_OrderNumber := x\<rparr>)
      else if f = ''customer_name'' then dec_string f (\<lambda>x s. s\<lparr>om_CustomerName := x\<rparr>)
      else if f = ''order_type'' then dec_string f (\<lambda>x s. s\<lparr>om_OrderType := x\<rparr>)
      else if f = ''table_number'' then dec_ptr_int f (\<lambda>x s. s\<lparr>om_TableNumber := x\<rparr>)
      else if f = ''delivery_address'' then dec_ptr_string f (\<lambda>x s. s\<lparr>om_DeliveryAddress := x\<rparr>)
      else if f = ''items'' then
        dec_slice f (\<lambda>x s. s\<lparr>om_Items := x\<rparr>) zero_item (dec_struct False item_names item_setter)
      else if f = ''total_amount'' then dec_float f (\<lambda>x s. s\<lparr>om_TotalAmount := x\<rparr>)
      else if f = ''priority'' then dec_int f (\<lambda>x s. s\<lparr>om_Priority := x\<rparr>)
      else dec_string f (\<lambda>x s. s\<lparr>om_RequestID := x\<rparr>))"

text \<open>\<open>syntax_error\<close> stands for the parser's error on a malformed body.\<close>

definition syntax_error :: err where
  "syntax_error = Opaque ''json: syntax error''"

definition ToInternalOrder :: "json option \<Rightarrow> OrderMsg result" where
  "ToInternalOrder body =
     (case body of None \<Rightarrow> Inl syntax_error
      | Some v \<Rightarrow> decoded (dec_struct False order_names order_setter v (zero_order, None)))"

section \<open>Round trip\<close>

text \<open>The values a Go struct of these types can hold: int64 integers and finite float64s.\<close>

definition go_item :: "OrderItemMsg \<Rightarrow> bool" where
  "go_item i \<longleftrightarrow> int64_range (im_Quantity i) \<and> go_float (im_Price i)"

definition go_order :: "OrderMsg \<Rightarrow> bool" where
  "go_order m \<longleftrightarrow> pred_option int64_range (om_TableNumber m) \<and> int64_range (om_Priority m)
     \<and> (\<forall>i \<in> set (om_Items m). go_item i) \<and> go_float (om_TotalAmount m)"

definition item_json :: "OrderItemMsg \<Rightarrow> json" where
  "item_json i = the (marshal_item i)"

lemma marshal_item_go: "go_item i \<Longrightarrow> marshal_item i = Some (item_json i)"
  by (auto simp: go_item_def marshal_item_def item_json_def elim: go_floatE)

lemma those_marshal_items:
  "\<forall>i \<in> set its. go_item i \<Longrightarrow> those (map marshal_item its) = Some (map item_json its)"
  by (induction its) (simp_all add: marshal_item_go)

lemma decode_item:
  "go_item i \<Longrightarrow> dec_struct False item_names item_setter (item_json i) (zero_item, e) = (i, e)"
  by (auto simp: go_item_def item_json_def marshal_item_def item_names_def item_setter_def put_def
      zero_item_def elim: go_floatE)

lemma decode_items:
  "\<forall>i \<in> set its. go_item i \<Longrightarrow>
     dec_slice f upd zero_item (dec_struct False item_names item_setter) (JArr (map item_json its)) d
       = (upd its (fst d), snd d)"
  by (rule dec_slice_enc) (simp add: decode_item)

lemma ToInternalOrder_marshal:
  assumes "go_order m"
  shows "\<exists>v. marshal_order m = Some v \<and> ToInternalOrder (Some v) = Inr m"
proof -
  obtain q where q: "om_TotalAmount m = Fin q" "is_float64 q"
    using assms by (auto simp: go_order_def elim: go_floatE)
  have its: "\<forall>i \<in> set (om_Items m). go_item i" and pr: "int64_range (om_Priority m)"
    and tb: "\<And>n. om_TableNumber m = Some n \<Longrightarrow> int64_range n"
    using assms by (auto simp: go_order_def)
  have mem: "set [''order_number'', ''customer_name'', ''order_type'', ''table_number'',
     ''delivery_address'', ''items'', ''total_amount'', ''priority'', ''request_id''] \<subseteq> set order_names"
    by (simp add: order_names_def)
  show ?thesis
    using q pr tb mem those_marshal_items [OF its]
    by (cases "om_TableNumber m"; cases "om_DeliveryAddress m"; cases "om_RequestID m = []")
      (simp_all add: marshal_order_def ToInternalOrder_def omit_nil_def omit_empty_def order_setter_def
        decode_items [OF its] put_def decoded_def zero_order_def)
qed


lemma example_floats: "is_float64 (25 / 2)" "is_float64 (33 / 4)" "is_float64 0"
  using example_prices by (simp_all add: is_float64_def fl_def)


end
