(* ===== verification/World.thy ===== *)
theory World
  imports Rabbit_Dto
begin

text \<open>
  The world the services act on. PostgreSQL is represented by the tables of the
  repository's migrations, the AMQP connection by the commands the program sent to the
  broker, in order, and whether the connection is closed. How the outside reacts is a
  script: every call that leaves the process consumes one event, which says whether the
  call fails, with its error, and how much time it took. A failing call may still have had
  its effect (\<open>FailApplied\<close>: the reply was lost). An exhausted script means no more faults.
  A cancelled context makes every further call on it fail with the context's error.
\<close>

section \<open>Tables\<close>

text \<open>Amounts in \<^verbatim>\<open>decimal(p,2)\<close> columns are whole cents.\<close>

record order_row =
  o_id :: int
  o_created_at :: instant
  o_updated_at :: instant
  o_number :: string
  o_customer_name :: string
  o_type :: string
  o_table_number :: "int option"
  o_delivery_address :: "string option"
  o_total_amount :: int
  o_priority :: int
  o_status :: string
  o_processed_by :: "string option"
  o_completed_at :: "instant option"

record item_row =
  i_id :: int
  i_created_at :: instant
  i_order_id :: int
  i_name :: string
  i_quantity :: int
  i_price :: int

record log_row =
  l_id :: int
  l_created_at :: instant
  l_order_id :: int
  l_status :: string
  l_changed_by :: string
  l_changed_at :: instant
  l_notes :: string

record worker_row =
  w_id :: int
  w_created_at :: instant
  w_name :: string
  w_type :: string
  w_status :: string
  w_last_seen :: instant
  w_orders_processed :: int

record sequence_row =
  s_last_value :: int
  s_created_at :: instant
  s_updated_at :: instant

text \<open>\<open>next_*\<close> are the serial columns' sequences, which a rollback does not reset.\<close>

record database =
  orders :: "order_row list"
  order_items :: "item_row list"
  order_status_log :: "log_row list"
  workers :: "worker_row list"
  order_sequences :: "string \<rightharpoonup> sequence_row"
  next_order :: int
  next_item :: int
  next_log :: int
  next_worker :: int

definition empty_db :: database where
  "empty_db = \<lparr>orders = [], order_items = [], order_status_log = [], workers = [],
     order_sequences = Map.empty, next_order = 1, next_item = 1, next_log = 1, next_worker = 1\<rparr>"

section \<open>AMQP\<close>

record publishing =
  p_ContentType :: string
  p_DeliveryMode :: nat
  p_Priority :: "8 word"
  p_Timestamp :: instant
  p_Body :: json

datatype amqp_cmd =
    ExchangeDeclare string string
  | QueueDeclare string "(string \<times> string) list"
  | QueueBind string string string
  | Publish string string publishing
  | Qos int
  | Consume string
  | Ack nat
  | Nack nat bool
  | QueueDelete string

section \<open>Events and the world\<close>

datatype fault = NoFault | Fail err | FailApplied err

record event =
  ev_fault :: fault
  ev_dt :: nat

record world =
  db :: database
  amqp :: "amqp_cmd list"
  conn_closed :: bool
  ctx_err :: "err option"
  clock :: instant
  script :: "event list"

definition start_world :: "event list \<Rightarrow> world" where
  "start_world es = \<lparr>db = empty_db, amqp = [], conn_closed = False, ctx_err = None, clock = 0,
     script = es\<rparr>"

text \<open>
  One call that leaves the process: \<open>raw_call\<close> for the calls that take no context (dialling
  and commands on an AMQP channel), \<open>call\<close> for those that fail once the context is done.
\<close>

definition raw_call :: "world \<Rightarrow> fault \<times> world" where
  "raw_call w =
     (case script w of
        [] \<Rightarrow> (NoFault, w)
      | e # es \<Rightarrow> (ev_fault e, w\<lparr>script := es, clock := clock w + int (ev_dt e)\<rparr>))"

definition call :: "world \<Rightarrow> fault \<times> world" where
  "call w = (case ctx_err w of Some e \<Rightarrow> (Fail e, w) | None \<Rightarrow> raw_call w)"

text \<open>A command on the AMQP channel.\<close>

definition channel_send :: "amqp_cmd \<Rightarrow> world \<Rightarrow> err option \<times> world" where
  "channel_send c w =
     (case raw_call w of
        (NoFault, w') \<Rightarrow> (None, w'\<lparr>amqp := amqp w' @ [c]\<rparr>)
      | (Fail e, w') \<Rightarrow> (Some e, w')
      | (FailApplied e, w') \<Rightarrow> (Some e, w'\<lparr>amqp := amqp w' @ [c]\<rparr>))"

text \<open>\<^verbatim>\<open>time.Sleep\<close>, and a select between \<^verbatim>\<open>time.After\<close> and \<^verbatim>\<open>ctx.Done\<close>: a fault event is the cancellation.\<close>

definition sleep :: "duration \<Rightarrow> world \<Rightarrow> world" where
  "sleep d w = w\<lparr>clock := clock w + max 0 d\<rparr>"

definition wait_or_done :: "duration \<Rightarrow> world \<Rightarrow> err option \<times> world" where
  "wait_or_done d w =
     (case ctx_err w of
        Some e \<Rightarrow> (Some e, w)
      | None \<Rightarrow>
          (case call w of
             (NoFault, w') \<Rightarrow> (None, sleep d w')
           | (Fail e, w') \<Rightarrow> (Some e, w'\<lparr>ctx_err := Some e\<rparr>)
           | (FailApplied e, w') \<Rightarrow> (Some e, w'\<lparr>ctx_err := Some e\<rparr>)))"

lemma raw_call_frame [frame_simps]:
  "db (snd (raw_call w)) = db w" "amqp (snd (raw_call w)) = amqp w"
  "conn_closed (snd (raw_call w)) = conn_closed w" "ctx_err (snd (raw_call w)) = ctx_err w"
  by (auto simp: raw_call_def split: list.splits)

lemma raw_call_eqD:
  assumes "raw_call w = (f, w')"
  shows "db w' = db w" "amqp w' = amqp w" "conn_closed w' = conn_closed w" "ctx_err w' = ctx_err w"
    "clock w \<le> clock w'"
  using raw_call_frame [of w] assms by (auto simp: raw_call_def split: list.splits)

lemma channel_send_eqD:
  assumes "channel_send c w = (r, w')"
  shows "db w' = db w" "conn_closed w' = conn_closed w" "ctx_err w' = ctx_err w"
    "r = None \<Longrightarrow> amqp w' = amqp w @ [c]" "amqp w' = amqp w \<or> amqp w' = amqp w @ [c]"
  using assms
  by (auto simp: channel_send_def split: prod.splits fault.splits dest: raw_call_eqD)

lemma call_frame [frame_simps]:
  "db (snd (call w)) = db w" "amqp (snd (call w)) = amqp w"
  "conn_closed (snd (call w)) = conn_closed w" "ctx_err (snd (call w)) = ctx_err w"
  by (auto simp: call_def frame_simps split: option.splits)

lemma call_eqD:
  assumes "call w = (f, w')"
  shows "db w' = db w" "amqp w' = amqp w" "conn_closed w' = conn_closed w" "ctx_err w' = ctx_err w"
  using call_frame [of w] assms by simp_all

lemma call_clock: "call w = (f, w') \<Longrightarrow> clock w \<le> clock w'"
  by (auto simp: call_def split: option.splits dest: raw_call_eqD)

lemma wait_frame [frame_simps]:
  "db (snd (wait_or_done d w)) = db w" "amqp (snd (wait_or_done d w)) = amqp w"
  by (auto simp: wait_or_done_def sleep_def split: option.splits fault.splits prod.splits
      dest: call_eqD)

text \<open>A quiet world: no fault is scripted and the context is live.\<close>

definition quiet :: "world \<Rightarrow> bool" where
  "quiet w \<longleftrightarrow> ctx_err w = None \<and> list_all (\<lambda>e. ev_fault e = NoFault) (script w)"

lemma quiet_raw_call: "quiet w \<Longrightarrow> \<exists>w'. raw_call w = (NoFault, w') \<and> quiet w'"
  by (cases "script w") (auto simp: quiet_def raw_call_def)

lemma quiet_call: "quiet w \<Longrightarrow> \<exists>w'. call w = (NoFault, w') \<and> quiet w'"
  using quiet_raw_call [of w] by (simp add: call_def quiet_def)

lemma quiet_channel_send:
  "quiet w \<Longrightarrow> \<exists>w'. channel_send c w = (None, w') \<and> quiet w'"
  using quiet_raw_call [of w] by (auto simp: channel_send_def quiet_def)

lemma quiet_update [simp]:
  "quiet (w\<lparr>db := d\<rparr>) = quiet w" "quiet (w\<lparr>amqp := a\<rparr>) = quiet w" "quiet (w\<lparr>conn_closed := b\<rparr>) = quiet w"
  by (simp_all add: quiet_def)

lemma quiet_sleep [simp]: "quiet (sleep d w) = quiet w"
  by (simp add: quiet_def sleep_def)

lemma quiet_wait: "quiet w \<Longrightarrow> \<exists>w'. wait_or_done d w = (None, w') \<and> quiet w'"
proof -
  assume q: "quiet w"
  then obtain w1 where "call w = (NoFault, w1)" "quiet w1" using quiet_call by blast
  moreover have "ctx_err w = None" using q by (simp add: quiet_def)
  ultimately show ?thesis by (simp add: wait_or_done_def)
qed

end
