(* ===== verification/Database.thy ===== *)
theory Database
  imports World
begin

text \<open>
  \<^verbatim>\<open>internal/adapter/postgres\<close>: the repositories over the tables of the migrations. A
  transaction works on a copy of the database that \<open>commit\<close> installs and \<open>rollback\<close>
  discards (the serial sequences keep their progress). \<^verbatim>\<open>now()\<close> inside a transaction is the
  instant at which it began. The statements are the SQL of the sources; what the migrations
  constrain (the order types, the unique numbers and names, integer and decimal ranges) is
  checked by the insertions. The conversion between float64 and decimal belongs to the
  database driver and is a parameter, \<open>pg_codec\<close>; so is the order in which a query
  without \<^verbatim>\<open>ORDER BY\<close> returns its rows.
\<close>

record pg_codec =
  to_cents :: "float64 \<Rightarrow> int option"
  of_cents :: "int \<Rightarrow> float64"

definition pgx_ErrNoRows :: err where
  "pgx_ErrNoRows = Sentinel ''pgx.ErrNoRows'' ''no rows in result set''"

section \<open>Transactions\<close>

type_synonym tx = "world \<times> database"

definition begin_tx :: "world \<Rightarrow> (err \<times> world) + tx" where
  "begin_tx w =
     (case call w of
        (NoFault, w') \<Rightarrow> Inr (w', db w')
      | (Fail e, w') \<Rightarrow> Inl (e, w')
      | (FailApplied e, w') \<Rightarrow> Inl (e, w'))"

definition stmt :: "(database \<Rightarrow> 'a result \<times> database) \<Rightarrow> tx \<Rightarrow> 'a result \<times> tx" where
  "stmt f t =
     (case call (fst t) of
        (NoFault, w') \<Rightarrow> (fst (f (snd t)), (w', snd (f (snd t))))
      | (Fail e, w') \<Rightarrow> (Inl e, (w', snd t))
      | (FailApplied e, w') \<Rightarrow> (Inl e, (w', snd (f (snd t)))))"

definition rollback :: "tx \<Rightarrow> world" where
  "rollback t = (fst t)\<lparr>db := (db (fst t))\<lparr>next_order := next_order (snd t),
     next_item := next_item (snd t), next_log := next_log (snd t),
     next_worker := next_worker (snd t)\<rparr>\<rparr>"

definition commit :: "tx \<Rightarrow> err option \<times> world" where
  "commit t =
     (case call (fst t) of
        (NoFault, w') \<Rightarrow> (None, w'\<lparr>db := snd t\<rparr>)
      | (Fail e, w') \<Rightarrow> (Some e, rollback (w', snd t))
      | (FailApplied e, w') \<Rightarrow> (Some e, w'\<lparr>db := snd t\<rparr>))"

text \<open>A single statement outside a transaction commits by itself.\<close>

definition exec_auto :: "(database \<Rightarrow> 'a result \<times> database) \<Rightarrow> world \<Rightarrow> 'a result \<times> world" where
  "exec_auto f w =
     (case call w of
        (NoFault, w') \<Rightarrow> (fst (f (db w')), w'\<lparr>db := snd (f (db w'))\<rparr>)
      | (Fail e, w') \<Rightarrow> (Inl e, w')
      | (FailApplied e, w') \<Rightarrow> (Inl e, w'\<lparr>db := snd (f (db w'))\<rparr>))"

section \<open>Statements\<close>

definition int4 :: "int \<Rightarrow> bool" where
  "int4 n \<longleftrightarrow> - (2 ^ 31) \<le> n \<and> n < 2 ^ 31"

text \<open>
  A statement whose arguments hold text of a client: the server refuses text that is not UTF-8 or has a byte 0
  before it runs the statement.
\<close>

definition with_text :: "string list \<Rightarrow> (database \<Rightarrow> 'a result \<times> database) \<Rightarrow> database \<Rightarrow> 'a result \<times> database" where
  "with_text ts f d =
     (if list_all pg_text ts then f d else (Inl (Opaque ''invalid byte sequence for encoding''), d))"

text \<open>A \<^verbatim>\<open>decimal(p,2)\<close> column holds fewer than \<open>p\<close> digits in all.\<close>

definition decimal_column :: "pg_codec \<Rightarrow> nat \<Rightarrow> float64 \<Rightarrow> int option" where
  "decimal_column pg p x =
     (case to_cents pg x of None \<Rightarrow> None | Some c \<Rightarrow> if \<bar>c\<bar> < 10 ^ p then Some c else None)"

definition new_order_row :: "instant \<Rightarrow> CreateOrder \<Rightarrow> int \<Rightarrow> int \<Rightarrow> order_row" where
  "new_order_row now req ident cents =
     \<lparr>o_id = ident, o_created_at = now, o_updated_at = now, o_number = co_Number req,
      o_customer_name = co_CustomerName req, o_type = co_Type req,
      o_table_number = co_TableNumber req, o_delivery_address = co_DeliveryAddress req,
      o_total_amount = cents, o_priority = co_Priority req, o_status = co_Status req,
      o_processed_by = None, o_completed_at = None\<rparr>"

definition insert_order :: "pg_codec \<Rightarrow> instant \<Rightarrow> CreateOrder \<Rightarrow> database \<Rightarrow> order_row result \<times> database" where
  "insert_order pg now req =
     with_text ([co_Number req, co_CustomerName req, co_Type req, co_Status req]
                @ (case co_DeliveryAddress req of None \<Rightarrow> [] | Some a \<Rightarrow> [a]))
     (\<lambda>d. let d' = d\<lparr>next_order := next_order d + 1\<rparr> in
      case decimal_column pg 10 (co_TotalAmount req) of
        None \<Rightarrow> (Inl (Opaque ''numeric field overflow''), d')
      | Some cents \<Rightarrow>
          if \<not> (int4 (co_Priority req) \<and> pred_option int4 (co_TableNumber req))
          then (Inl (Opaque ''integer out of range''), d')
          else if \<not> List.member [''dine_in'', ''takeout'', ''delivery''] (co_Type req)
          then (Inl (Opaque ''violates check constraint orders_type_check''), d')
          else if List.member (map o_number (orders d)) (co_Number req)
          then (Inl (Opaque ''duplicate key value violates unique constraint orders_number_key''), d')
          else (let row = new_order_row now req (next_order d) cents
                in (Inr row, d'\<lparr>orders := orders d @ [row]\<rparr>)))"

definition insert_item :: "pg_codec \<Rightarrow> instant \<Rightarrow> int \<Rightarrow> CreateOrderItem \<Rightarrow> database \<Rightarrow> unit result \<times> database" where
  "insert_item pg now oid item =
     with_text [ci_Name item]
     (\<lambda>d. let d' = d\<lparr>next_item := next_item d + 1\<rparr> in
      case decimal_column pg 8 (ci_Price item) of
        None \<Rightarrow> (Inl (Opaque ''numeric field overflow''), d')
      | Some cents \<Rightarrow>
          if \<not> int4 (ci_Quantity item) then (Inl (Opaque ''integer out of range''), d')
          else (Inr (), d'\<lparr>order_items := order_items d @
                  [\<lparr>i_id = next_item d, i_created_at = now, i_order_id = oid, i_name = ci_Name item,
                    i_quantity = ci_Quantity item, i_price = cents\<rparr>]\<rparr>))"

definition insert_log :: "instant \<Rightarrow> int \<Rightarrow> string \<Rightarrow> string \<Rightarrow> string \<Rightarrow> database \<Rightarrow> unit result \<times> database" where
  "insert_log now oid status changedBy notes d =
     (Inr (), d\<lparr>next_log := next_log d + 1,
        order_status_log := order_status_log d @
          [\<lparr>l_id = next_log d, l_created_at = now, l_order_id = oid, l_status = status,
            l_changed_by = changedBy, l_changed_at = now, l_notes = notes\<rparr>]\<rparr>)"

definition upsert_sequence :: "instant \<Rightarrow> string \<Rightarrow> database \<Rightarrow> int result \<times> database" where
  "upsert_sequence now date d =
     (case order_sequences d date of
        None \<Rightarrow> (Inr 1, d\<lparr>order_sequences := (order_sequences d)(date \<mapsto>
                   \<lparr>s_last_value = 1, s_created_at = now, s_updated_at = now\<rparr>)\<rparr>)
      | Some r \<Rightarrow>
          if \<not> int4 (s_last_value r + 1) then (Inl (Opaque ''integer out of range''), d)
          else (Inr (s_last_value r + 1), d\<lparr>order_sequences := (order_sequences d)(date \<mapsto>
                   r\<lparr>s_last_value := s_last_value r + 1, s_updated_at := now\<rparr>)\<rparr>))"

definition find_order :: "database \<Rightarrow> string \<Rightarrow> order_row option" where
  "find_order d number = find (\<lambda>r. o_number r = number) (orders d)"

definition set_row_status :: "instant \<Rightarrow> string \<Rightarrow> string \<Rightarrow> order_row \<Rightarrow> order_row" where
  "set_row_status now workerName status r =
     r\<lparr>o_status := status, o_processed_by := Some workerName, o_updated_at := now,
       o_completed_at := (if status = StatusOrderReady then Some now else o_completed_at r)\<rparr>"

definition update_status :: "instant \<Rightarrow> string \<Rightarrow> string \<Rightarrow> string \<Rightarrow> database \<Rightarrow> (string \<times> int) result \<times> database" where
  "update_status now orderNumber workerName status =
     with_text [orderNumber]
     (\<lambda>d. case find_order d orderNumber of
        None \<Rightarrow> (Inl pgx_ErrNoRows, d)
      | Some old \<Rightarrow>
          (Inr (o_status old, o_id old),
           d\<lparr>orders := map (\<lambda>r. if o_number r = orderNumber
                                 then set_row_status now workerName status r else r) (orders d)\<rparr>))"

section \<open>orderRepository\<close>

fun insert_items :: "pg_codec \<Rightarrow> instant \<Rightarrow> int \<Rightarrow> CreateOrderItem list \<Rightarrow> tx \<Rightarrow> err option \<times> tx" where
  "insert_items pg now oid [] t = (None, t)"
| "insert_items pg now oid (item # items) t =
     (case stmt (insert_item pg now oid item) t of
        (Inl e, t') \<Rightarrow> (Some e, t')
      | (Inr _, t') \<Rightarrow> insert_items pg now oid items t')"

definition scan_order :: "pg_codec \<Rightarrow> order_row \<Rightarrow> Order" where
  "scan_order pg r =
     \<lparr>or_ID = o_id r, or_CreatedAt = o_created_at r, or_UpdatedAt = o_updated_at r,
      or_Number = o_number r, or_CustomerName = o_customer_name r, or_Type = o_type r,
      or_TableNumber = o_table_number r, or_DeliveryAddress = o_delivery_address r,
      or_TotalAmount = of_cents pg (o_total_amount r), or_Priority = o_priority r,
      or_Status = o_status r, or_ProcessedBy = o_processed_by r, or_CompletedAt = o_completed_at r\<rparr>"

definition Create :: "pg_codec \<Rightarrow> CreateOrder \<Rightarrow> string \<Rightarrow> string \<Rightarrow> world \<Rightarrow> Order result \<times> world" where
  "Create pg req changedBy notes w =
     (case begin_tx w of
        Inl (e, w1) \<Rightarrow> (Inl (errorf_w ''failed to begin transaction: '' e), w1)
      | Inr t0 \<Rightarrow>
          (let now = clock (fst t0) in
           case stmt (insert_order pg now req) t0 of
             (Inl e, t1) \<Rightarrow> (Inl (errorf_w ''failed to create order: '' e), rollback t1)
           | (Inr row, t1) \<Rightarrow>
               (case insert_items pg now (o_id row) (co_Items req) t1 of
                  (Some e, t2) \<Rightarrow> (Inl (errorf_w ''failed to create order item: '' e), rollback t2)
                | (None, t2) \<Rightarrow>
                    (case stmt (insert_log now (o_id row) StatusOrderReceived changedBy notes) t2 of
                       (Inl e, t3) \<Rightarrow>
                         (Inl (errorf_w ''failed to log initial order status: '' e), rollback t3)
                     | (Inr _, t3) \<Rightarrow>
                         (case commit t3 of
                            (Some e, w4) \<Rightarrow> (Inl (errorf_w ''failed to commit transaction: '' e), w4)
                          | (None, w4) \<Rightarrow> (Inr (scan_order pg row), w4))))))"

definition GetAndIncrementSequence :: "string \<Rightarrow> world \<Rightarrow> int result \<times> world" where
  "GetAndIncrementSequence date w =
     (case begin_tx w of
        Inl (e, w1) \<Rightarrow> (Inl (errorf_w ''failed to begin transaction: '' e), w1)
      | Inr t0 \<Rightarrow>
          (case stmt (upsert_sequence (clock (fst t0)) date) t0 of
             (Inl e, t1) \<Rightarrow> (Inl (errorf_w ''failed to get/increment sequence: '' e), rollback t1)
           | (Inr v, t1) \<Rightarrow>
               (case commit t1 of
                  (Some e, w2) \<Rightarrow> (Inl (errorf_w ''failed to commit transaction: '' e), w2)
                | (None, w2) \<Rightarrow> (Inr v, w2))))"

definition set_status_op :: string where
  "set_status_op = ''orderRepository.SetStatus: ''"

definition not_found_or :: "err \<Rightarrow> err" where
  "not_found_or e = (if e = pgx_ErrNoRows then ErrOrderNotFound else errorf_v set_status_op e)"

definition SetStatus :: "string \<Rightarrow> string \<Rightarrow> string \<Rightarrow> string \<Rightarrow> world \<Rightarrow> string result \<times> world" where
  "SetStatus orderNumber workerName status notes w =
     (case begin_tx w of
        Inl (e, w1) \<Rightarrow> (Inl (errorf_v set_status_op e), w1)
      | Inr t0 \<Rightarrow>
          (let now = clock (fst t0) in
           case stmt (update_status now orderNumber workerName status) t0 of
             (Inl e, t1) \<Rightarrow> (Inl (not_found_or e), rollback t1)
           | (Inr (oldStatus, orderID), t1) \<Rightarrow>
               (case stmt (insert_log now orderID status workerName notes) t1 of
                  (Inl e, t2) \<Rightarrow> (Inl (not_found_or e), rollback t2)
                | (Inr _, t2) \<Rightarrow>
                    (case commit t2 of
                       (Some e, w3) \<Rightarrow> (Inl e, w3)
                     | (None, w3) \<Rightarrow> (Inr oldStatus, w3)))))"

section \<open>What a transaction can do\<close>

definition progress :: "database \<Rightarrow> database \<Rightarrow> bool" where
  "progress d d' \<longleftrightarrow> next_order d \<le> next_order d' \<and> next_item d \<le> next_item d'
     \<and> next_log d \<le> next_log d' \<and> next_worker d \<le> next_worker d'"

definition same_tables :: "database \<Rightarrow> database \<Rightarrow> bool" where
  "same_tables d d' \<longleftrightarrow> orders d' = orders d \<and> order_items d' = order_items d
     \<and> order_status_log d' = order_status_log d \<and> workers d' = workers d
     \<and> order_sequences d' = order_sequences d \<and> progress d d'"

lemma progress_refl [simp]: "progress d d"
  by (simp add: progress_def)

lemma progress_trans: "progress a b \<Longrightarrow> progress b c \<Longrightarrow> progress a c"
  by (simp add: progress_def)

lemma same_tables_refl [simp]: "same_tables d d"
  by (simp add: same_tables_def)

lemma begin_tx_InrD: "begin_tx w = Inr t \<Longrightarrow> db (fst t) = db w \<and> snd t = db w \<and> clock w \<le> clock (fst t)"
  by (auto simp: begin_tx_def split: prod.splits fault.splits dest: call_eqD call_clock)

lemma begin_tx_InlD: "begin_tx w = Inl (e, w') \<Longrightarrow> db w' = db w"
  by (auto simp: begin_tx_def split: prod.splits fault.splits dest: call_eqD)

lemma stmt_frame: "stmt f t = (r, t') \<Longrightarrow> db (fst t') = db (fst t)"
  by (auto simp: stmt_def split: prod.splits fault.splits dest: call_eqD)

lemma stmt_ok: "stmt f t = (Inr x, t') \<Longrightarrow> f (snd t) = (Inr x, snd t')"
  by (cases "f (snd t)") (auto simp: stmt_def split: prod.splits fault.splits)

lemma stmt_progress:
  "stmt f t = (r, t') \<Longrightarrow> (\<And>d. progress d (snd (f d))) \<Longrightarrow> progress (snd t) (snd t')"
  by (auto simp: stmt_def split: prod.splits fault.splits)

lemma rollback_same_tables: "progress (db (fst t)) (snd t) \<Longrightarrow> same_tables (db (fst t)) (db (rollback t))"
  by (simp add: rollback_def same_tables_def progress_def)

lemma commit_None: "commit t = (None, w') \<Longrightarrow> db w' = snd t"
  by (auto simp: commit_def split: prod.splits fault.splits)

lemma commit_Some:
  assumes "commit t = (Some e, w')" "progress (db (fst t)) (snd t)"
  shows "same_tables (db (fst t)) (db w') \<or> db w' = snd t"
proof -
  obtain f w1 where c: "call (fst t) = (f, w1)" by (cases "call (fst t)")
  have "db w1 = db (fst t)" using call_eqD [OF c] by simp
  with assms c rollback_same_tables [of "(w1, snd t)"] show ?thesis
    by (cases f) (auto simp: commit_def)
qed

lemma statement_progress:
  "progress d (snd (insert_order pg now req d))"
  "progress d (snd (insert_item pg now oid it d))"
  "progress d (snd (insert_log now oid st by nt d))"
  "progress d (snd (upsert_sequence now date d))"
  "progress d (snd (update_status now n wn st d))"
  by (auto simp: progress_def insert_order_def insert_item_def insert_log_def upsert_sequence_def
      update_status_def with_text_def Let_def split: option.splits)

lemma insert_items_frame: "insert_items pg now oid its t = (r, t') \<Longrightarrow> db (fst t') = db (fst t)"
  by (induction its arbitrary: t) (auto split: prod.splits sum.splits dest: stmt_frame)

lemma insert_items_progress:
  "insert_items pg now oid its t = (r, t') \<Longrightarrow> progress (snd t) (snd t')"
proof (induction its arbitrary: t)
  case Nil
  then show ?case by simp
next
  case (Cons it its)
  obtain r1 t1 where s: "stmt (insert_item pg now oid it) t = (r1, t1)" by (metis surj_pair)
  have "progress (snd t) (snd t1)" using s by (rule stmt_progress) (rule statement_progress)
  moreover have "r1 = Inr x \<Longrightarrow> progress (snd t1) (snd t')" for x
    using Cons.prems s by (intro Cons.IH [of t1]) simp
  ultimately show ?case using Cons.prems s by (cases r1) (auto intro: progress_trans)
qed

text \<open>The rows an item and a whole order leave behind.\<close>

definition item_stored :: "pg_codec \<Rightarrow> int \<Rightarrow> item_row \<Rightarrow> CreateOrderItem \<Rightarrow> bool" where
  "item_stored pg oid row it \<longleftrightarrow> i_order_id row = oid \<and> i_name row = ci_Name it
     \<and> i_quantity row = ci_Quantity it \<and> to_cents pg (ci_Price it) = Some (i_price row)"

text \<open>\<open>items_added d d' rows\<close>: only the item table grew, by \<open>rows\<close>.\<close>

definition items_added :: "database \<Rightarrow> database \<Rightarrow> item_row list \<Rightarrow> bool" where
  "items_added d d' rows \<longleftrightarrow> order_items d' = order_items d @ rows \<and> orders d' = orders d
     \<and> order_status_log d' = order_status_log d \<and> workers d' = workers d
     \<and> order_sequences d' = order_sequences d \<and> next_order d' = next_order d"

lemma insert_item_ok:
  "insert_item pg now oid it d = (Inr x, d') \<Longrightarrow> \<exists>row. items_added d d' [row] \<and> item_stored pg oid row it"
  by (auto simp: insert_item_def with_text_def items_added_def item_stored_def decimal_column_def Let_def
      split: option.splits if_splits)

lemma insert_items_ok:
  "insert_items pg now oid its t = (None, t') \<Longrightarrow>
     \<exists>rows. items_added (snd t) (snd t') rows \<and> list_all2 (item_stored pg oid) rows its"
proof (induction its arbitrary: t)
  case Nil
  then show ?case by (simp add: items_added_def)
next
  case (Cons it its)
  then obtain x t1 where s: "stmt (insert_item pg now oid it) t = (Inr x, t1)"
    and rest: "insert_items pg now oid its t1 = (None, t')"
    by (auto split: prod.splits sum.splits)
  obtain row where "items_added (snd t) (snd t1) [row]" "item_stored pg oid row it"
    using insert_item_ok [OF stmt_ok [OF s]] by blast
  moreover obtain rows where "items_added (snd t1) (snd t') rows" "list_all2 (item_stored pg oid) rows its"
    using Cons.IH [OF rest] by blast
  ultimately show ?case by (intro exI [of _ "row # rows"]) (simp add: items_added_def)
qed

definition order_created ::
  "pg_codec \<Rightarrow> CreateOrder \<Rightarrow> string \<Rightarrow> string \<Rightarrow> instant \<Rightarrow> order_row \<Rightarrow> database \<Rightarrow> database \<Rightarrow> bool" where
  "order_created pg req changedBy notes now row d d' \<longleftrightarrow>
     (\<exists>cents items ident. to_cents pg (co_TotalAmount req) = Some cents
        \<and> row = new_order_row now req (next_order d) cents
        \<and> pg_text (co_Number req) \<and> co_Number req \<notin> set (map o_number (orders d))
        \<and> List.member [''dine_in'', ''takeout'', ''delivery''] (co_Type req)
        \<and> orders d' = orders d @ [row]
        \<and> order_items d' = order_items d @ items \<and> list_all2 (item_stored pg (o_id row)) items (co_Items req)
        \<and> order_status_log d' = order_status_log d @
            [\<lparr>l_id = ident, l_created_at = now, l_order_id = o_id row, l_status = StatusOrderReceived,
              l_changed_by = changedBy, l_changed_at = now, l_notes = notes\<rparr>]
        \<and> workers d' = workers d \<and> order_sequences d' = order_sequences d
        \<and> next_order d' = next_order d + 1 \<and> progress d d')"

lemma insert_order_ok:
  assumes "insert_order pg now req d = (Inr row, d')"
  shows "\<exists>cents. to_cents pg (co_TotalAmount req) = Some cents
    \<and> row = new_order_row now req (next_order d) cents \<and> pg_text (co_Number req)
    \<and> co_Number req \<notin> set (map o_number (orders d))
    \<and> List.member [''dine_in'', ''takeout'', ''delivery''] (co_Type req)
    \<and> d' = d\<lparr>orders := orders d @ [row], next_order := next_order d + 1\<rparr>"
  using assms
  by (auto simp: insert_order_def with_text_def decimal_column_def Let_def split: option.splits if_splits)

lemma transaction_created:
  assumes "stmt (insert_order pg now req) t0 = (Inr row, t1)"
    and "insert_items pg now (o_id row) (co_Items req) t1 = (None, t2)"
    and "stmt (insert_log now (o_id row) StatusOrderReceived changedBy notes) t2 = (Inr u, t3)"
  shows "order_created pg req changedBy notes now row (snd t0) (snd t3)"
proof -
  obtain cents where c: "to_cents pg (co_TotalAmount req) = Some cents"
    "row = new_order_row now req (next_order (snd t0)) cents" "pg_text (co_Number req)" "co_Number req \<notin> set (map o_number (orders (snd t0)))"
    "List.member [''dine_in'', ''takeout'', ''delivery''] (co_Type req)"
    "snd t1 = (snd t0)\<lparr>orders := orders (snd t0) @ [row], next_order := next_order (snd t0) + 1\<rparr>"
    using insert_order_ok [OF stmt_ok [OF assms(1)]] by blast
  obtain rows where r: "items_added (snd t1) (snd t2) rows"
    "list_all2 (item_stored pg (o_id row)) rows (co_Items req)"
    using insert_items_ok [OF assms(2)] by blast
  have l: "snd t3 = snd (insert_log now (o_id row) StatusOrderReceived changedBy notes (snd t2))"
    using stmt_ok [OF assms(3)] by simp
  have "progress (snd t0) (snd t3)"
    using stmt_progress [OF assms(1)] insert_items_progress [OF assms(2)] stmt_progress [OF assms(3)]
      statement_progress progress_trans by metis
  with c r l show ?thesis
    unfolding order_created_def
    by (intro exI [of _ cents] exI [of _ rows] exI [of _ "next_log (snd t2)"])
      (simp add: insert_log_def items_added_def)
qed

text \<open>The outcome of \<^verbatim>\<open>Create\<close>, for every behaviour of the database.\<close>

lemma Create_outcome:
  assumes "Create pg req changedBy notes w = (res, w')"
  shows "case res of
      Inr ord \<Rightarrow> (\<exists>now row. clock w \<le> now \<and> ord = scan_order pg row
                  \<and> order_created pg req changedBy notes now row (db w) (db w'))
    | Inl e \<Rightarrow> same_tables (db w) (db w')
                \<or> (\<exists>now row. clock w \<le> now \<and> order_created pg req changedBy notes now row (db w) (db w'))"
proof (cases "begin_tx w")
  case (Inl p)
  with assms show ?thesis by (cases p) (auto simp: Create_def dest: begin_tx_InlD)
next
  case (Inr t0)
  note t0 = begin_tx_InrD [OF Inr]
  define now where "now = clock (fst t0)"
  obtain r1 t1 where s1: "stmt (insert_order pg now req) t0 = (r1, t1)" by (metis surj_pair)
  have f1: "db (fst t1) = db w" "progress (db w) (snd t1)"
    using stmt_frame [OF s1] stmt_progress [OF s1 statement_progress(1)] t0 by simp_all
  show ?thesis
  proof (cases r1)
    case (Inl e)
    with assms Inr s1 f1 rollback_same_tables [of t1] show ?thesis
      by (auto simp: Create_def Let_def now_def)
  next
    case (Inr row)
    obtain r2 t2 where s2: "insert_items pg now (o_id row) (co_Items req) t1 = (r2, t2)" by (metis surj_pair)
    have f2: "db (fst t2) = db w" "progress (db w) (snd t2)"
      using insert_items_frame [OF s2] insert_items_progress [OF s2] f1 progress_trans by auto
    obtain r3 t3 where s3: "stmt (insert_log now (o_id row) StatusOrderReceived changedBy notes) t2 = (r3, t3)"
      by (metis surj_pair)
    have f3: "db (fst t3) = db w" "progress (db w) (snd t3)"
      using stmt_frame [OF s3] stmt_progress [OF s3 statement_progress(3)] f2 progress_trans by auto
    obtain r4 w4 where s4: "commit t3 = (r4, w4)" by (metis surj_pair)
    have made: "r2 = None \<Longrightarrow> r3 = Inr u \<Longrightarrow> order_created pg req changedBy notes now row (db w) (snd t3)" for u
      using transaction_created [of pg now req t0 row t1] s1 s2 s3 Inr t0 by simp
    have now: "clock w \<le> now" using t0 by (simp add: now_def)
    note steps = assms \<open>begin_tx w = Inr t0\<close> s1 [unfolded now_def] s2 [unfolded now_def]
      s3 [unfolded now_def] s4 Inr
    consider e where "r2 = Some e" | e where "r2 = None" "r3 = Inl e"
      | u e where "r2 = None" "r3 = Inr u" "r4 = Some e" | u where "r2 = None" "r3 = Inr u" "r4 = None"
      by (cases r2; cases r3; cases r4) blast+
    then show ?thesis
    proof cases
      case 1
      with steps have "res = Inl (errorf_w ''failed to create order item: '' e) \<and> w' = rollback t2"
        by (simp add: Create_def)
      with f2 rollback_same_tables [of t2] show ?thesis by simp
    next
      case 2
      with steps have "res = Inl (errorf_w ''failed to log initial order status: '' e) \<and> w' = rollback t3"
        by (simp add: Create_def)
      with f3 rollback_same_tables [of t3] show ?thesis by simp
    next
      case 3
      with steps have "res = Inl (errorf_w ''failed to commit transaction: '' e) \<and> w' = w4"
        by (simp add: Create_def)
      with 3 f3 commit_Some [of t3 e w4] s4 made [of u] now show ?thesis by auto
    next
      case 4
      with steps have "res = Inr (scan_order pg row) \<and> w' = w4" by (simp add: Create_def)
      with 4 commit_None [of t3 w4] s4 made [of u] now show ?thesis by auto
    qed
  qed
qed

end
