(* ===== verification/Order_Store.thy ===== *)
theory Order_Store
  imports Database
begin

text \<open>
  The contract of the order repository. An order is known by its number; a client sees its
  current status and the list of statuses its log has recorded. \<open>wf_db\<close> is the invariant of
  the tables, in particular that the status of an order is the last one logged for it.
  The locales \<open>order_store\<close> and \<open>order_intake\<close> state what the kitchen worker and the order
  service rely on; they are interpreted on the repository of the theory Database.
\<close>

section \<open>Views of the tables\<close>

definition logs_of :: "database \<Rightarrow> int \<Rightarrow> log_row list" where
  "logs_of d oid = filter (\<lambda>l. l_order_id l = oid) (order_status_log d)"

definition order_status :: "database \<Rightarrow> string \<Rightarrow> string option" where
  "order_status d number = map_option o_status (find_order d number)"

definition order_history :: "database \<Rightarrow> string \<Rightarrow> string list" where
  "order_history d number =
     (case find_order d number of None \<Rightarrow> [] | Some r \<Rightarrow> map l_status (logs_of d (o_id r)))"

definition wf_db :: "database \<Rightarrow> bool" where
  "wf_db d \<longleftrightarrow>
     distinct (map o_id (orders d)) \<and> distinct (map o_number (orders d))
     \<and> (\<forall>r \<in> set (orders d). o_id r < next_order d \<and> pg_text (o_number r))
     \<and> (\<forall>l \<in> set (order_status_log d). l_order_id l \<in> set (map o_id (orders d)))
     \<and> (\<forall>i \<in> set (order_items d). i_order_id i \<in> set (map o_id (orders d)))
     \<and> (\<forall>r \<in> set (orders d). logs_of d (o_id r) \<noteq> [] \<and> l_status (last (logs_of d (o_id r))) = o_status r)
     \<and> distinct (map w_name (workers d))"

lemma wf_empty_db [simp]: "wf_db empty_db"
  by (simp add: wf_db_def empty_db_def)

section \<open>Effects on the views\<close>

lemma find_order_SomeD: "find_order d n = Some r \<Longrightarrow> r \<in> set (orders d) \<and> o_number r = n"
  by (auto simp: find_order_def find_Some_iff)

lemma find_order_same: "orders d' = orders d \<Longrightarrow> find_order d' = find_order d"
  by (simp add: find_order_def fun_eq_iff)

lemma same_tables_views:
  assumes "same_tables d d'"
  shows "order_status d' = order_status d" "order_history d' = order_history d"
    "wf_db d \<Longrightarrow> wf_db d'"
proof -
  have o: "orders d' = orders d" and l: "order_status_log d' = order_status_log d"
    using assms by (simp_all add: same_tables_def)
  show "order_status d' = order_status d" "order_history d' = order_history d"
    using find_order_same [OF o] l
    by (auto simp: order_status_def order_history_def logs_of_def fun_eq_iff split: option.split)
  show "wf_db d \<Longrightarrow> wf_db d'"
    using assms by (fastforce simp: wf_db_def same_tables_def progress_def logs_of_def)
qed

lemma same_tables_trans: "same_tables a b \<Longrightarrow> same_tables b c \<Longrightarrow> same_tables a c"
  by (auto simp: same_tables_def intro: progress_trans)

lemma find_snoc:
  "find P (xs @ [x]) = (case find P xs of None \<Rightarrow> if P x then Some x else None | Some y \<Rightarrow> Some y)"
  by (induction xs) auto

lemma order_created_views:
  assumes c: "order_created pg req by notes now row d d'" and wf: "wf_db d"
    and st: "co_Status req = StatusOrderReceived"
  shows "order_status d (co_Number req) = None"
    "order_status d' = (order_status d)(co_Number req \<mapsto> StatusOrderReceived)"
    "order_history d' = (order_history d)(co_Number req := [StatusOrderReceived])"
    "wf_db d'"
proof -
  obtain cents items ident where row: "row = new_order_row now req (next_order d) cents"
    and new: "pg_text (co_Number req)" "co_Number req \<notin> set (map o_number (orders d))"
    and o: "orders d' = orders d @ [row]" and i: "order_items d' = order_items d @ items"
    and its: "list_all2 (item_stored pg (o_id row)) items (co_Items req)"
    and l: "order_status_log d' = order_status_log d @
            [\<lparr>l_id = ident, l_created_at = now, l_order_id = o_id row, l_status = StatusOrderReceived,
              l_changed_by = by, l_changed_at = now, l_notes = notes\<rparr>]"
    and r: "workers d' = workers d" "next_order d' = next_order d + 1"
    using c unfolding order_created_def by auto
  have rid: "o_id row = next_order d" "o_number row = co_Number req" "o_status row = StatusOrderReceived"
    using row st by (simp_all add: new_order_row_def)
  have none: "find_order d (co_Number req) = None"
    using new by (auto simp: find_order_def find_None_iff rev_image_eqI)
  then show "order_status d (co_Number req) = None" by (simp add: order_status_def)
  have fo: "find_order d' = (find_order d)(co_Number req \<mapsto> row)"
    using o none rid by (auto simp: find_order_def fun_eq_iff find_snoc split: option.split)
  then show "order_status d' = (order_status d)(co_Number req \<mapsto> StatusOrderReceived)"
    using rid by (auto simp: order_status_def fun_eq_iff)
  have lt: "x \<in> set (orders d) \<Longrightarrow> o_id x < next_order d" for x using wf by (auto simp: wf_db_def)
  have nolog: "logs_of d (next_order d) = []"
    using wf lt by (fastforce simp: logs_of_def wf_db_def filter_empty_conv)
  have lg: "logs_of d' oid = (if oid = next_order d then [last (order_status_log d')] else logs_of d oid)" for oid
    using l rid nolog by (auto simp: logs_of_def)
  have ls: "l_status (last (order_status_log d')) = StatusOrderReceived" using l by simp
  show "order_history d' = (order_history d)(co_Number req := [StatusOrderReceived])"
    using lt find_order_SomeD
    by (auto simp: order_history_def fo lg ls rid fun_eq_iff split: option.split) fastforce
  have itm: "\<forall>x \<in> set items. i_order_id x = next_order d"
    using its rid by (auto simp: list_all2_conv_all_nth in_set_conv_nth item_stored_def)
  show "wf_db d'"
    using wf o i l r rid new itm lt ls
    by (auto simp: wf_db_def lg dest!: lt)
qed

definition status_changed ::
  "string \<Rightarrow> string \<Rightarrow> string \<Rightarrow> string \<Rightarrow> instant \<Rightarrow> order_row \<Rightarrow> database \<Rightarrow> database \<Rightarrow> bool" where
  "status_changed number workerName status notes now old d d' \<longleftrightarrow>
     (\<exists>ident. find_order d number = Some old
        \<and> orders d' = map (\<lambda>r. if o_number r = number then set_row_status now workerName status r else r) (orders d)
        \<and> order_status_log d' = order_status_log d @
            [\<lparr>l_id = ident, l_created_at = now, l_order_id = o_id old, l_status = status,
              l_changed_by = workerName, l_changed_at = now, l_notes = notes\<rparr>]
        \<and> order_items d' = order_items d \<and> workers d' = workers d
        \<and> order_sequences d' = order_sequences d \<and> next_order d' = next_order d \<and> progress d d')"

lemma find_map_key:
  "(\<And>r. r \<in> set xs \<Longrightarrow> f (g r) = f r) \<Longrightarrow> find (\<lambda>r. f r = n) (map g xs) = map_option g (find (\<lambda>r. f r = n) xs)"
  by (induction xs) auto

lemma set_row_status_fields [simp]:
  "o_id (set_row_status now wn st r) = o_id r" "o_number (set_row_status now wn st r) = o_number r"
  "o_status (set_row_status now wn st r) = st"
  by (simp_all add: set_row_status_def)

lemma status_changed_views:
  assumes c: "status_changed n wn st nt now old d d'" and wf: "wf_db d"
  shows "order_status d n = Some (o_status old)"
    "order_status d' = (order_status d)(n \<mapsto> st)"
    "order_history d' = (order_history d)(n := order_history d n @ [st])"
    "wf_db d'"
proof -
  let ?g = "\<lambda>r. if o_number r = n then set_row_status now wn st r else r"
  obtain ident where f: "find_order d n = Some old" and o: "orders d' = map ?g (orders d)"
    and l: "order_status_log d' = order_status_log d @
            [\<lparr>l_id = ident, l_created_at = now, l_order_id = o_id old, l_status = st,
              l_changed_by = wn, l_changed_at = now, l_notes = nt\<rparr>]"
    and r: "order_items d' = order_items d" "workers d' = workers d" "next_order d' = next_order d"
    using c unfolding status_changed_def by auto
  have old: "old \<in> set (orders d)" "o_number old = n" using find_order_SomeD [OF f] by auto
  have fo: "find_order d' m = map_option ?g (find_order d m)" for m
    unfolding find_order_def o by (rule find_map_key) simp
  show "order_status d n = Some (o_status old)" using f by (simp add: order_status_def)
  show "order_status d' = (order_status d)(n \<mapsto> st)"
  proof
    fix m show "order_status d' m = ((order_status d)(n \<mapsto> st)) m"
      using f find_order_SomeD [of d m] old by (cases "find_order d m") (auto simp: order_status_def fo)
  qed
  have inj: "x \<in> set (orders d) \<Longrightarrow> o_id x = o_id old \<longleftrightarrow> x = old" for x
    using wf old by (auto simp: wf_db_def distinct_map dest: inj_onD)
  have injn: "x \<in> set (orders d) \<Longrightarrow> o_number x = n \<longleftrightarrow> x = old" for x
    using wf old by (auto simp: wf_db_def distinct_map dest: inj_onD)
  have lg: "logs_of d' oid = (if oid = o_id old then logs_of d oid @ [last (order_status_log d')] else logs_of d oid)" for oid
    using l by (simp add: logs_of_def)
  have ls: "l_status (last (order_status_log d')) = st" using l by simp
  show "order_history d' = (order_history d)(n := order_history d n @ [st])"
  proof
    fix m show "order_history d' m = ((order_history d)(n := order_history d n @ [st])) m"
      using f old inj find_order_SomeD [of d m]
      by (cases "find_order d m") (auto simp: order_history_def fo lg ls)
  qed
  have maps: "map o_id (orders d') = map o_id (orders d)" "map o_number (orders d') = map o_number (orders d)"
    by (simp_all add: o)
  have mem: "\<And>x. x \<in> set (orders d') \<Longrightarrow> \<exists>y \<in> set (orders d). x = ?g y" using o by auto
  have "\<forall>x \<in> set (orders d'). o_id x < next_order d' \<and> pg_text (o_number x) \<and> logs_of d' (o_id x) \<noteq> []
      \<and> l_status (last (logs_of d' (o_id x))) = o_status x"
  proof
    fix x assume "x \<in> set (orders d')"
    then obtain y where y: "y \<in> set (orders d)" "x = ?g y" using mem by blast
    have "logs_of d (o_id y) \<noteq> [] \<and> l_status (last (logs_of d (o_id y))) = o_status y \<and> o_id y < next_order d
        \<and> pg_text (o_number y)"
      using wf y(1) by (auto simp: wf_db_def)
    then show "o_id x < next_order d' \<and> pg_text (o_number x) \<and> logs_of d' (o_id x) \<noteq> [] \<and> l_status (last (logs_of d' (o_id x))) = o_status x"
      using y inj [OF y(1)] injn [OF y(1)] r(3) by (auto simp: lg ls)
  qed
  moreover have "\<forall>x \<in> set (order_status_log d'). l_order_id x \<in> set (map o_id (orders d'))"
    using wf l old maps(1) by (auto simp: wf_db_def simp del: set_map)
      (metis image_eqI list.set_map)
  ultimately show "wf_db d'"
    using wf r maps unfolding wf_db_def by auto
qed

section \<open>SetStatus\<close>

lemma transaction_status:
  assumes "stmt (update_status now n wn st) t0 = (Inr (old, oid), t1)"
    and "stmt (insert_log now oid st wn nt) t1 = (Inr u, t2)"
  shows "\<exists>row. o_status row = old \<and> status_changed n wn st nt now row (snd t0) (snd t2)"
proof -
  have 1: "update_status now n wn st (snd t0) = (Inr (old, oid), snd t1)" by (rule stmt_ok [OF assms(1)])
  then obtain row where f: "find_order (snd t0) n = Some row" and x: "old = o_status row" "oid = o_id row"
    and t1: "snd t1 = (snd t0)\<lparr>orders := map (\<lambda>r. if o_number r = n then set_row_status now wn st r else r)
      (orders (snd t0))\<rparr>"
    by (auto simp: update_status_def with_text_def split: option.splits if_splits)
  have 2: "snd t2 = snd (insert_log now oid st wn nt (snd t1))" using stmt_ok [OF assms(2)] by simp
  have "progress (snd t0) (snd t2)"
    using stmt_progress [OF assms(1)] stmt_progress [OF assms(2)] statement_progress progress_trans by metis
  with 2 f x t1 show ?thesis
    unfolding status_changed_def
    by (intro exI [of _ row] conjI exI [of _ "next_log (snd t1)"]) (simp_all add: insert_log_def)
qed

text \<open>The outcome of \<^verbatim>\<open>SetStatus\<close>, for every behaviour of the database.\<close>

lemma SetStatus_outcome:
  assumes "SetStatus n wn st nt w = (res, w')"
  shows "case res of
      Inr old \<Rightarrow> (\<exists>now row. o_status row = old \<and> status_changed n wn st nt now row (db w) (db w'))
    | Inl e \<Rightarrow> same_tables (db w) (db w') \<or> (\<exists>now row. status_changed n wn st nt now row (db w) (db w'))"
proof (cases "begin_tx w")
  case (Inl p)
  with assms show ?thesis by (cases p) (auto simp: SetStatus_def dest: begin_tx_InlD)
next
  case (Inr t0)
  note t0 = begin_tx_InrD [OF Inr]
  obtain r1 t1 where s1: "stmt (update_status (clock (fst t0)) n wn st) t0 = (r1, t1)" by (metis surj_pair)
  have f1: "db (fst t1) = db w" "progress (db w) (snd t1)"
    using stmt_frame [OF s1] stmt_progress [OF s1 statement_progress(5)] t0 by simp_all
  show ?thesis
  proof (cases r1)
    case (Inl e)
    with assms Inr s1 f1 rollback_same_tables [of t1] show ?thesis by (auto simp: SetStatus_def Let_def)
  next
    case (Inr x)
    obtain old oid where x: "x = (old, oid)" by (cases x)
    obtain r2 t2 where s2: "stmt (insert_log (clock (fst t0)) oid st wn nt) t1 = (r2, t2)" by (metis surj_pair)
    have f2: "db (fst t2) = db w" "progress (db w) (snd t2)"
      using stmt_frame [OF s2] stmt_progress [OF s2 statement_progress(3)] f1 progress_trans by auto
    obtain r3 w3 where s3: "commit t2 = (r3, w3)" by (metis surj_pair)
    have made: "r2 = Inr u \<Longrightarrow>
        \<exists>row. o_status row = old \<and> status_changed n wn st nt (clock (fst t0)) row (db w) (snd t2)" for u
      using transaction_status [of "clock (fst t0)" n wn st t0 old oid t1 nt u t2] s1 s2 Inr x t0 by simp
    note steps = assms \<open>begin_tx w = Inr t0\<close> s1 s2 s3 Inr x
    show ?thesis
    proof (cases r2)
      case (Inl e)
      with steps f2 rollback_same_tables [of t2] show ?thesis by (auto simp: SetStatus_def Let_def)
    next
      case (Inr u)
      with steps f2 made [OF Inr] commit_None [of t2 w3] commit_Some [of t2 _ w3] show ?thesis
        by (cases r3) (fastforce simp: SetStatus_def Let_def)+
    qed
  qed
qed

section \<open>The order number sequence\<close>

definition last_sequence :: "database \<Rightarrow> string \<Rightarrow> int" where
  "last_sequence d date = (case order_sequences d date of None \<Rightarrow> 0 | Some r \<Rightarrow> s_last_value r)"

definition sequence_moved :: "string \<Rightarrow> database \<Rightarrow> database \<Rightarrow> bool" where
  "sequence_moved date d d' \<longleftrightarrow>
     last_sequence d' = (last_sequence d)(date := last_sequence d date + 1)
     \<and> orders d' = orders d \<and> order_items d' = order_items d
     \<and> order_status_log d' = order_status_log d \<and> workers d' = workers d \<and> progress d d'"

lemma upsert_sequence_ok:
  "upsert_sequence now date d = (Inr v, d') \<Longrightarrow> v = last_sequence d date + 1 \<and> sequence_moved date d d'"
  by (auto simp: upsert_sequence_def sequence_moved_def last_sequence_def progress_def fun_eq_iff
      split: option.splits if_splits)

lemma GetAndIncrementSequence_outcome:
  assumes "GetAndIncrementSequence date w = (res, w')"
  shows "case res of
      Inr v \<Rightarrow> v = last_sequence (db w) date + 1 \<and> sequence_moved date (db w) (db w')
    | Inl e \<Rightarrow> same_tables (db w) (db w') \<or> sequence_moved date (db w) (db w')"
proof (cases "begin_tx w")
  case (Inl p)
  with assms show ?thesis by (cases p) (auto simp: GetAndIncrementSequence_def dest: begin_tx_InlD)
next
  case (Inr t0)
  note t0 = begin_tx_InrD [OF Inr]
  obtain r1 t1 where s1: "stmt (upsert_sequence (clock (fst t0)) date) t0 = (r1, t1)" by (metis surj_pair)
  have f1: "db (fst t1) = db w" "progress (db w) (snd t1)"
    using stmt_frame [OF s1] stmt_progress [OF s1 statement_progress(4)] t0 by simp_all
  obtain r2 w2 where s2: "commit t1 = (r2, w2)" by (metis surj_pair)
  note steps = assms Inr s1 s2 f1 t0
  show ?thesis
  proof (cases r1)
    case (Inl e)
    with steps rollback_same_tables [of t1] show ?thesis by (auto simp: GetAndIncrementSequence_def)
  next
    case (Inr v)
    with steps upsert_sequence_ok [of "clock (fst t0)" date "snd t0" v "snd t1"] stmt_ok [of _ t0 v t1]
      commit_None [of t1 w2] commit_Some [of t1 _ w2]
    show ?thesis by (cases r2) (auto simp: GetAndIncrementSequence_def)
  qed
qed

lemma sequence_moved_views:
  assumes "sequence_moved date d d'"
  shows "order_status d' = order_status d" "order_history d' = order_history d" "wf_db d \<Longrightarrow> wf_db d'"
proof -
  have o: "orders d' = orders d" and l: "order_status_log d' = order_status_log d"
    using assms by (simp_all add: sequence_moved_def)
  show "order_status d' = order_status d" "order_history d' = order_history d"
    using find_order_same [OF o] l
    by (auto simp: order_status_def order_history_def logs_of_def fun_eq_iff split: option.split)
  show "wf_db d \<Longrightarrow> wf_db d'"
    using assms by (fastforce simp: wf_db_def sequence_moved_def progress_def logs_of_def)
qed

lemma same_tables_sequence: "same_tables d d' \<Longrightarrow> last_sequence d' = last_sequence d"
  by (auto simp: same_tables_def last_sequence_def)

section \<open>What the repositories leave alone\<close>

definition db_only :: "world \<Rightarrow> world \<Rightarrow> bool" where
  "db_only w w' \<longleftrightarrow> amqp w' = amqp w \<and> conn_closed w' = conn_closed w \<and> ctx_err w' = ctx_err w
     \<and> clock w \<le> clock w'"

lemma db_only_refl [simp]: "db_only w w"
  by (simp add: db_only_def)

lemma db_only_trans: "db_only a b \<Longrightarrow> db_only b c \<Longrightarrow> db_only a c"
  by (simp add: db_only_def)

lemma db_only_call: "call w = (f, w') \<Longrightarrow> db_only w w'"
  using call_eqD call_clock by (simp add: db_only_def)

lemma db_only_update [simp]: "db_only w (w'\<lparr>db := d\<rparr>) = db_only w w'" "db_only w (rollback (w', d)) = db_only w w'"
  by (simp_all add: db_only_def rollback_def)

lemma db_only_rollback: "db_only w (fst t) \<Longrightarrow> db_only w (rollback t)"
  by (simp add: db_only_def rollback_def)

lemma db_only_begin_tx: "begin_tx w = Inr t \<Longrightarrow> db_only w (fst t)" "begin_tx w = Inl (e, w') \<Longrightarrow> db_only w w'"
  by (auto simp: begin_tx_def split: prod.splits fault.splits dest: db_only_call)

lemma db_only_stmt: "stmt f t = (r, t') \<Longrightarrow> db_only (fst t) (fst t')"
  by (auto simp: stmt_def split: prod.splits fault.splits dest: db_only_call)

lemma db_only_commit: "commit t = (r, w') \<Longrightarrow> db_only (fst t) w'"
  by (auto simp: commit_def split: prod.splits fault.splits dest: db_only_call)

lemma db_only_exec_auto: "exec_auto f w = (r, w') \<Longrightarrow> db_only w w'"
  by (auto simp: exec_auto_def split: prod.splits fault.splits dest: db_only_call)

lemma db_only_insert_items: "insert_items pg now oid its t = (r, t') \<Longrightarrow> db_only (fst t) (fst t')"
  by (induction its arbitrary: t)
    (auto split: prod.splits sum.splits dest: db_only_stmt intro: db_only_trans)

lemmas db_only_steps = db_only_begin_tx db_only_stmt db_only_commit db_only_insert_items db_only_exec_auto

lemma db_only_SetStatus: "SetStatus n wn st nt w = (r, w') \<Longrightarrow> db_only w w'"
  by (auto simp: SetStatus_def Let_def split: sum.splits prod.splits option.splits
      dest!: db_only_steps intro: db_only_trans db_only_rollback)

lemma db_only_GetAndIncrementSequence: "GetAndIncrementSequence date w = (r, w') \<Longrightarrow> db_only w w'"
  by (auto simp: GetAndIncrementSequence_def split: sum.splits prod.splits option.splits
      dest!: db_only_steps intro: db_only_trans db_only_rollback)

lemma db_only_Create:
  assumes "Create pg req by notes w = (r, w')"
  shows "db_only w w'"
  using assms
  by (auto simp: Create_def Let_def split: sum.splits prod.splits option.splits
      dest!: db_only_steps) (meson db_only_trans db_only_rollback)+

end
