(* ===== verification/Order_Contract.thy ===== *)
theory Order_Contract
  imports Order_Store
begin

text \<open>
  The interfaces the services depend on (\<^verbatim>\<open>OrderRepository\<close> of \<^verbatim>\<open>services/kitchen\<close> and of
  \<^verbatim>\<open>services/order\<close>) as locales over an arbitrary state, with the laws their clients need,
  and their interpretation on the repository of \<^verbatim>\<open>internal/adapter/postgres\<close>. A failing
  operation may have been applied (the reply was lost) or not.
\<close>

locale order_store =
  fixes set_status :: "string \<Rightarrow> string \<Rightarrow> string \<Rightarrow> string \<Rightarrow> 'w \<Rightarrow> string result \<times> 'w"
    and inv :: "'w \<Rightarrow> bool"
    and status :: "'w \<Rightarrow> string \<Rightarrow> string option"
    and history :: "'w \<Rightarrow> string \<Rightarrow> string list"
  assumes set_ok: "inv w \<Longrightarrow> set_status n wn st nt w = (Inr old, w') \<Longrightarrow>
      inv w' \<and> status w n = Some old \<and> status w' = (status w)(n \<mapsto> st)
      \<and> history w' = (history w)(n := history w n @ [st])"
    and set_err: "inv w \<Longrightarrow> set_status n wn st nt w = (Inl e, w') \<Longrightarrow>
      inv w' \<and> (status w' = status w \<and> history w' = history w
        \<or> status w n \<noteq> None \<and> status w' = (status w)(n \<mapsto> st)
          \<and> history w' = (history w)(n := history w n @ [st]))"
    and latest: "inv w \<Longrightarrow> status w n = Some st \<Longrightarrow> history w n \<noteq> [] \<and> last (history w n) = st"
begin

lemma set_cases:
  assumes "inv w" "set_status n wn st nt w = (r, w')"
  obtains (kept) e where "r = Inl e" "inv w'" "status w' = status w" "history w' = history w"
  | (changed) "inv w'" "status w n \<noteq> None" "status w' = (status w)(n \<mapsto> st)"
      "history w' = (history w)(n := history w n @ [st])"
proof (cases r)
  case (Inl e)
  then show thesis using set_err [of w n wn st nt e w'] assms that by blast
next
  case (Inr old)
  then show thesis using set_ok [of w n wn st nt old w'] assms that by blast
qed

lemma set_inv: "inv w \<Longrightarrow> set_status n wn st nt w = (r, w') \<Longrightarrow> inv w'"
  by (erule (1) set_cases)

lemma set_unknown:
  assumes "inv w" "set_status n wn st nt w = (r, w')" "status w n = None"
  shows "(\<exists>e. r = Inl e) \<and> status w' = status w \<and> history w' = history w"
  using assms(3) by (cases rule: set_cases [OF assms(1,2)]) simp_all

lemma set_other:
  assumes "inv w" "set_status n wn st nt w = (r, w')" "m \<noteq> n"
  shows "status w' m = status w m \<and> history w' m = history w m"
  using assms(3) by (cases rule: set_cases [OF assms(1,2)]) simp_all

lemma set_extends:
  assumes "inv w" "set_status n wn st nt w = (r, w')"
  shows "history w' n = history w n \<or> history w' n = history w n @ [st]"
  by (cases rule: set_cases [OF assms]) simp_all

lemma set_twice:
  assumes "inv w" "set_status n wn a nt w = (Inr old, w1)" "set_status n wn' b nt' w1 = (Inr old', w2)"
  shows "inv w2" "status w n = Some old" "old' = a" "status w2 = (status w)(n \<mapsto> b)"
    "history w2 = (history w)(n := history w n @ [a, b])"
  using set_ok [OF assms(1,2)] set_ok [OF _ assms(3)] by auto

end

locale order_intake = order_store set_status inv status history
  for set_status :: "string \<Rightarrow> string \<Rightarrow> string \<Rightarrow> string \<Rightarrow> 'w \<Rightarrow> string result \<times> 'w"
    and inv :: "'w \<Rightarrow> bool"
    and status :: "'w \<Rightarrow> string \<Rightarrow> string option"
    and history :: "'w \<Rightarrow> string \<Rightarrow> string list" +
  fixes create :: "CreateOrder \<Rightarrow> string \<Rightarrow> string \<Rightarrow> 'w \<Rightarrow> Order result \<times> 'w"
    and next_number :: "string \<Rightarrow> 'w \<Rightarrow> int result \<times> 'w"
    and last_number :: "'w \<Rightarrow> string \<Rightarrow> int"
  assumes create_ok: "inv w \<Longrightarrow> co_Status req = StatusOrderReceived \<Longrightarrow>
      create req by nt w = (Inr ord, w') \<Longrightarrow>
      inv w' \<and> status w (co_Number req) = None
      \<and> status w' = (status w)(co_Number req \<mapsto> StatusOrderReceived)
      \<and> history w' = (history w)(co_Number req := [StatusOrderReceived])
      \<and> last_number w' = last_number w
      \<and> or_Number ord = co_Number req \<and> or_Status ord = StatusOrderReceived"
    and create_err: "inv w \<Longrightarrow> co_Status req = StatusOrderReceived \<Longrightarrow>
      create req by nt w = (Inl e, w') \<Longrightarrow>
      inv w' \<and> last_number w' = last_number w
      \<and> (status w' = status w \<and> history w' = history w
        \<or> status w (co_Number req) = None
          \<and> status w' = (status w)(co_Number req \<mapsto> StatusOrderReceived)
          \<and> history w' = (history w)(co_Number req := [StatusOrderReceived]))"
    and next_ok: "inv w \<Longrightarrow> next_number date w = (Inr v, w') \<Longrightarrow>
      inv w' \<and> status w' = status w \<and> history w' = history w
      \<and> v = last_number w date + 1 \<and> last_number w' = (last_number w)(date := v)"
    and next_err: "inv w \<Longrightarrow> next_number date w = (Inl e, w') \<Longrightarrow>
      inv w' \<and> status w' = status w \<and> history w' = history w
      \<and> (last_number w' = last_number w \<or> last_number w' = (last_number w)(date := last_number w date + 1))"
begin

lemma create_cases:
  assumes "inv w" "co_Status req = StatusOrderReceived" "create req by nt w = (r, w')"
  obtains (kept) e where "r = Inl e" "inv w'" "status w' = status w" "history w' = history w"
      "last_number w' = last_number w"
  | (created) "inv w'" "status w (co_Number req) = None"
      "status w' = (status w)(co_Number req \<mapsto> StatusOrderReceived)"
      "history w' = (history w)(co_Number req := [StatusOrderReceived])" "last_number w' = last_number w"
proof (cases r)
  case (Inl e)
  then show thesis using create_err [of w req "by" nt e w'] assms that by blast
next
  case (Inr ord)
  then show thesis using create_ok [of w req "by" nt ord w'] assms that by blast
qed

lemma next_frame:
  assumes "inv w" "next_number date w = (r, w')"
  shows "inv w'" "status w' = status w" "history w' = history w"
  using next_ok [of w date "projr r" w'] next_err [of w date "projl r" w'] assms by (cases r; simp)+

lemma next_moves:
  assumes "inv w" "next_number date w = (r, w')"
  shows "last_number w' \<in> {last_number w, (last_number w)(date := last_number w date + 1)}"
  using next_ok [of w date "projr r" w'] next_err [of w date "projl r" w'] assms by (cases r) auto

lemma next_increasing:
  assumes "inv w" "next_number date w = (Inr a, w1)" "next_number date w1 = (Inr b, w2)"
  shows "a < b"
  using next_ok [OF assms(1,2)] next_ok [OF _ assms(3)] by auto

end

lemma history_latest: "wf_db d \<Longrightarrow> order_status d n = Some st \<Longrightarrow> order_history d n \<noteq> [] \<and> last (order_history d n) = st"
  using find_order_SomeD by (fastforce simp: order_status_def order_history_def wf_db_def last_map)

interpretation pg_store: order_store SetStatus "\<lambda>w. wf_db (db w)" "\<lambda>w. order_status (db w)" "\<lambda>w. order_history (db w)"
proof unfold_locales
  fix w n wn st nt old w'
  assume wf: "wf_db (db w)" and s: "SetStatus n wn st nt w = (Inr old, w')"
  then obtain now row where "o_status row = old" "status_changed n wn st nt now row (db w) (db w')"
    using SetStatus_outcome [OF s] by auto
  then show "wf_db (db w') \<and> order_status (db w) n = Some old
      \<and> order_status (db w') = (order_status (db w))(n \<mapsto> st)
      \<and> order_history (db w') = (order_history (db w))(n := order_history (db w) n @ [st])"
    using status_changed_views [of n wn st nt now row "db w" "db w'"] wf by simp
next
  fix w n wn st nt e w'
  assume wf: "wf_db (db w)" and s: "SetStatus n wn st nt w = (Inl e, w')"
  then consider "same_tables (db w) (db w')" | now row where "status_changed n wn st nt now row (db w) (db w')"
    using SetStatus_outcome [OF s] by auto
  then show "wf_db (db w') \<and> (order_status (db w') = order_status (db w) \<and> order_history (db w') = order_history (db w)
      \<or> order_status (db w) n \<noteq> None \<and> order_status (db w') = (order_status (db w))(n \<mapsto> st)
        \<and> order_history (db w') = (order_history (db w))(n := order_history (db w) n @ [st]))"
  proof cases
    case 1
    then show ?thesis using same_tables_views [OF 1] wf by simp
  next
    case (2 now row)
    then show ?thesis using status_changed_views [OF 2 wf] by simp
  qed
next
  show "wf_db (db w) \<Longrightarrow> order_status (db w) n = Some st \<Longrightarrow>
      order_history (db w) n \<noteq> [] \<and> last (order_history (db w) n) = st" for w n st
    by (rule history_latest)
qed

lemma order_created_sequence: "order_created pg req by nt now row d d' \<Longrightarrow> last_sequence d' = last_sequence d"
  by (auto simp: order_created_def last_sequence_def)

lemma order_created_result:
  "order_created pg req by nt now row d d' \<Longrightarrow> co_Status req = StatusOrderReceived \<Longrightarrow>
     or_Number (scan_order pg row) = co_Number req \<and> or_Status (scan_order pg row) = StatusOrderReceived"
  by (auto simp: order_created_def scan_order_def new_order_row_def)

interpretation pg_intake: order_intake SetStatus "\<lambda>w. wf_db (db w)" "\<lambda>w. order_status (db w)"
  "\<lambda>w. order_history (db w)" "Create pg" GetAndIncrementSequence "\<lambda>w. last_sequence (db w)" for pg
proof unfold_locales
  fix w req "by" nt ord w'
  assume wf: "wf_db (db w)" and st: "co_Status req = StatusOrderReceived"
    and c: "Create pg req by nt w = (Inr ord, w')"
  then obtain now row where "ord = scan_order pg row" "order_created pg req by nt now row (db w) (db w')"
    using Create_outcome [OF c] by auto
  then show "wf_db (db w') \<and> order_status (db w) (co_Number req) = None
      \<and> order_status (db w') = (order_status (db w))(co_Number req \<mapsto> StatusOrderReceived)
      \<and> order_history (db w') = (order_history (db w))(co_Number req := [StatusOrderReceived])
      \<and> last_sequence (db w') = last_sequence (db w)
      \<and> or_Number ord = co_Number req \<and> or_Status ord = StatusOrderReceived"
    using order_created_views [of pg req "by" nt now row "db w" "db w'"] wf st
      order_created_sequence [of pg req "by" nt now row "db w" "db w'"]
      order_created_result [of pg req "by" nt now row "db w" "db w'"] by simp
next
  fix w req "by" nt e w'
  assume wf: "wf_db (db w)" and st: "co_Status req = StatusOrderReceived"
    and c: "Create pg req by nt w = (Inl e, w')"
  then consider "same_tables (db w) (db w')" | now row where "order_created pg req by nt now row (db w) (db w')"
    using Create_outcome [OF c] by auto
  then show "wf_db (db w') \<and> last_sequence (db w') = last_sequence (db w)
      \<and> (order_status (db w') = order_status (db w) \<and> order_history (db w') = order_history (db w)
        \<or> order_status (db w) (co_Number req) = None
          \<and> order_status (db w') = (order_status (db w))(co_Number req \<mapsto> StatusOrderReceived)
          \<and> order_history (db w') = (order_history (db w))(co_Number req := [StatusOrderReceived]))"
  proof cases
    case 1
    then show ?thesis using same_tables_views [OF 1] same_tables_sequence [OF 1] wf by simp
  next
    case (2 now row)
    then show ?thesis using order_created_views [OF 2 wf st] order_created_sequence [OF 2] by simp
  qed
next
  fix w date v w'
  assume wf: "wf_db (db w)" and g: "GetAndIncrementSequence date w = (Inr v, w')"
  then have "v = last_sequence (db w) date + 1" "sequence_moved date (db w) (db w')"
    using GetAndIncrementSequence_outcome [OF g] by simp_all
  then show "wf_db (db w') \<and> order_status (db w') = order_status (db w)
      \<and> order_history (db w') = order_history (db w) \<and> v = last_sequence (db w) date + 1
      \<and> last_sequence (db w') = (last_sequence (db w))(date := v)"
    using sequence_moved_views [of date "db w" "db w'"] wf by (simp add: sequence_moved_def)
next
  fix w date e w'
  assume wf: "wf_db (db w)" and g: "GetAndIncrementSequence date w = (Inl e, w')"
  then consider "same_tables (db w) (db w')" | "sequence_moved date (db w) (db w')"
    using GetAndIncrementSequence_outcome [OF g] by auto
  then show "wf_db (db w') \<and> order_status (db w') = order_status (db w)
      \<and> order_history (db w') = order_history (db w)
      \<and> (last_sequence (db w') = last_sequence (db w)
        \<or> last_sequence (db w') = (last_sequence (db w))(date := last_sequence (db w) date + 1))"
  proof cases
    case 1
    then show ?thesis using same_tables_views [OF 1] same_tables_sequence [OF 1] wf by simp
  next
    case 2
    then show ?thesis using sequence_moved_views [OF 2] 2 wf by (simp add: sequence_moved_def)
  qed
qed

section \<open>A live database answers\<close>

lemma quiet_begin_tx: "quiet w \<Longrightarrow> \<exists>t. begin_tx w = Inr t \<and> quiet (fst t) \<and> snd t = db w \<and> db (fst t) = db w"
  using quiet_call [of w] by (auto simp: begin_tx_def dest: call_eqD)

lemma quiet_stmt:
  "quiet (fst t) \<Longrightarrow> \<exists>t'. stmt f t = (fst (f (snd t)), t') \<and> quiet (fst t') \<and> snd t' = snd (f (snd t))"
  using quiet_call [of "fst t"] by (auto simp: stmt_def)

lemma quiet_commit: "quiet (fst t) \<Longrightarrow> \<exists>w'. commit t = (None, w') \<and> quiet w' \<and> db w' = snd t"
  using quiet_call [of "fst t"] by (auto simp: commit_def)

lemma quiet_exec_auto:
  "quiet w \<Longrightarrow> \<exists>w'. exec_auto f w = (fst (f (db w)), w') \<and> quiet w' \<and> db w' = snd (f (db w))"
  using quiet_call [of w] call_eqD(1) [of w NoFault] by (auto simp: exec_auto_def)

lemma quiet_rollback [simp]: "quiet (rollback t) = quiet (fst t)"
  by (simp add: rollback_def)

lemma known_number: "wf_db d \<Longrightarrow> order_status d n \<noteq> None \<Longrightarrow> pg_text n"
  using find_order_SomeD by (fastforce simp: order_status_def wf_db_def)

lemma illegal_number: "wf_db d \<Longrightarrow> \<not> pg_text n \<Longrightarrow> order_status d n = None"
  using known_number by blast

lemma SetStatus_live:
  assumes q: "quiet w" and n: "pg_text n"
  shows "case order_status (db w) n of
      Some old \<Rightarrow> \<exists>w'. SetStatus n wn st nt w = (Inr old, w') \<and> quiet w'
    | None \<Rightarrow> \<exists>w'. SetStatus n wn st nt w = (Inl ErrOrderNotFound, w') \<and> quiet w' \<and> same_tables (db w) (db w')"
proof -
  obtain t0 where t0: "begin_tx w = Inr t0" "quiet (fst t0)" "snd t0 = db w" "db (fst t0) = db w"
    using quiet_begin_tx [OF q] by blast
  let ?f = "update_status (clock (fst t0)) n wn st"
  obtain t1 where t1: "stmt ?f t0 = (fst (?f (db w)), t1)" "quiet (fst t1)" "snd t1 = snd (?f (db w))"
    using quiet_stmt [OF t0(2), of ?f] t0(3) by auto
  show ?thesis
  proof (cases "find_order (db w) n")
    case None
    have "same_tables (db w) (db (rollback t1))"
      using rollback_same_tables [of t1] stmt_frame [OF t1(1)] t0 t1 None by (simp add: update_status_def with_text_def)
    with None t0 t1 n show ?thesis
      by (simp add: SetStatus_def order_status_def update_status_def with_text_def not_found_or_def)
  next
    case (Some row)
    let ?g = "insert_log (clock (fst t0)) (o_id row) st wn nt"
    obtain t2 where t2: "stmt ?g t1 = (fst (?g (snd t1)), t2)" "quiet (fst t2)"
      using quiet_stmt [OF t1(2), of ?g] by auto
    obtain w3 where "commit t2 = (None, w3)" "quiet w3" using quiet_commit [OF t2(2)] by blast
    with Some t0 t1 t2 n show ?thesis
      by (simp add: SetStatus_def order_status_def update_status_def with_text_def insert_log_def Let_def)
  qed
qed

lemma GetAndIncrementSequence_live:
  assumes q: "quiet w" and b: "int4 (last_sequence (db w) date + 1)"
  shows "\<exists>v w'. GetAndIncrementSequence date w = (Inr v, w') \<and> quiet w'"
proof -
  obtain t0 where t0: "begin_tx w = Inr t0" "quiet (fst t0)" "snd t0 = db w"
    using quiet_begin_tx [OF q] by blast
  let ?f = "upsert_sequence (clock (fst t0)) date"
  obtain t1 where t1: "stmt ?f t0 = (fst (?f (db w)), t1)" "quiet (fst t1)"
    using quiet_stmt [OF t0(2), of ?f] t0(3) by auto
  obtain w2 where "commit t1 = (None, w2)" "quiet w2" using quiet_commit [OF t1(2)] by blast
  moreover obtain v where "fst (?f (db w)) = Inr v"
    using b that by (cases "order_sequences (db w) date") (simp_all add: upsert_sequence_def last_sequence_def)
  ultimately show ?thesis using t0 t1 by (simp add: GetAndIncrementSequence_def)
qed

text \<open>What the tables can hold of an order.\<close>

definition storable_item :: "pg_codec \<Rightarrow> CreateOrderItem \<Rightarrow> bool" where
  "storable_item pg it \<longleftrightarrow> pg_text (ci_Name it) \<and> decimal_column pg 8 (ci_Price it) \<noteq> None \<and> int4 (ci_Quantity it)"

definition storable :: "pg_codec \<Rightarrow> CreateOrder \<Rightarrow> bool" where
  "storable pg req \<longleftrightarrow> list_all pg_text [co_Number req, co_CustomerName req, co_Status req]
     \<and> pred_option pg_text (co_DeliveryAddress req) \<and> decimal_column pg 10 (co_TotalAmount req) \<noteq> None \<and> int4 (co_Priority req)
     \<and> pred_option int4 (co_TableNumber req) \<and> List.member [''dine_in'', ''takeout'', ''delivery''] (co_Type req)
     \<and> list_all (storable_item pg) (co_Items req)"

lemma quiet_insert_items:
  "quiet (fst t) \<Longrightarrow> list_all (storable_item pg) its \<Longrightarrow>
     \<exists>t'. insert_items pg now oid its t = (None, t') \<and> quiet (fst t')"
proof (induction its arbitrary: t)
  case (Cons it its)
  let ?f = "insert_item pg now oid it"
  obtain t1 where t1: "stmt ?f t = (fst (?f (snd t)), t1)" "quiet (fst t1)"
    using quiet_stmt [OF Cons.prems(1), of ?f] by auto
  moreover have "fst (?f (snd t)) = Inr ()"
    using Cons.prems(2) by (auto simp: insert_item_def with_text_def storable_item_def Let_def)
  ultimately show ?case using Cons.IH [OF t1(2)] Cons.prems(2) by simp
qed simp

lemma Create_live:
  assumes q: "quiet w" and s: "storable pg req" and n: "order_status (db w) (co_Number req) = None"
  shows "\<exists>ord w'. Create pg req by nt w = (Inr ord, w') \<and> quiet w'"
proof -
  obtain t0 where t0: "begin_tx w = Inr t0" "quiet (fst t0)" "snd t0 = db w"
    using quiet_begin_tx [OF q] by blast
  let ?now = "clock (fst t0)"
  have new: "\<not> List.member (map o_number (orders (db w))) (co_Number req)"
    using n by (auto simp: order_status_def find_order_def find_None_iff)
  have "pg_text (co_Type req)" using s by (auto simp: storable_def)
  then have texts: "list_all pg_text ([co_Number req, co_CustomerName req, co_Type req, co_Status req]
      @ (case co_DeliveryAddress req of None \<Rightarrow> [] | Some a \<Rightarrow> [a]))"
    using s by (cases "co_DeliveryAddress req") (simp_all add: storable_def)
  obtain row where row: "fst (insert_order pg ?now req (db w)) = Inr row"
    unfolding insert_order_def with_text_def if_P [OF texts] using s new by (auto simp: storable_def Let_def)
  obtain t1 where t1: "stmt (insert_order pg ?now req) t0 = (Inr row, t1)" "quiet (fst t1)"
    using quiet_stmt [OF t0(2), of "insert_order pg ?now req"] t0(3) row by auto
  obtain t2 where t2: "insert_items pg ?now (o_id row) (co_Items req) t1 = (None, t2)" "quiet (fst t2)"
    using quiet_insert_items [OF t1(2), of pg "co_Items req"] s unfolding storable_def by blast
  let ?g = "insert_log ?now (o_id row) StatusOrderReceived by nt"
  obtain t3 where t3: "stmt ?g t2 = (Inr (), t3)" "quiet (fst t3)"
    using quiet_stmt [OF t2(2), of ?g] by (auto simp: insert_log_def)
  obtain w4 where "commit t3 = (None, w4)" "quiet w4" using quiet_commit [OF t3(2)] by blast
  with t0 t1 t2 t3 show ?thesis by (simp add: Create_def Let_def)
qed

end
