(* ===== verification/Config.thy ===== *)
theory Config
  imports Domain
begin

text \<open>
  \<^verbatim>\<open>internal/config\<close>: the configuration record, the command-line flags and their validation,
  the connection strings of \<^verbatim>\<open>pkg/postgres\<close> and \<^verbatim>\<open>pkg/rabbit\<close>, and the service modes. The
  flags are pointers that the package's initialisation always sets, so the nil tests of the
  source never fire; a flag is the value its pointer holds after parsing.
\<close>

section \<open>Types\<close>

definition ModeOrder :: string where "ModeOrder = ''order-service''"
definition ModeKitchenWorker :: string where "ModeKitchenWorker = ''kitchen-worker''"
definition ModeTracking :: string where "ModeTracking = ''tracking-service''"
definition ModeNotificationSubscriber :: string where
  "ModeNotificationSubscriber = ''notification-subscriber''"

lemmas mode_defs = ModeOrder_def ModeKitchenWorker_def ModeTracking_def ModeNotificationSubscriber_def

lemma modes_distinct [simp]:
  "distinct [ModeOrder, ModeKitchenWorker, ModeTracking, ModeNotificationSubscriber]"
  by (simp add: mode_defs)

definition LevelDebug :: string where "LevelDebug = ''DEBUG''"
definition LevelInfo :: string where "LevelInfo = ''INFO''"
definition LevelWarn :: string where "LevelWarn = ''WARN''"
definition LevelError :: string where "LevelError = ''ERROR''"

record postgres_Config =
  pc_Host :: string
  pc_Port :: string
  pc_User :: string
  pc_Password :: string
  pc_DBName :: string
  pc_MaxOpenConns :: int
  pc_MaxIdleTime :: string

record rabbit_Config =
  rc_Host :: string
  rc_Port :: string
  rc_User :: string
  rc_Password :: string

record RabbitMQ_cfg =
  rm_Conn :: rabbit_Config
  rm_OrderExchange :: string
  rm_NotificationsExchange :: string
  rm_ReconnectAttempt :: int
  rm_ReconnectDelay :: duration

record OrderService_cfg =
  oc_MaxConcurrent :: int
  oc_SemWait :: duration

record KitchenService_cfg =
  kc_WorkerName :: string
  kc_OrderTypes :: string
  kc_Prefetch :: int
  kc_HeartbeatInterval :: int
  kc_ReconnectAttempt :: int
  kc_ReconnectDelay :: duration

record Config =
  cf_Mode :: string
  cf_Order :: OrderService_cfg
  cf_Kitchen :: KitchenService_cfg
  cf_TrackingHeartbeat :: int
  cf_Port :: int
  cf_Postgres :: postgres_Config
  cf_RabbitMQ :: RabbitMQ_cfg
  cf_LogLevel :: string

section \<open>Connection strings\<close>

definition GetDsn :: "postgres_Config \<Rightarrow> string" where
  "GetDsn c = ''host='' @ pc_Host c @ '' port='' @ pc_Port c @ '' user='' @ pc_User c
     @ '' password='' @ pc_Password c @ '' dbname='' @ pc_DBName c @ '' sslmode=disable''"

definition GetDSN :: "rabbit_Config \<Rightarrow> string" where
  "GetDSN c = ''amqp://'' @ rc_User c @ '':'' @ rc_Password c @ ''@'' @ rc_Host c @ '':'' @ rc_Port c @ ''/''"

section \<open>Flags\<close>

definition DefaultOrderServicePort :: int where "DefaultOrderServicePort = 3000"
definition DefaultTrackingServicePort :: int where "DefaultTrackingServicePort = 3002"

record flags =
  fl_mode :: string
  fl_port :: int
  fl_logLevel :: string
  fl_maxConcurrent :: int
  fl_workerName :: string
  fl_orderTypes :: string
  fl_heartbeatInt :: int
  fl_prefetch :: int

definition default_flags :: flags where
  "default_flags = \<lparr>fl_mode = [], fl_port = -1, fl_logLevel = LevelDebug, fl_maxConcurrent = 50,
     fl_workerName = [], fl_orderTypes = [], fl_heartbeatInt = 30, fl_prefetch = 1\<rparr>"

definition ErrInvalidModeFlag :: err where
  "ErrInvalidModeFlag = Sentinel ''config.ErrInvalidModeFlag'' ''invalid mode flag''"

definition validateLogLevel :: "string \<Rightarrow> err option" where
  "validateLogLevel lvl =
     (if List.member [LevelDebug, LevelError, LevelWarn, LevelInfo] lvl then None
      else Some (Opaque (''invalid log level: '' @ lvl)))"

definition parseFlags :: "flags \<Rightarrow> Config \<Rightarrow> Config result" where
  "parseFlags f cfg0 =
     (let level = (if fl_logLevel f = [] then LevelDebug else fl_logLevel f);
          cfg1 = cfg0\<lparr>cf_LogLevel := level\<rparr>
      in case validateLogLevel level of
           Some e \<Rightarrow> Inl e
         | None \<Rightarrow>
             (let cfg = cfg1\<lparr>cf_Mode := fl_mode f\<rparr> in
              if fl_mode f = ModeOrder then
                (let cfg2 = cfg\<lparr>cf_Port := if fl_port f < 1024 \<or> fl_port f > 65535
                                then DefaultOrderServicePort else fl_port f\<rparr> in
                 if \<not> (fl_maxConcurrent f \<ge> 0 \<and> fl_maxConcurrent f \<le> 1000)
                 then Inl (Opaque ''--max-concurrent flag must be between 1 and 1000'')
                 else Inr (cfg2\<lparr>cf_Order := (cf_Order cfg2)\<lparr>oc_MaxConcurrent := fl_maxConcurrent f\<rparr>\<rparr>))
              else if fl_mode f = ModeKitchenWorker then
                (if fl_workerName f = [] then Inl (Opaque ''missing required flag: --worker-name'')
                 else Inr (cfg\<lparr>cf_Kitchen := (cf_Kitchen cfg)\<lparr>kc_WorkerName := fl_workerName f,
                        kc_OrderTypes := fl_orderTypes f, kc_HeartbeatInterval := fl_heartbeatInt f,
                        kc_Prefetch := fl_prefetch f\<rparr>\<rparr>))
              else if fl_mode f = ModeTracking then
                Inr (cfg\<lparr>cf_Port := fl_port f, cf_TrackingHeartbeat := fl_heartbeatInt f\<rparr>)
              else if fl_mode f = ModeNotificationSubscriber then Inr cfg
              else Inl ErrInvalidModeFlag))"

text \<open>The zero value of the structure, before any field is filled.\<close>

definition zero_Config :: Config where
  "zero_Config =
     \<lparr>cf_Mode = [], cf_Order = \<lparr>oc_MaxConcurrent = 0, oc_SemWait = 0\<rparr>,
      cf_Kitchen = \<lparr>kc_WorkerName = [], kc_OrderTypes = [], kc_Prefetch = 0, kc_HeartbeatInterval = 0,
                    kc_ReconnectAttempt = 0, kc_ReconnectDelay = 0\<rparr>,
      cf_TrackingHeartbeat = 0, cf_Port = 0,
      cf_Postgres = \<lparr>pc_Host = [], pc_Port = [], pc_User = [], pc_Password = [], pc_DBName = [],
                     pc_MaxOpenConns = 0, pc_MaxIdleTime = []\<rparr>,
      cf_RabbitMQ = \<lparr>rm_Conn = \<lparr>rc_Host = [], rc_Port = [], rc_User = [], rc_Password = []\<rparr>,
                     rm_OrderExchange = [], rm_NotificationsExchange = [], rm_ReconnectAttempt = 0,
                     rm_ReconnectDelay = 0\<rparr>,
      cf_LogLevel = []\<rparr>"

section \<open>Properties\<close>

text \<open>
  What an accepted command line guarantees to the services: the mode is one of the
  four, the log level one of the four, the order service listens on a registered port and has
  between 0 and 1000 slots, the kitchen worker has a name, the tracking service gets the
  port of the flag as it is (-1 when it is not given), and the sections of the
  configuration file are untouched.
\<close>

theorem parseFlags_accepts:
  assumes "parseFlags f cfg0 = Inr cfg"
  shows "cf_Mode cfg = fl_mode f
    \<and> cf_Mode cfg \<in> {ModeOrder, ModeKitchenWorker, ModeTracking, ModeNotificationSubscriber}
    \<and> cf_LogLevel cfg \<in> {LevelDebug, LevelInfo, LevelWarn, LevelError}
    \<and> (cf_Mode cfg = ModeOrder \<longrightarrow> 1024 \<le> cf_Port cfg \<and> cf_Port cfg \<le> 65535
         \<and> 0 \<le> oc_MaxConcurrent (cf_Order cfg) \<and> oc_MaxConcurrent (cf_Order cfg) \<le> 1000)
    \<and> (cf_Mode cfg = ModeKitchenWorker \<longrightarrow> kc_WorkerName (cf_Kitchen cfg) \<noteq> [])
    \<and> (cf_Mode cfg = ModeTracking \<longrightarrow> cf_Port cfg = fl_port f)
    \<and> cf_Postgres cfg = cf_Postgres cfg0 \<and> cf_RabbitMQ cfg = cf_RabbitMQ cfg0
    \<and> oc_SemWait (cf_Order cfg) = oc_SemWait (cf_Order cfg0)"
  using assms modes_distinct
  by (auto simp: parseFlags_def validateLogLevel_def Let_def DefaultOrderServicePort_def
      simp del: modes_distinct split: if_splits)

theorem parseFlags_accepts_witness:
  "\<exists>cfg. parseFlags (default_flags\<lparr>fl_mode := ''order-service'', fl_port := 80, fl_maxConcurrent := 0\<rparr>) zero_Config
       = Inr cfg \<and> 1024 \<le> cf_Port cfg \<and> oc_MaxConcurrent (cf_Order cfg) \<le> 1000"
proof -
  obtain cfg where p: "parseFlags (default_flags\<lparr>fl_mode := ''order-service'', fl_port := 80,
      fl_maxConcurrent := 0\<rparr>) zero_Config = Inr cfg"
    by (simp add: parseFlags_def default_flags_def validateLogLevel_def mode_defs Let_def LevelDebug_def)
  from parseFlags_accepts [OF p] have "cf_Mode cfg = ModeOrder"
    by (simp add: default_flags_def mode_defs)
  with parseFlags_accepts [OF p] p show ?thesis by blast
qed

end
