(* ===== verification/Broker.thy ===== *)
theory Broker
  imports World Config
begin

text \<open>
  \<^verbatim>\<open>pkg/rabbit\<close> and the producers of \<^verbatim>\<open>internal/adapter/rabbit\<close>: connecting, detecting a
  lost connection and reconnecting with retries, the queues and bindings of the order
  exchange, and the publication of orders and status updates. \<open>conn_closed\<close> is the state
  of the producer's client; publishing on a closed one fails with \<^verbatim>\<open>amqp.ErrClosed\<close>. How a
  topic exchange matches a routing key belongs to the broker and is a parameter.
\<close>

section \<open>pkg/rabbit\<close>

definition amqp_ErrClosed :: err where
  "amqp_ErrClosed = Sentinel ''amqp.ErrClosed'' ''Exception (504) Reason: channel/connection is not open''"

text \<open>
  Dialling, opening a channel and looking at the close notification. A close that is already
  notified carries an error, or none when the broker closed gracefully (\<open>FailApplied\<close>).
\<close>

definition rabbit_New :: "world \<Rightarrow> err option \<times> world" where
  "rabbit_New w =
     (case raw_call w of
        (Fail e, w1) \<Rightarrow> (Some (errorf_w ''failed to connect to RabbitMQ: '' e), w1)
      | (FailApplied e, w1) \<Rightarrow> (Some (errorf_w ''failed to connect to RabbitMQ: '' e), w1)
      | (NoFault, w1) \<Rightarrow>
          (case raw_call w1 of
             (Fail e, w2) \<Rightarrow> (Some (errorf_w ''failed to open a channel: '' e), snd (raw_call w2))
           | (FailApplied e, w2) \<Rightarrow> (Some (errorf_w ''failed to open a channel: '' e), snd (raw_call w2))
           | (NoFault, w2) \<Rightarrow>
               (case raw_call w2 of
                  (Fail e, w3) \<Rightarrow> (Some (errorf_v ''rabbitmq connection is closed: '' e), w3)
                | (FailApplied e, w3) \<Rightarrow> (Some (Opaque ''rabbitmq connection is closed''), w3)
                | (NoFault, w3) \<Rightarrow> (None, w3\<lparr>conn_closed := False\<rparr>))))"

text \<open>
  \<^verbatim>\<open>monitorConnection\<close> sets the flag when the broker closes the connection: a fault event
  at the moment of the test is a connection lost since the last one.
\<close>

definition IsConnectionClosed :: "world \<Rightarrow> bool \<times> world" where
  "IsConnectionClosed w =
     (if conn_closed w then (True, w)
      else case raw_call w of
             (NoFault, w') \<Rightarrow> (False, w')
           | (_, w') \<Rightarrow> (True, w'\<lparr>conn_closed := True\<rparr>))"

definition PublishWithContext :: "string \<Rightarrow> string \<Rightarrow> publishing \<Rightarrow> world \<Rightarrow> err option \<times> world" where
  "PublishWithContext exchange key msg w =
     (if conn_closed w then (Some amqp_ErrClosed, w) else channel_send (Publish exchange key msg) w)"

section \<open>retry.go\<close>

text \<open>
  The inner \<^verbatim>\<open>err\<close> shadows the outer one, so running out of attempts returns nil. The first
  argument is the number of attempts left; \<^verbatim>\<open>range\<close> over a negative count does nothing.
\<close>

fun retry_left :: "nat \<Rightarrow> duration \<Rightarrow> (world \<Rightarrow> err option \<times> world) \<Rightarrow> world \<Rightarrow> err option \<times> world" where
  "retry_left 0 delay fn w = (None, w)"
| "retry_left (Suc k) delay fn w =
     (case fn w of
        (None, w1) \<Rightarrow> (None, w1)
      | (Some _, w1) \<Rightarrow>
          if k = 0 then (None, w1)
          else (case wait_or_done delay w1 of
                  (Some e, w2) \<Rightarrow> (Some e, w2)
                | (None, w2) \<Rightarrow> retry_left k delay fn w2))"

definition rabbit_retry :: "int \<Rightarrow> duration \<Rightarrow> (world \<Rightarrow> err option \<times> world) \<Rightarrow> world \<Rightarrow> err option \<times> world" where
  "rabbit_retry attempts delay fn w = retry_left (nat attempts) delay fn w"

definition reconnect :: "RabbitMQ_cfg \<Rightarrow> world \<Rightarrow> err option \<times> world" where
  "reconnect cfg w =
     (case rabbit_retry (rm_ReconnectAttempt cfg) (rm_ReconnectDelay cfg) rabbit_New w of
        (Some e, w') \<Rightarrow> (Some (errorf_w ''failed to recconect rabbitMQ: '' e), w')
      | (None, w') \<Rightarrow> (None, w'))"

definition ensure_connected :: "RabbitMQ_cfg \<Rightarrow> world \<Rightarrow> err option \<times> world" where
  "ensure_connected cfg w =
     (case IsConnectionClosed w of
        (True, w1) \<Rightarrow> reconnect cfg w1
      | (False, w1) \<Rightarrow> (None, w1))"

section \<open>queue_init.go\<close>

definition getQueueByOrderType :: "string \<Rightarrow> string" where
  "getQueueByOrderType ot = ''kitchen_'' @ ot @ ''_queue''"

definition getRoutingkeyByOrderType :: "string \<Rightarrow> string" where
  "getRoutingkeyByOrderType ot = ''kitchen.'' @ ot @ ''.*''"

definition createOrderPublishedKey :: "CreateOrder \<Rightarrow> string" where
  "createOrderPublishedKey order = ''kitchen.'' @ co_Type order @ ''.'' @ fmt_d (co_Priority order)"

definition getDLQKeyForQueue :: "string \<Rightarrow> string" where
  "getDLQKeyForQueue queueName = ''dlq.'' @ queueName"

definition getDLQRoutingKeyQueueName :: "string \<Rightarrow> string" where
  "getDLQRoutingKeyQueueName queueName = ''dlq.'' @ queueName"

definition dlx_exchange :: string where
  "dlx_exchange = ''dlx_exchange''"

text \<open>A sequence of channel commands, each with the text of its error; the first failure ends it.\<close>

fun send_all :: "(string \<times> amqp_cmd) list \<Rightarrow> world \<Rightarrow> err option \<times> world" where
  "send_all [] w = (None, w)"
| "send_all ((text, c) # cs) w =
     (case channel_send c w of
        (Some e, w') \<Rightarrow> (Some (errorf_w text e), w')
      | (None, w') \<Rightarrow> send_all cs w')"

definition queue_commands :: "string \<Rightarrow> string \<Rightarrow> (string \<times> amqp_cmd) list" where
  "queue_commands exchange ot =
     (let queueName = getQueueByOrderType ot; deadLQueue = getDLQKeyForQueue queueName in
      [(''failed to declare queue '' @ queueName @ '': '',
        QueueDeclare queueName [(''x-dead-letter-exchange'', dlx_exchange),
                                (''x-dead-letter-routing-key'', deadLQueue)]),
       (''failed to bind queue '' @ queueName @ '': '',
        QueueBind queueName (getRoutingkeyByOrderType ot) exchange),
       (''failed to declare DLQ: '', QueueDeclare deadLQueue []),
       (''failed to bind DLQ: '', QueueBind deadLQueue (getDLQRoutingKeyQueueName queueName) dlx_exchange)])"

definition InitQueuesForOrderTypes :: "string \<Rightarrow> string list \<Rightarrow> world \<Rightarrow> err option \<times> world" where
  "InitQueuesForOrderTypes exchange orderTypes w =
     send_all ((''failed to declare DLX exchange: '', ExchangeDeclare dlx_exchange ''topic'')
               # concat (map (queue_commands exchange) orderTypes)) w"

section \<open>order-producer.go\<close>

definition NewOrderProducer :: "RabbitMQ_cfg \<Rightarrow> world \<Rightarrow> err option \<times> world" where
  "NewOrderProducer cfg w =
     (case rabbit_New w of
        (Some e, w1) \<Rightarrow> (Some e, w1)
      | (None, w1) \<Rightarrow>
          (case channel_send (ExchangeDeclare (rm_OrderExchange cfg) ''topic'') w1 of
             (Some e, w2) \<Rightarrow> (Some (errorf_w ''failed to declare exchange: '' e), w2)
           | (None, w2) \<Rightarrow>
               (case InitQueuesForOrderTypes (rm_OrderExchange cfg) AllOrderTypes w2 of
                  (Some e, w3) \<Rightarrow> (Some (errorf_w ''failed to init order queues: '' e), w3)
                | (None, w3) \<Rightarrow> (None, w3))))"

definition amqp_Persistent :: nat where
  "amqp_Persistent = 2"

text \<open>\<open>unsupported_value\<close> stands for the encoder's error on an infinite or NaN number.\<close>

definition unsupported_value :: err where
  "unsupported_value = Opaque ''json: unsupported value''"

definition order_publishing :: "CreateOrder \<Rightarrow> json \<Rightarrow> instant \<Rightarrow> publishing" where
  "order_publishing order body now =
     \<lparr>p_ContentType = ''application/json'', p_DeliveryMode = amqp_Persistent,
      p_Priority = word_of_int (co_Priority order), p_Timestamp = now, p_Body = body\<rparr>"

definition PublishCreateOrder :: "RabbitMQ_cfg \<Rightarrow> string option \<Rightarrow> CreateOrder option \<Rightarrow> world \<Rightarrow> err option \<times> world" where
  "PublishCreateOrder cfg ctx orderp w =
     (case orderp of
        None \<Rightarrow> (Some (Opaque ''nil order''), w)
      | Some order \<Rightarrow>
          (case ensure_connected cfg w of
             (Some e, w1) \<Rightarrow> (Some e, w1)
           | (None, w1) \<Rightarrow>
               (case Option.bind (FromInternalToPublishOrder ctx (Some order)) marshal_order of
                  None \<Rightarrow> (Some (errorf_w ''failed to marshal order: '' unsupported_value), w1)
                | Some body \<Rightarrow>
                    (case PublishWithContext (rm_OrderExchange cfg) (createOrderPublishedKey order)
                            (order_publishing order body (clock w1)) w1 of
                       (Some e, w2) \<Rightarrow> (Some (errorf_w ''failed to publish order: '' e), w2)
                     | (None, w2) \<Rightarrow> (None, w2)))))"

section \<open>notification-producer.go\<close>

definition ErrEmptyExchangeName :: err where
  "ErrEmptyExchangeName = Sentinel ''rabbit.ErrEmptyExchangeName'' ''empty exchange name''"

definition NewProducerNotify :: "RabbitMQ_cfg \<Rightarrow> world \<Rightarrow> err option \<times> world" where
  "NewProducerNotify cfg w =
     (if rm_NotificationsExchange cfg = [] then (Some ErrEmptyExchangeName, w)
      else case rabbit_New w of
        (Some e, w1) \<Rightarrow> (Some e, w1)
      | (None, w1) \<Rightarrow>
          (case channel_send (ExchangeDeclare (rm_NotificationsExchange cfg) ''fanout'') w1 of
             (Some e, w2) \<Rightarrow>
               (Some (errorf_w (''failed to declare exchange '' @ rm_NotificationsExchange cfg @ '': '') e), w2)
           | (None, w2) \<Rightarrow> (None, w2)))"

definition marshal_status_update :: "StatusUpdate \<Rightarrow> json" where
  "marshal_status_update u =
     JObj [(''order_number'', JStr (su_OrderNumber u)), (''old_status'', JStr (su_OldStatus u)),
           (''new_status'', JStr (su_NewStatus u)), (''changed_by'', JStr (su_ChangedBy u)),
           (''timestamp'', JTime (su_Timestamp u)), (''estimated_completion'', JTime (su_Completion u)),
           (''request_id'', JStr (su_RequestID u))]"

definition status_publishing :: "StatusUpdate \<Rightarrow> instant \<Rightarrow> publishing" where
  "status_publishing u now =
     \<lparr>p_ContentType = ''application/json'', p_DeliveryMode = amqp_Persistent, p_Priority = 0,
      p_Timestamp = now, p_Body = marshal_status_update u\<rparr>"

definition producer_StatusUpdate :: "RabbitMQ_cfg \<Rightarrow> StatusUpdate \<Rightarrow> world \<Rightarrow> err option \<times> world" where
  "producer_StatusUpdate cfg u w =
     (case ensure_connected cfg w of
        (Some e, w1) \<Rightarrow> (Some e, w1)
      | (None, w1) \<Rightarrow>
          (case PublishWithContext (rm_NotificationsExchange cfg) [] (status_publishing u (clock w1)) w1 of
             (Some e, w2) \<Rightarrow> (Some (errorf_w ''failed to publish StatusUpdate: '' e), w2)
           | (None, w2) \<Rightarrow> (None, w2)))"

section \<open>What the connection code leaves alone\<close>

definition net_only :: "world \<Rightarrow> world \<Rightarrow> bool" where
  "net_only w w' \<longleftrightarrow> db w' = db w \<and> clock w \<le> clock w' \<and> (\<forall>e. ctx_err w = Some e \<longrightarrow> ctx_err w' = Some e)"

lemma net_only_refl [simp]: "net_only w w"
  by (simp add: net_only_def)

lemma net_only_trans: "net_only a b \<Longrightarrow> net_only b c \<Longrightarrow> net_only a c"
  by (auto simp: net_only_def)

lemma raw_call_net: "raw_call w = (f, w') \<Longrightarrow> net_only w w' \<and> amqp w' = amqp w"
  by (auto simp: net_only_def raw_call_eqD)

lemma net_only_conn [simp]: "net_only w (w'\<lparr>conn_closed := b\<rparr>) = net_only w w'"
  by (simp add: net_only_def)

lemma rabbit_New_net:
  assumes "rabbit_New w = (r, w')"
  shows "net_only w w' \<and> amqp w' = amqp w \<and> (r = None \<longrightarrow> \<not> conn_closed w')"
proof -
  obtain f1 w1 where 1: "raw_call w = (f1, w1)" by (cases "raw_call w")
  obtain f2 w2 where 2: "raw_call w1 = (f2, w2)" by (cases "raw_call w1")
  obtain f3 w3 where 3: "raw_call w2 = (f3, w3)" by (cases "raw_call w2")
  have n: "net_only w w1" "net_only w w2" "net_only w w3" "amqp w1 = amqp w" "amqp w2 = amqp w" "amqp w3 = amqp w"
    using raw_call_net [OF 1] raw_call_net [OF 2] raw_call_net [OF 3] net_only_trans by auto
  show ?thesis
    using assms n 1 2 3 by (cases f1; cases f2; cases f3) (auto simp: rabbit_New_def)
qed

lemma IsConnectionClosed_net:
  "IsConnectionClosed w = (b, w') \<Longrightarrow> net_only w w' \<and> amqp w' = amqp w \<and> conn_closed w' = b"
  by (auto simp: IsConnectionClosed_def split: if_splits prod.splits fault.splits dest: raw_call_net raw_call_eqD)

lemma wait_net: "wait_or_done d w = (r, w') \<Longrightarrow> net_only w w' \<and> amqp w' = amqp w"
  by (auto simp: wait_or_done_def net_only_def sleep_def split: option.splits prod.splits fault.splits
      dest: call_eqD call_clock)

lemma retry_left_net:
  assumes fn: "\<And>w r w'. fn w = (r, w') \<Longrightarrow> net_only w w' \<and> amqp w' = amqp w"
  shows "retry_left k delay fn w = (r, w') \<Longrightarrow> net_only w w' \<and> amqp w' = amqp w"
proof (induction k arbitrary: w)
  case 0
  then show ?case by simp
next
  case (Suc k)
  obtain r1 w1 where 1: "fn w = (r1, w1)" by (cases "fn w")
  obtain r2 w2 where 2: "wait_or_done delay w1 = (r2, w2)" by (cases "wait_or_done delay w1")
  have n: "net_only w w1 \<and> amqp w1 = amqp w" "net_only w w2 \<and> amqp w2 = amqp w"
    using fn [OF 1] wait_net [OF 2] net_only_trans by auto
  from Suc.prems 1 2 n Suc.IH [of w2] show ?case
    by (auto split: option.splits if_splits intro: net_only_trans)
qed

lemma ensure_connected_net:
  assumes "ensure_connected cfg w = (r, w')"
  shows "net_only w w' \<and> amqp w' = amqp w"
proof -
  obtain b w1 where 1: "IsConnectionClosed w = (b, w1)" by (cases "IsConnectionClosed w")
  obtain r2 w2 where 2: "retry_left (nat (rm_ReconnectAttempt cfg)) (rm_ReconnectDelay cfg) rabbit_New w1 = (r2, w2)"
    by fastforce
  have "net_only w1 w2 \<and> amqp w2 = amqp w1"
    by (rule retry_left_net [OF _ 2]) (use rabbit_New_net in blast)
  with IsConnectionClosed_net [OF 1] assms 1 2 show ?thesis
    by (auto simp: ensure_connected_def reconnect_def rabbit_retry_def split: if_splits option.splits
        intro: net_only_trans)
qed

lemma publish_net:
  assumes "PublishWithContext ex key msg w = (r, w')"
  shows "net_only w w'" "r = None \<Longrightarrow> amqp w' = amqp w @ [Publish ex key msg] \<and> \<not> conn_closed w'"
    "amqp w' = amqp w \<or> amqp w' = amqp w @ [Publish ex key msg]"
proof -
  obtain f w1 where 1: "raw_call w = (f, w1)" by (cases "raw_call w")
  note n = raw_call_eqD [OF 1]
  show "net_only w w'" "r = None \<Longrightarrow> amqp w' = amqp w @ [Publish ex key msg] \<and> \<not> conn_closed w'"
    "amqp w' = amqp w \<or> amqp w' = amqp w @ [Publish ex key msg]"
    using assms n 1
    by (cases f; auto simp: PublishWithContext_def channel_send_def net_only_def split: if_splits)+
qed

text \<open>
  Publishing an order: on success exactly one message was sent, to the order exchange under
  the order's key, with the order's priority; on failure at most that one.
\<close>

definition order_message :: "RabbitMQ_cfg \<Rightarrow> string option \<Rightarrow> CreateOrder \<Rightarrow> amqp_cmd \<Rightarrow> bool" where
  "order_message cfg ctx order c \<longleftrightarrow>
     (\<exists>body now. Option.bind (FromInternalToPublishOrder ctx (Some order)) marshal_order = Some body
        \<and> c = Publish (rm_OrderExchange cfg) (createOrderPublishedKey order) (order_publishing order body now))"

lemma PublishCreateOrder_outcome:
  assumes "PublishCreateOrder cfg ctx (Some order) w = (r, w')"
  shows "net_only w w'"
    "r = None \<Longrightarrow> \<exists>c. order_message cfg ctx order c \<and> amqp w' = amqp w @ [c] \<and> \<not> conn_closed w'"
    "amqp w' = amqp w \<or> (\<exists>c. order_message cfg ctx order c \<and> amqp w' = amqp w @ [c])"
proof -
  obtain r1 w1 where 1: "ensure_connected cfg w = (r1, w1)" by (cases "ensure_connected cfg w")
  note n1 = ensure_connected_net [OF 1]
  let ?b = "Option.bind (FromInternalToPublishOrder ctx (Some order)) marshal_order"
  obtain r2 w2 where 2: "PublishWithContext (rm_OrderExchange cfg) (createOrderPublishedKey order)
      (order_publishing order (the ?b) (clock w1)) w1 = (r2, w2)" by fastforce
  note n2 = publish_net [OF 2]
  have m: "?b \<noteq> None \<Longrightarrow> order_message cfg ctx order (Publish (rm_OrderExchange cfg) (createOrderPublishedKey order)
      (order_publishing order (the ?b) (clock w1)))" by (auto simp: order_message_def)
  consider e where "r1 = Some e" "r = Some e" "w' = w1" | "r1 = None" "?b = None" "r \<noteq> None" "w' = w1"
    | "r1 = None" "?b \<noteq> None" "r = None \<longleftrightarrow> r2 = None" "w' = w2"
    using assms 1 2 by (cases r1; cases ?b; cases r2) (auto simp: PublishCreateOrder_def)
  then show "net_only w w'"
    "r = None \<Longrightarrow> \<exists>c. order_message cfg ctx order c \<and> amqp w' = amqp w @ [c] \<and> \<not> conn_closed w'"
    "amqp w' = amqp w \<or> (\<exists>c. order_message cfg ctx order c \<and> amqp w' = amqp w @ [c])"
    using n1 n2 m by (cases; auto intro: net_only_trans)+
qed

lemma producer_StatusUpdate_outcome:
  assumes "producer_StatusUpdate cfg u w = (r, w')"
  shows "net_only w w'"
    "r = None \<Longrightarrow> \<exists>now. amqp w' = amqp w @ [Publish (rm_NotificationsExchange cfg) [] (status_publishing u now)]"
    "amqp w' = amqp w \<or> (\<exists>now. amqp w' = amqp w @ [Publish (rm_NotificationsExchange cfg) [] (status_publishing u now)])"
proof -
  obtain r1 w1 where 1: "ensure_connected cfg w = (r1, w1)" by (cases "ensure_connected cfg w")
  note n1 = ensure_connected_net [OF 1]
  obtain r2 w2 where 2: "PublishWithContext (rm_NotificationsExchange cfg) [] (status_publishing u (clock w1)) w1 = (r2, w2)"
    by fastforce
  note n2 = publish_net [OF 2]
  consider e where "r1 = Some e" "r = Some e" "w' = w1" | "r1 = None" "r = None \<longleftrightarrow> r2 = None" "w' = w2"
    using assms 1 2 by (cases r1; cases r2) (auto simp: producer_StatusUpdate_def)
  then show "net_only w w'"
    "r = None \<Longrightarrow> \<exists>now. amqp w' = amqp w @ [Publish (rm_NotificationsExchange cfg) [] (status_publishing u now)]"
    "amqp w' = amqp w \<or> (\<exists>now. amqp w' = amqp w @ [Publish (rm_NotificationsExchange cfg) [] (status_publishing u now)])"
    using n1 n2 by (cases; auto intro: net_only_trans)+
qed

end
