(* ===== verification/Routing.thy ===== *)
theory Routing
  imports Broker
begin

text \<open>
  What the declarations of \<^verbatim>\<open>queue_init.go\<close> mean for the messages: which queues an order
  reaches, where a rejected message goes, and how the producers behave on a lost
  connection. The broker's topic matching is the parameter \<open>matches\<close>; \<open>topic_law\<close> is the
  documented behaviour the program relies on, and \<open>topic_match\<close> an executable matcher that
  has it.
\<close>

section \<open>Topic matching\<close>

abbreviation topic_words :: "string \<Rightarrow> string list" where
  "topic_words \<equiv> split_on (CHR ''.'')"

definition topic_law :: "(string \<Rightarrow> string \<Rightarrow> bool) \<Rightarrow> bool" where
  "topic_law matches \<longleftrightarrow>
     (\<forall>p k. CHR ''#'' \<notin> set p \<longrightarrow>
        matches p k = list_all2 (\<lambda>pw kw. pw = ''*'' \<or> pw = kw) (topic_words p) (topic_words k))"

function match_words :: "string list \<Rightarrow> string list \<Rightarrow> bool" where
  "match_words [] ks = (ks = [])"
| "match_words (p # ps) [] = (p = ''#'' \<and> match_words ps [])"
| "match_words (p # ps) (k # ks) =
     (if p = ''#'' then match_words ps (k # ks) \<or> match_words (p # ps) ks
      else (p = ''*'' \<or> p = k) \<and> match_words ps ks)"
  by pat_completeness auto
termination by (relation "measure (\<lambda>(ps, ks). length ps + length ks)") auto

definition topic_match :: "string \<Rightarrow> string \<Rightarrow> bool" where
  "topic_match p k = match_words (topic_words p) (topic_words k)"

lemma match_words_plain:
  "''#'' \<notin> set ps \<Longrightarrow> match_words ps ks = list_all2 (\<lambda>pw kw. pw = ''*'' \<or> pw = kw) ps ks"
  by (induction ps ks rule: match_words.induct) auto

lemma split_on_chars: "w \<in> set (split_on d s) \<Longrightarrow> set w \<subseteq> set s"
proof (induction s arbitrary: w)
  case (Cons c s)
  then show ?case by (cases "split_on d s") (auto split: if_splits, blast+)
qed simp

lemma topic_match_law: "topic_law topic_match"
proof -
  have "''#'' \<notin> set (topic_words p)" if "CHR ''#'' \<notin> set p" for p
    using split_on_chars [of "''#''" "CHR ''.''" p] that by auto
  then show ?thesis by (auto simp: topic_law_def topic_match_def match_words_plain)
qed

section \<open>Queues an exchange delivers to\<close>

definition routed :: "(string \<Rightarrow> string \<Rightarrow> bool) \<Rightarrow> amqp_cmd list \<Rightarrow> string \<Rightarrow> string \<Rightarrow> string list" where
  "routed matches cmds exchange key =
     remdups (concat (map (\<lambda>c. case c of
        QueueBind q pat ex \<Rightarrow> if ex = exchange \<and> matches pat key then [q] else [] | _ \<Rightarrow> []) cmds))"

lemma set_routed: "set (routed matches cmds ex key) = {q. \<exists>pat. QueueBind q pat ex \<in> set cmds \<and> matches pat key}"
  by (force simp: routed_def split: amqp_cmd.splits if_splits)

lemma send_all_ok: "send_all cs w = (None, w') \<Longrightarrow> amqp w' = amqp w @ map snd cs"
proof (induction cs arbitrary: w)
  case (Cons c cs)
  obtain t k where c: "c = (t, k)" by (cases c)
  from Cons.prems c obtain w1 where "channel_send k w = (None, w1)" "send_all cs w1 = (None, w')"
    by (auto split: prod.splits option.splits)
  with Cons.IH [of w1] channel_send_eqD(4) [of k w None w1] c show ?case by simp
qed simp

lemma NewOrderProducer_ok:
  assumes "NewOrderProducer cfg w = (None, w')"
  shows "amqp w' = amqp w @ ExchangeDeclare (rm_OrderExchange cfg) ''topic'' # ExchangeDeclare dlx_exchange ''topic''
    # concat (map (\<lambda>ot. map snd (queue_commands (rm_OrderExchange cfg) ot)) AllOrderTypes)"
proof -
  obtain w1 w2 where 1: "rabbit_New w = (None, w1)"
    and 2: "channel_send (ExchangeDeclare (rm_OrderExchange cfg) ''topic'') w1 = (None, w2)"
    and 3: "InitQueuesForOrderTypes (rm_OrderExchange cfg) AllOrderTypes w2 = (None, w')"
    using assms by (auto simp: NewOrderProducer_def split: prod.splits option.splits)
  show ?thesis
    using rabbit_New_net [OF 1] channel_send_eqD(4) [OF 2] send_all_ok [OF 3 [unfolded InitQueuesForOrderTypes_def]]
    by (simp add: map_concat comp_def)
qed

lemma fmt_d_no_dot: "CHR ''.'' \<notin> set (fmt_d i)"
proof
  assume "CHR ''.'' \<in> set (fmt_d i)"
  then have "CHR ''.'' \<in> set (dec_nat (nat \<bar>i\<bar>))" by (auto simp: fmt_d_def split: if_splits)
  then obtain d where "d < 10" "digit_char d = CHR ''.''" using dec_nat_digits by metis
  with of_char_digit_char [of d] show False by simp
qed

lemma order_type_words:
  assumes "ot \<in> set AllOrderTypes"
  shows "CHR ''.'' \<notin> set ot" "CHR ''#'' \<notin> set ot" "ot \<noteq> ''*''"
  using assms by (auto simp: AllOrderTypes_def order_type_defs)

lemma key_words:
  assumes "CHR ''.'' \<notin> set t"
  shows "topic_words (''kitchen.'' @ t @ ''.'' @ s) = ''kitchen'' # t # topic_words s"
proof -
  have "topic_words (''kitchen'' @ CHR ''.'' # t @ CHR ''.'' # s) = ''kitchen'' # t # topic_words s"
    using assms by (subst split_on_append) (simp_all add: split_on_append)
  then show ?thesis by simp
qed

lemma binding_matches:
  assumes m: "topic_law matches" and t: "ot \<in> set AllOrderTypes" and o: "co_Type order \<in> set AllOrderTypes"
  shows "matches (getRoutingkeyByOrderType ot) (createOrderPublishedKey order) \<longleftrightarrow> ot = co_Type order"
proof -
  have p: "topic_words (getRoutingkeyByOrderType ot) = [''kitchen'', ot, ''*'']"
    using key_words [OF order_type_words(1) [OF t], of "''*''"] by (simp add: getRoutingkeyByOrderType_def split_on_free)
  have k: "topic_words (createOrderPublishedKey order) = [''kitchen'', co_Type order, fmt_d (co_Priority order)]"
    using key_words [OF order_type_words(1) [OF o], of "fmt_d (co_Priority order)"] fmt_d_no_dot
    by (simp add: createOrderPublishedKey_def split_on_free)
  have "CHR ''#'' \<notin> set (getRoutingkeyByOrderType ot)"
    using order_type_words(2) [OF t] by (simp add: getRoutingkeyByOrderType_def)
  then show ?thesis using m p k order_type_words(3) [OF t] unfolding topic_law_def by auto
qed

lemma dlq_matches:
  assumes m: "topic_law matches" and t: "ot \<in> set AllOrderTypes" "ot' \<in> set AllOrderTypes"
  shows "matches (getDLQRoutingKeyQueueName (getQueueByOrderType ot)) (getDLQKeyForQueue (getQueueByOrderType ot')) \<longleftrightarrow> ot = ot'"
proof -
  have w: "topic_words (''dlq.'' @ getQueueByOrderType x) = [''dlq'', getQueueByOrderType x]" if "x \<in> set AllOrderTypes" for x
  proof -
    have "CHR ''.'' \<notin> set (getQueueByOrderType x)" using order_type_words(1) [OF that] by (simp add: getQueueByOrderType_def)
    then have "topic_words (''dlq'' @ CHR ''.'' # getQueueByOrderType x) = [''dlq'', getQueueByOrderType x]"
      by (subst split_on_append) (simp_all add: split_on_free)
    then show ?thesis by simp
  qed
  have "CHR ''#'' \<notin> set (getDLQRoutingKeyQueueName (getQueueByOrderType ot))"
    using order_type_words(2) [OF t(1)] by (simp add: getDLQRoutingKeyQueueName_def getQueueByOrderType_def)
  then show ?thesis
    using m w t unfolding topic_law_def
    by (auto simp: getDLQRoutingKeyQueueName_def getDLQKeyForQueue_def getQueueByOrderType_def)
qed

section \<open>Every order reaches its kitchen queue and no other\<close>

lemma producer_bindings:
  assumes "amqp w' = amqp w @ ExchangeDeclare (rm_OrderExchange cfg) ''topic'' # ExchangeDeclare dlx_exchange ''topic''
    # concat (map (\<lambda>ot. map snd (queue_commands (rm_OrderExchange cfg) ot)) AllOrderTypes)" "amqp w = []"
  shows "QueueBind q pat ex \<in> set (amqp w') \<longleftrightarrow>
    (\<exists>ot \<in> set AllOrderTypes.
       q = getQueueByOrderType ot \<and> pat = getRoutingkeyByOrderType ot \<and> ex = rm_OrderExchange cfg
       \<or> q = getDLQKeyForQueue (getQueueByOrderType ot)
         \<and> pat = getDLQRoutingKeyQueueName (getQueueByOrderType ot) \<and> ex = dlx_exchange)"
    "ot \<in> set AllOrderTypes \<Longrightarrow>
      QueueDeclare (getQueueByOrderType ot) [(''x-dead-letter-exchange'', dlx_exchange),
        (''x-dead-letter-routing-key'', getDLQKeyForQueue (getQueueByOrderType ot))] \<in> set (amqp w')"
  using assms by (auto simp: queue_commands_def Let_def)

text \<open>
  C17. Routing of orders: after the order producer has initialised the broker, an order of
  any of the three types reaches exactly one queue, the kitchen queue of its type, whatever its
  priority; a message that queue rejects goes through the dead-letter exchange to the
  dead-letter queue of that type and nowhere else.
\<close>

theorem order_routing:
  assumes "topic_law matches" "NewOrderProducer cfg w = (None, w')" "amqp w = []"
    and "rm_OrderExchange cfg \<noteq> dlx_exchange" "co_Type order \<in> set AllOrderTypes"
  shows "set (routed matches (amqp w') (rm_OrderExchange cfg) (createOrderPublishedKey order))
      = {getQueueByOrderType (co_Type order)}
    \<and> (\<exists>key. QueueDeclare (getQueueByOrderType (co_Type order))
             [(''x-dead-letter-exchange'', dlx_exchange), (''x-dead-letter-routing-key'', key)] \<in> set (amqp w')
        \<and> set (routed matches (amqp w') dlx_exchange key)
            = {getDLQKeyForQueue (getQueueByOrderType (co_Type order))})"
proof -
  note b = producer_bindings [OF NewOrderProducer_ok [OF assms(2)] assms(3)]
  have 1: "set (routed matches (amqp w') (rm_OrderExchange cfg) (createOrderPublishedKey order))
      = {getQueueByOrderType (co_Type order)}"
    using assms(4,5) binding_matches [OF assms(1) _ assms(5)] by (auto simp: set_routed b(1))
  let ?key = "getDLQKeyForQueue (getQueueByOrderType (co_Type order))"
  have "set (routed matches (amqp w') dlx_exchange ?key) = {?key}"
    using assms(4,5) dlq_matches [OF assms(1) _ assms(5)] by (auto simp: set_routed b(1))
  with 1 b(2) [OF assms(5)] show ?thesis by blast
qed

definition example_rabbit :: RabbitMQ_cfg where
  "example_rabbit = \<lparr>rm_Conn = \<lparr>rc_Host = ''localhost'', rc_Port = ''5672'', rc_User = ''guest'', rc_Password = ''guest''\<rparr>,
     rm_OrderExchange = ''orders_topic'', rm_NotificationsExchange = ''notifications_fanout'',
     rm_ReconnectAttempt = 5, rm_ReconnectDelay = nanos_per_second\<rparr>"

theorem order_routing_witness:
  "\<exists>w'. NewOrderProducer example_rabbit (start_world []) = (None, w')
     \<and> set (routed topic_match (amqp w') ''orders_topic'' (createOrderPublishedKey example_order)) = {''kitchen_dine_in_queue''}"
proof -
  obtain w' where n: "NewOrderProducer example_rabbit (start_world []) = (None, w')"
    by (simp add: NewOrderProducer_def rabbit_New_def raw_call_def start_world_def channel_send_def
        InitQueuesForOrderTypes_def queue_commands_def Let_def AllOrderTypes_def)
  have "set (routed topic_match (amqp w') (rm_OrderExchange example_rabbit) (createOrderPublishedKey example_order))
      = {getQueueByOrderType (co_Type example_order)}"
    using order_routing [OF topic_match_law n, of example_order]
    by (simp add: start_world_def example_rabbit_def dlx_exchange_def example_order_def AllOrderTypes_def order_type_defs)
  with n show ?thesis by (simp add: example_rabbit_def getQueueByOrderType_def example_order_def)
qed

section \<open>Lost connections\<close>

text \<open>
  The retry helper hides failure: when every attempt fails and the context stays
  alive, it returns nil, as after success, whatever the positive number of attempts.
\<close>

theorem retry_hides_failure:
  assumes "quiet w" and fail: "\<And>u. quiet u \<Longrightarrow> \<exists>e u'. fn u = (Some e, u') \<and> quiet u'"
  shows "\<exists>w'. rabbit_retry attempts delay fn w = (None, w') \<and> quiet w'"
proof -
  have "quiet w \<Longrightarrow> \<exists>w'. retry_left k delay fn w = (None, w') \<and> quiet w'" for k w
  proof (induction k arbitrary: w)
    case (Suc k)
    obtain e w1 where 1: "fn w = (Some e, w1)" "quiet w1" using fail [OF Suc.prems] by blast
    obtain w2 where 2: "wait_or_done delay w1 = (None, w2)" "quiet w2"
      using quiet_wait [OF 1(2)] by blast
    from Suc.IH [OF 2(2)] 1 2 show ?case by simp
  qed simp
  with assms(1) show ?thesis by (simp add: rabbit_retry_def)
qed

theorem retry_hides_failure_witness:
  "\<exists>w'. rabbit_retry 3 nanos_per_second (\<lambda>u. (Some amqp_ErrClosed, u)) (start_world []) = (None, w') \<and> quiet w'"
  by (rule retry_hides_failure) (simp_all add: quiet_def start_world_def)

text \<open>
  C29. Publishing an order is nevertheless honest: nil is returned only over an open
  connection and after exactly one message was handed to the broker, addressed to the order
  exchange under the order's key and carrying the order's priority and content; on an
  error at most that one message was sent. The database is not touched.
\<close>

theorem PublishCreateOrder_honest:
  assumes "PublishCreateOrder cfg ctx (Some order) w = (r, w')"
  shows "db w' = db w
    \<and> (case r of
         None \<Rightarrow> \<not> conn_closed w' \<and> (\<exists>c. order_message cfg ctx order c \<and> amqp w' = amqp w @ [c])
       | Some e \<Rightarrow> amqp w' = amqp w \<or> (\<exists>c. order_message cfg ctx order c \<and> amqp w' = amqp w @ [c]))"
  using PublishCreateOrder_outcome [OF assms] by (cases r) (auto simp: net_only_def)

theorem PublishCreateOrder_honest_witness:
  "\<exists>w' c. PublishCreateOrder example_rabbit None (Some example_order) (start_world []) = (None, w')
     \<and> amqp w' = [c] \<and> order_message example_rabbit None example_order c"
proof -
  obtain w' where p: "PublishCreateOrder example_rabbit None (Some example_order) (start_world []) = (None, w')"
    by (simp add: PublishCreateOrder_def ensure_connected_def IsConnectionClosed_def start_world_def raw_call_def
        FromInternalToPublishOrder_def example_order_def marshal_order_def marshal_item_def
        PublishWithContext_def channel_send_def)
  show ?thesis using PublishCreateOrder_honest [OF p] p by (auto simp: start_world_def)
qed

end
