(* ===== verification/Semaphores.thy ===== *)
theory Semaphores
  imports Prelude
begin

text \<open>
  \<^verbatim>\<open>pkg/semaphore\<close>: a counting semaphore on a buffered channel. The channel carries empty
  structs, so its state is its capacity and its length. The step relation \<open>sem_step\<close> runs
  any number of requests against one semaphore: a request that finds the buffer full blocks
  in its select; a receive from a full buffer hands the slot to a blocked sender if there is
  one; a blocked request may time out.
\<close>

record Semaphore =
  sem_cap :: nat
  sem_len :: nat

text \<open>\<^verbatim>\<open>make\<close> panics on a negative size: \<^const>\<open>None\<close>.\<close>

definition NewSemaphore :: "int \<Rightarrow> Semaphore option" where
  "NewSemaphore limit = (if limit < 0 then None else Some \<lparr>sem_cap = nat limit, sem_len = 0\<rparr>)"

text \<open>Send and receive on the buffer; \<^const>\<open>None\<close> is a goroutine that has to wait.\<close>

definition Acquire :: "Semaphore \<Rightarrow> Semaphore option" where
  "Acquire s = (if sem_len s < sem_cap s then Some (s\<lparr>sem_len := sem_len s + 1\<rparr>) else None)"

definition Release :: "Semaphore \<Rightarrow> Semaphore option" where
  "Release s = (if sem_len s > 0 then Some (s\<lparr>sem_len := sem_len s - 1\<rparr>) else None)"

definition Available :: "Semaphore \<Rightarrow> nat" where
  "Available s = sem_cap s - sem_len s"

definition Used :: "Semaphore \<Rightarrow> nat" where
  "Used s = sem_len s"

text \<open>
  One call of \<^verbatim>\<open>TryAcquire\<close> seen by its caller: \<open>freed\<close> says whether another holder
  releases its slot before the timer fires. A free slot is taken at once, since the timer
  cannot be ready yet.
\<close>

definition peer_release :: "bool \<Rightarrow> Semaphore \<Rightarrow> Semaphore" where
  "peer_release freed s =
     (if freed \<and> sem_len s \<ge> sem_cap s then (case Release s of None \<Rightarrow> s | Some s' \<Rightarrow> s') else s)"

definition TryAcquire :: "bool \<Rightarrow> Semaphore \<Rightarrow> bool \<times> Semaphore" where
  "TryAcquire freed s =
     (case Acquire (peer_release freed s) of
        Some s' \<Rightarrow> (True, s')
      | None \<Rightarrow> (False, peer_release freed s))"

definition wf_sem :: "Semaphore \<Rightarrow> bool" where
  "wf_sem s \<longleftrightarrow> sem_len s \<le> sem_cap s"

lemmas sem_defs = Acquire_def Release_def Available_def Used_def peer_release_def TryAcquire_def
  wf_sem_def

lemma wf_peer_release [wf_intros]: "wf_sem s \<Longrightarrow> wf_sem (peer_release f s)"
  by (auto simp: sem_defs)

lemma wf_TryAcquire [wf_intros]: "wf_sem s \<Longrightarrow> wf_sem (snd (TryAcquire f s))"
  by (auto simp: sem_defs)

lemma Release_TryAcquire:
  "TryAcquire f s = (True, s') \<Longrightarrow> Release s' = Some (peer_release f s)"
  by (auto simp: sem_defs split: if_splits)

lemma TryAcquire_False: "TryAcquire f s = (False, s') \<Longrightarrow> s' = peer_release f s"
  by (auto simp: TryAcquire_def split: option.splits)

section \<open>Many requests against one semaphore\<close>

datatype phase = Arrived | Blocked | Holding | Finished | Refused

record sem_system =
  sys_sem :: Semaphore
  sys_phase :: "phase list"

definition set_phase :: "nat \<Rightarrow> phase \<Rightarrow> sem_system \<Rightarrow> sem_system" where
  "set_phase i p s = s\<lparr>sys_phase := (sys_phase s)[i := p]\<rparr>"

definition in_phase :: "sem_system \<Rightarrow> nat \<Rightarrow> phase \<Rightarrow> bool" where
  "in_phase s i p \<longleftrightarrow> i < length (sys_phase s) \<and> sys_phase s ! i = p"

inductive sem_step :: "sem_system \<Rightarrow> sem_system \<Rightarrow> bool" where
  arrive: "sem_step s (s\<lparr>sys_phase := sys_phase s @ [Arrived]\<rparr>)"
| take_slot: "sem_step s (set_phase i Holding (s\<lparr>sys_sem := m\<rparr>))"
    if "in_phase s i Arrived" "Acquire (sys_sem s) = Some m"
| block: "sem_step s (set_phase i Blocked s)"
    if "in_phase s i Arrived" "Acquire (sys_sem s) = None"
| time_out: "sem_step s (set_phase i Refused s)"
    if "in_phase s i Blocked"
| give_back: "sem_step s (set_phase i Finished (s\<lparr>sys_sem := m\<rparr>))"
    if "in_phase s i Holding" "Blocked \<notin> set (sys_phase s)" "Release (sys_sem s) = Some m"
| hand_over: "sem_step s (set_phase j Holding (set_phase i Finished s))"
    if "in_phase s i Holding" "in_phase s j Blocked" "sem_len (sys_sem s) > 0"

inductive sem_reachable :: "nat \<Rightarrow> sem_system \<Rightarrow> bool" for c where
  init: "sem_reachable c \<lparr>sys_sem = \<lparr>sem_cap = c, sem_len = 0\<rparr>, sys_phase = []\<rparr>"
| step: "sem_reachable c t" if "sem_reachable c s" "sem_step s t"

definition sem_inv :: "nat \<Rightarrow> sem_system \<Rightarrow> bool" where
  "sem_inv c s \<longleftrightarrow> sem_cap (sys_sem s) = c \<and> wf_sem (sys_sem s)
     \<and> count_list (sys_phase s) Holding = sem_len (sys_sem s)
     \<and> (Blocked \<in> set (sys_phase s) \<longrightarrow> sem_len (sys_sem s) = c)"

lemma count_list_update:
  "i < length xs \<Longrightarrow> count_list (xs[i := x]) y + (if xs ! i = y then 1 else 0)
     = count_list xs y + (if x = y then 1 else 0)"
proof (induction xs arbitrary: i)
  case Nil
  then show ?case by simp
next
  case (Cons z xs)
  show ?case
  proof (cases i)
    case 0
    then show ?thesis by simp
  next
    case (Suc k)
    with Cons.prems Cons.IH [of k] show ?thesis by (auto split: if_splits)
  qed
qed

lemma count_phase_update:
  assumes "in_phase s i p"
  shows "count_list ((sys_phase s)[i := q]) y + (if p = y then 1 else 0)
     = count_list (sys_phase s) y + (if q = y then 1 else 0)"
  using assms count_list_update [of i "sys_phase s" q y] by (simp add: in_phase_def)

lemma set_phase_subset: "x \<in> set (xs[i := q]) \<Longrightarrow> x \<noteq> q \<Longrightarrow> x \<in> set xs"
  by (metis insertE set_update_subset_insert subsetD)

lemma sem_step_inv:
  assumes "sem_step s t" "sem_inv c s"
  shows "sem_inv c t"
  using assms
proof (induction rule: sem_step.induct)
  case (arrive s)
  then show ?case by (auto simp: sem_inv_def)
next
  case (take_slot s i m)
  then show ?case using count_phase_update [of s i Arrived Holding Holding]
    by (auto simp: sem_inv_def set_phase_def sem_defs split: if_splits dest: set_phase_subset)
next
  case (block s i)
  then show ?case using count_phase_update [of s i Arrived Blocked Holding]
    by (auto simp: sem_inv_def set_phase_def sem_defs split: if_splits)
next
  case (time_out s i)
  then show ?case using count_phase_update [of s i Blocked Refused Holding]
    by (auto simp: sem_inv_def set_phase_def dest: set_phase_subset)
next
  case (give_back s i m)
  then show ?case using count_phase_update [of s i Holding Finished Holding]
    by (auto simp: sem_inv_def set_phase_def sem_defs split: if_splits dest: set_phase_subset)
next
  case (hand_over s i j)
  let ?u = "set_phase i Finished s"
  have "i \<noteq> j" using hand_over.hyps by (auto simp: in_phase_def)
  then have "in_phase ?u j Blocked" using hand_over.hyps(2) by (simp add: in_phase_def set_phase_def)
  moreover have "Blocked \<in> set (sys_phase s)" using hand_over.hyps(2) by (metis in_phase_def nth_mem)
  ultimately show ?case
    using hand_over count_phase_update [of s i Holding Finished Holding]
      count_phase_update [of ?u j Blocked Holding Holding]
    by (auto simp: sem_inv_def set_phase_def in_phase_def)
qed

lemma sem_reachable_inv: "sem_reachable c s \<Longrightarrow> sem_inv c s"
proof (induction rule: sem_reachable.induct)
  case init
  show ?case by (simp add: sem_inv_def wf_sem_def)
next
  case (step s t)
  then show ?case by (blast intro: sem_step_inv)
qed

text \<open>
  C14. Whatever the order of arrivals, timeouts and releases, at most as many requests as
  the configured maximum hold a slot at the same time; the channel length is exactly their
  number; and a release by a holder never blocks.
\<close>

theorem semaphore_mutual_exclusion:
  assumes "sem_reachable c s"
  shows "count_list (sys_phase s) Holding \<le> c
    \<and> Used (sys_sem s) = count_list (sys_phase s) Holding
    \<and> Available (sys_sem s) + Used (sys_sem s) = c
    \<and> (\<forall>i. in_phase s i Holding \<longrightarrow> Release (sys_sem s) \<noteq> None)"
proof -
  have inv: "sem_inv c s" by (rule sem_reachable_inv [OF assms])
  have "0 < sem_len (sys_sem s)" if "in_phase s i Holding" for i
    using that inv count_notin [of Holding "sys_phase s"]
    by (metis in_phase_def nth_mem sem_inv_def count_list_0_iff gr0I)
  then show ?thesis using inv by (auto simp: sem_inv_def sem_defs)
qed

lemma sem_run_example:
  "sem_reachable 1 \<lparr>sys_sem = \<lparr>sem_cap = 1, sem_len = 1\<rparr>, sys_phase = [Holding, Blocked]\<rparr>"
proof -
  let ?S = "\<lambda>n ps. \<lparr>sys_sem = \<lparr>sem_cap = 1, sem_len = n\<rparr>, sys_phase = ps\<rparr> :: sem_system"
  have "sem_reachable 1 (?S 0 [Arrived])"
    using sem_reachable.step [OF sem_reachable.init sem_step.arrive, of 1] by simp
  from sem_reachable.step [OF this sem_step.take_slot [of _ 0 "\<lparr>sem_cap = 1, sem_len = 1\<rparr>"]]
  have "sem_reachable 1 (?S 1 [Holding])" by (simp add: in_phase_def Acquire_def set_phase_def)
  from sem_reachable.step [OF this sem_step.arrive]
  have "sem_reachable 1 (?S 1 [Holding, Arrived])" by simp
  from sem_reachable.step [OF this sem_step.block [of _ 1]]
  show ?thesis by (simp add: in_phase_def Acquire_def set_phase_def)
qed

theorem semaphore_mutual_exclusion_witness:
  "count_list [Holding, Blocked] Holding \<le> 1 \<and> Used \<lparr>sem_cap = 1, sem_len = 1\<rparr> = 1"
  using semaphore_mutual_exclusion [OF sem_run_example] by simp

text \<open>
  A request is made to wait, and so can be refused, only while every slot is taken.
\<close>

theorem blocked_only_when_full:
  assumes "sem_reachable c s" "in_phase s i Blocked"
  shows "Used (sys_sem s) = c \<and> Available (sys_sem s) = 0"
  using sem_reachable_inv [OF assms(1)] assms(2)
  by (auto simp: sem_inv_def in_phase_def sem_defs dest: nth_mem)

theorem blocked_only_when_full_witness:
  "Used \<lparr>sem_cap = 1, sem_len = 1\<rparr> = 1 \<and> Available \<lparr>sem_cap = 1, sem_len = 1\<rparr> = 0"
  using blocked_only_when_full [OF sem_run_example, of 1] by (simp add: in_phase_def)

text \<open>
  With a maximum of zero, which the configuration accepts, no request ever obtains a
  slot.
\<close>

theorem zero_capacity_refuses_all:
  assumes "NewSemaphore 0 = Some s"
  shows "TryAcquire freed s = (False, s)"
  using assms by (auto simp: NewSemaphore_def sem_defs)

theorem zero_capacity_refuses_all_witness:
  "NewSemaphore 0 = Some \<lparr>sem_cap = 0, sem_len = 0\<rparr>
   \<and> TryAcquire True \<lparr>sem_cap = 0, sem_len = 0\<rparr> = (False, \<lparr>sem_cap = 0, sem_len = 0\<rparr>)"
  using zero_capacity_refuses_all [of "\<lparr>sem_cap = 0, sem_len = 0\<rparr>" True] by (simp add: NewSemaphore_def)

section \<open>The interface the order service relies on\<close>

text \<open>
  What a client of the semaphore may assume: a successful acquisition, released once, leaves
  the state other clients brought about meanwhile; a refusal changes nothing else.
\<close>

locale slot_provider =
  fixes try_acquire :: "'f \<Rightarrow> 's \<Rightarrow> bool \<times> 's"
    and release :: "'s \<Rightarrow> 's option"
    and others :: "'f \<Rightarrow> 's \<Rightarrow> 's"
  assumes acquire_release: "try_acquire f s = (True, s') \<Longrightarrow> release s' = Some (others f s)"
    and refuse: "try_acquire f s = (False, s') \<Longrightarrow> s' = others f s"

interpretation semaphore_slots: slot_provider TryAcquire Release peer_release
  by unfold_locales (auto dest: Release_TryAcquire TryAcquire_False)

end
