(* ===== verification/Calendar.thy ===== *)
theory Calendar
  imports Prelude
begin

text \<open>
  \<^verbatim>\<open>time.Now().UTC().Format("20060102")\<close> of \<^verbatim>\<open>services/order/service.go\<close>: the civil date of an
  instant in the proleptic Gregorian calendar. Days are counted from 1 January of year 1 and
  divided into cycles of 400, 100, 4 and 1 years; the last year of a cycle may be longer, so a
  quotient of 4 is cut off to 3. Instants are nanoseconds since the Unix epoch.
\<close>

definition cut4 :: "int \<Rightarrow> int" where
  "cut4 n = n - n div 4"

definition year_and_day :: "int \<Rightarrow> int \<times> int" where
  "year_and_day z =
     (let d400 = z mod 146097;
          c = cut4 (d400 div 36524); d100 = d400 - 36524 * c;
          q = d100 div 1461; d4 = d100 - 1461 * q;
          r = cut4 (d4 div 365); d1 = d4 - 365 * r
      in (400 * (z div 146097) + 100 * c + 4 * q + r + 1, d1))"

definition is_leap :: "int \<Rightarrow> bool" where
  "is_leap y \<longleftrightarrow> y mod 4 = 0 \<and> (y mod 100 \<noteq> 0 \<or> y mod 400 = 0)"

definition month_and_day :: "int \<Rightarrow> int \<times> int" where
  "month_and_day yday =
     (if yday < 31 then (1, yday + 1) else if yday < 59 then (2, yday - 30)
      else if yday < 90 then (3, yday - 58) else if yday < 120 then (4, yday - 89)
      else if yday < 151 then (5, yday - 119) else if yday < 181 then (6, yday - 150)
      else if yday < 212 then (7, yday - 180) else if yday < 243 then (8, yday - 211)
      else if yday < 273 then (9, yday - 242) else if yday < 304 then (10, yday - 272)
      else if yday < 334 then (11, yday - 303) else (12, yday - 333))"

definition civil_date :: "int \<Rightarrow> int \<times> int \<times> int" where
  "civil_date days =
     (case year_and_day (days + 719162) of
        (y, yday) \<Rightarrow>
          (y, if is_leap y \<and> yday = 59 then (2, 29)
              else month_and_day (if is_leap y \<and> yday > 59 then yday - 1 else yday)))"

definition nanos_per_day :: int where
  "nanos_per_day = 86400 * nanos_per_second"

definition todayDate :: "instant \<Rightarrow> string" where
  "todayDate now =
     (case civil_date (now div nanos_per_day) of
        (y, m, d) \<Rightarrow> fmt_0d 4 y @ fmt_0d 2 m @ fmt_0d 2 d)"

lemma cut4_range:
  assumes "0 < k" "0 \<le> d" "d \<le> 4 * k"
  shows "0 \<le> d - k * cut4 (d div k)" "d - k * cut4 (d div k) \<le> k" "0 \<le> cut4 (d div k)" "cut4 (d div k) \<le> 3"
proof -
  define n m where "n = d div k" "m = d mod k"
  have d: "d = k * n + m" "0 \<le> m" "m < k" using assms(1) by (simp_all add: n_m_def)
  have "0 \<le> n" using assms by (simp add: n_m_def pos_imp_zdiv_nonneg_iff)
  moreover have "n \<le> 4"
  proof (rule ccontr)
    assume "\<not> n \<le> 4"
    then have "k * 5 \<le> k * n" using assms(1) by (intro mult_left_mono) simp_all
    with d assms show False by linarith
  qed
  ultimately consider "n = 0" | "n = 1" | "n = 2" | "n = 3" | "n = 4" by linarith
  then have "0 \<le> d - k * cut4 n \<and> d - k * cut4 n \<le> k \<and> 0 \<le> cut4 n \<and> cut4 n \<le> 3"
    using d assms by cases (simp_all add: cut4_def)
  then show "0 \<le> d - k * cut4 (d div k)" "d - k * cut4 (d div k) \<le> k" "0 \<le> cut4 (d div k)" "cut4 (d div k) \<le> 3"
    by (simp_all add: n_m_def)
qed

lemma div_four_years:
  assumes "0 \<le> d" "d \<le> (36524::int)"
  shows "0 \<le> d - 1461 * (d div 1461)" "d - 1461 * (d div 1461) < 1461" "0 \<le> d div 1461" "d div 1461 \<le> 24"
  using assms zdiv_mono1 [of d 36524 1461]
  by (simp_all add: minus_mult_div_eq_mod pos_imp_zdiv_nonneg_iff)

lemma year_and_day_range:
  assumes "year_and_day z = (y, yday)"
  shows "0 \<le> yday" "yday \<le> 365" "400 * (z div 146097) < y" "y \<le> 400 * (z div 146097) + 400"
proof -
  define d where "d = z mod 146097"
  have d: "0 \<le> d" "d < 146097" by (simp_all add: d_def)
  define c where "c = cut4 (d div 36524)"
  define d1 where "d1 = d - 36524 * c"
  have 1: "0 \<le> d1" "d1 \<le> 36524" "0 \<le> c" "c \<le> 3" using cut4_range [of 36524 d] d by (simp_all add: c_def d1_def)
  define q where "q = d1 div 1461"
  define d4 where "d4 = d1 - 1461 * q"
  have 2: "0 \<le> d4" "d4 < 1461" "0 \<le> q" "q \<le> 24" using div_four_years [OF 1(1,2)] by (simp_all add: q_def d4_def)
  define r where "r = cut4 (d4 div 365)"
  have 3: "0 \<le> d4 - 365 * r" "d4 - 365 * r \<le> 365" "0 \<le> r" "r \<le> 3"
    using cut4_range [of 365 d4] 2 by (simp_all add: r_def)
  have "y = 400 * (z div 146097) + 100 * c + 4 * q + r + 1" "yday = d4 - 365 * r"
    using assms by (simp_all add: year_and_day_def Let_def d_def c_def d1_def q_def d4_def r_def)
  with 1 2 3 show "0 \<le> yday" "yday \<le> 365" "400 * (z div 146097) < y" "y \<le> 400 * (z div 146097) + 400"
    by simp_all
qed

lemma month_and_day_range:
  "0 \<le> yday \<Longrightarrow> yday \<le> 365 \<Longrightarrow> month_and_day yday = (m, d) \<Longrightarrow> 1 \<le> m \<and> m \<le> 12 \<and> 1 \<le> d \<and> d \<le> 32"
  unfolding month_and_day_def by (auto split: if_splits)

lemma length_fmt_0d:
  assumes "0 \<le> i" "i < 10 ^ Suc k"
  shows "length (fmt_0d (Suc k) i) = Suc k"
proof -
  have "nat i < 10 ^ Suc k" using assms by (simp add: nat_less_iff)
  then show ?thesis using length_dec_nat_le [of "nat i" k] assms(1) by (simp add: fmt_0d_def pad0_def)
qed

lemma todayDate_length:
  assumes "0 \<le> now" "now < 2787166 * nanos_per_day"
  shows "length (todayDate now) = 8"
proof -
  define z where "z = now div nanos_per_day + 719162"
  have z: "0 \<le> z div 146097" "z div 146097 \<le> 23"
  proof -
    have "now div nanos_per_day < 2787166"
      using assms(2) zdiv_mono1 [of now "2787166 * nanos_per_day - 1" nanos_per_day] by (simp add: nanos_per_day_def)
    moreover have "0 \<le> now div nanos_per_day" using assms(1) by (simp add: nanos_per_day_def pos_imp_zdiv_nonneg_iff)
    ultimately have "0 \<le> z" "z \<le> 3506327" by (simp_all add: z_def)
    then show "0 \<le> z div 146097" "z div 146097 \<le> 23"
      using zdiv_mono1 [of z 3506327 146097] by (simp_all add: pos_imp_zdiv_nonneg_iff)
  qed
  obtain y yday where yd: "year_and_day z = (y, yday)" by (cases "year_and_day z")
  note r = year_and_day_range [OF yd]
  obtain m d where md: "civil_date (now div nanos_per_day) = (y, m, d)"
    using yd by (cases "snd (civil_date (now div nanos_per_day))") (simp add: civil_date_def z_def)
  have "1 \<le> m \<and> m \<le> 12 \<and> 1 \<le> d \<and> d \<le> 32"
    using md yd r month_and_day_range [of "if is_leap y \<and> yday > 59 then yday - 1 else yday" m d]
    by (auto simp: civil_date_def z_def split: if_splits)
  then show ?thesis
    using r z md length_fmt_0d [of y 3] length_fmt_0d [of m 1] length_fmt_0d [of d 1]
    by (simp add: todayDate_def numeral_2_eq_2)
qed

lemma todayDate_examples:
  "todayDate 0 = ''19700101''" "todayDate (1709164800 * nanos_per_second) = ''20240229''"
  "todayDate (1735689599 * nanos_per_second) = ''20241231''"
  by code_simp+

end
