(* ===== verification/Order_Service.thy ===== *)
theory Order_Service
  imports Order_Contract Routing Semaphores Calendar
begin

text \<open>
  \<^verbatim>\<open>internal/services/order\<close>: the creation of an order. The service is written against the
  interfaces of \<^verbatim>\<open>interface.go\<close>: the record \<open>order_deps\<close> carries the operations it is given,
  and the locale \<open>order_service_env\<close> their contract, interpreted on the PostgreSQL repository
  and the RabbitMQ producer. One call sees the semaphore as its own wait does (whether
  another request frees a slot in time) and draws at most one random number.
\<close>

section \<open>The service\<close>

definition ErrTooManyRequest :: err where
  "ErrTooManyRequest = Sentinel ''order.ErrTooManyRequest'' ''too many requests''"

definition servicename :: string where
  "servicename = ''order-service''"

record order_deps =
  od_Create :: "CreateOrder \<Rightarrow> string \<Rightarrow> string \<Rightarrow> world \<Rightarrow> Order result \<times> world"
  od_GetAndIncrementSequence :: "string \<Rightarrow> world \<Rightarrow> int result \<times> world"
  od_PublishCreateOrder :: "string option \<Rightarrow> CreateOrder option \<Rightarrow> world \<Rightarrow> err option \<times> world"

record order_service =
  sv_sem :: Semaphore
  sv_semWait :: duration
  sv_cfg :: Config

definition NewService :: "Config \<Rightarrow> Semaphore \<Rightarrow> duration \<Rightarrow> order_service" where
  "NewService cfg sem semWait = \<lparr>sv_sem = sem, sv_semWait = nanos_per_second, sv_cfg = cfg\<rparr>"

text \<open>\<open>draw\<close> is the value of \<^verbatim>\<open>rand.Intn(90000)\<close>.\<close>

definition getRandomOrderNumber :: "nat \<Rightarrow> int" where
  "getRandomOrderNumber draw = int (draw mod 90000) + 10000"

text \<open>The loop of \<^verbatim>\<open>retry\<close>: attempts left, delay, call, last error.\<close>

fun order_retry :: "nat \<Rightarrow> duration \<Rightarrow> (world \<Rightarrow> err option \<times> world) \<Rightarrow> err option \<Rightarrow> world \<Rightarrow> err option \<times> world" where
  "order_retry 0 delay fn err w = (err, w)"
| "order_retry (Suc k) delay fn err w =
     (case fn w of
        (None, w1) \<Rightarrow> (None, w1)
      | (Some e, w1) \<Rightarrow> order_retry k delay fn (Some e) (if k = 0 then w1 else sleep delay w1))"

definition retry :: "int \<Rightarrow> duration \<Rightarrow> (world \<Rightarrow> err option \<times> world) \<Rightarrow> world \<Rightarrow> err option \<times> world" where
  "retry attempts delay fn w = order_retry (nat attempts) delay fn None w"

definition prepare_order :: "string \<Rightarrow> int \<Rightarrow> CreateOrder \<Rightarrow> CreateOrder" where
  "prepare_order today number req =
     (CalculatePriority (CalucalteTotalAmount (SetNumber today number req)))\<lparr>co_Status := StatusOrderReceived\<rparr>"

lemma prepared [simp]:
  "co_Status (prepare_order today number req) = StatusOrderReceived"
  "co_Number (prepare_order today number req) = co_Number (SetNumber today number req)"
  by (simp_all add: prepare_order_def CalculatePriority_def CalucalteTotalAmount_def)

text \<open>The body between \<^verbatim>\<open>TryAcquire\<close> and the deferred \<^verbatim>\<open>Release\<close>.\<close>

definition create_with_slot ::
  "order_deps \<Rightarrow> RabbitMQ_cfg \<Rightarrow> string option \<Rightarrow> nat \<Rightarrow> CreateOrder \<Rightarrow> world \<Rightarrow> OrderCreatedInfo result \<times> world" where
  "create_with_slot deps cfg ctx draw req w =
     (let today = todayDate (clock w) in
      case od_GetAndIncrementSequence deps today w of (seq, w1) \<Rightarrow>
      (let number = (case seq of Inr v \<Rightarrow> v | Inl _ \<Rightarrow> getRandomOrderNumber draw);
           req1 = prepare_order today number req in
       case od_Create deps req1 servicename [] w1 of
         (Inl e, w2) \<Rightarrow> (Inl (errorf_w ''failed to create new order: '' e), w2)
       | (Inr order, w2) \<Rightarrow>
           (case retry (rm_ReconnectAttempt cfg) (rm_ReconnectDelay cfg)
                   (od_PublishCreateOrder deps ctx (Some req1)) w2 of
              (Some e, w3) \<Rightarrow> (Inl (errorf_w ''failed to publish order: '' e), w3)
            | (None, w3) \<Rightarrow>
                (Inr \<lparr>oi_Number = or_Number order, oi_Status = or_Status order,
                      oi_TotalAmount = or_TotalAmount order\<rparr>, w3))))"

text \<open>The deferred release of a slot that \<^verbatim>\<open>TryAcquire\<close> took; a receive on an empty channel would wait.\<close>

definition CreateOrder_svc ::
  "order_deps \<Rightarrow> bool \<Rightarrow> nat \<Rightarrow> string option \<Rightarrow> CreateOrder \<Rightarrow> order_service \<Rightarrow> world
    \<Rightarrow> OrderCreatedInfo result \<times> order_service option \<times> world" where
  "CreateOrder_svc deps freed draw ctx req s w =
     (case TryAcquire freed (sv_sem s) of
        (False, sem) \<Rightarrow> (Inl ErrTooManyRequest, Some (s\<lparr>sv_sem := sem\<rparr>), sleep (sv_semWait s) w)
      | (True, sem) \<Rightarrow>
          (case create_with_slot deps (cf_RabbitMQ (sv_cfg s)) ctx draw req w of
             (r, w') \<Rightarrow> (r, map_option (\<lambda>sem'. s\<lparr>sv_sem := sem'\<rparr>) (Release sem), w')))"

text \<open>
  C15. A request never leaks a slot: whatever happens in between, after a request the
  semaphore is as its wait found it; and a request is refused with ErrTooManyRequest exactly when its wait
  ended without a slot, in which case it has touched neither database nor broker.
\<close>

theorem CreateOrder_returns_slot:
  "CreateOrder_svc deps freed draw ctx req s w = (r, s', w') \<Longrightarrow>
     s' = Some (s\<lparr>sv_sem := peer_release freed (sv_sem s)\<rparr>)
     \<and> (r = Inl ErrTooManyRequest \<longleftrightarrow> \<not> fst (TryAcquire freed (sv_sem s)))
     \<and> (r = Inl ErrTooManyRequest \<longrightarrow> db w' = db w \<and> amqp w' = amqp w)"
proof -
  assume c: "CreateOrder_svc deps freed draw ctx req s w = (r, s', w')"
  have served: "create_with_slot deps cfg ctx draw req w = (r, w') \<Longrightarrow> r \<noteq> Inl ErrTooManyRequest" for cfg
    by (auto simp: create_with_slot_def Let_def ErrTooManyRequest_def split: prod.splits sum.splits option.splits)
  show ?thesis
    using c served Release_TryAcquire [of freed "sv_sem s"] TryAcquire_False [of freed "sv_sem s"]
    by (auto simp: CreateOrder_svc_def sleep_def split: prod.splits bool.splits)
qed

section \<open>Contract of the dependencies\<close>

locale order_service_env = order_intake set_status inv status history create next_number last_number
  for set_status :: "string \<Rightarrow> string \<Rightarrow> string \<Rightarrow> string \<Rightarrow> world \<Rightarrow> string result \<times> world"
    and inv :: "world \<Rightarrow> bool" and status :: "world \<Rightarrow> string \<Rightarrow> string option"
    and history :: "world \<Rightarrow> string \<Rightarrow> string list"
    and create :: "CreateOrder \<Rightarrow> string \<Rightarrow> string \<Rightarrow> world \<Rightarrow> Order result \<times> world"
    and next_number :: "string \<Rightarrow> world \<Rightarrow> int result \<times> world"
    and last_number :: "world \<Rightarrow> string \<Rightarrow> int" +
  fixes publish :: "string option \<Rightarrow> CreateOrder option \<Rightarrow> world \<Rightarrow> err option \<times> world"
    and sent :: "world \<Rightarrow> 'm list"
    and carries :: "string option \<Rightarrow> CreateOrder \<Rightarrow> 'm \<Rightarrow> bool"
  assumes publish_keeps: "publish ctx reqp w = (r, w') \<Longrightarrow>
      inv w' = inv w \<and> status w' = status w \<and> history w' = history w \<and> last_number w' = last_number w"
    and publish_ok: "publish ctx (Some req) w = (None, w') \<Longrightarrow> \<exists>m. carries ctx req m \<and> sent w' = sent w @ [m]"
    and publish_err: "publish ctx (Some req) w = (Some e, w') \<Longrightarrow>
      sent w' = sent w \<or> (\<exists>m. carries ctx req m \<and> sent w' = sent w @ [m])"
    and sleep_keeps: "inv (sleep d w) = inv w \<and> status (sleep d w) = status w \<and> history (sleep d w) = history w
      \<and> last_number (sleep d w) = last_number w \<and> sent (sleep d w) = sent w"
    and create_sent: "create req by nt w = (cr, w') \<Longrightarrow> sent w' = sent w"
    and next_sent: "next_number date w = (nr, w') \<Longrightarrow> sent w' = sent w"
begin

abbreviation deps :: order_deps where
  "deps \<equiv> \<lparr>od_Create = create, od_GetAndIncrementSequence = next_number, od_PublishCreateOrder = publish\<rparr>"

lemma retry_publish:
  "order_retry k delay (publish ctx (Some req)) err w = (r, w') \<Longrightarrow>
     inv w' = inv w \<and> status w' = status w \<and> history w' = history w \<and> last_number w' = last_number w
     \<and> (\<exists>ms. sent w' = sent w @ ms \<and> (\<forall>m \<in> set ms. carries ctx req m) \<and> length ms \<le> k
         \<and> (r = None \<longrightarrow> err = None \<and> k = 0 \<or> ms \<noteq> []))"
proof (induction k arbitrary: err w)
  case 0
  then show ?case by auto
next
  case (Suc k)
  obtain r1 w1 where 1: "publish ctx (Some req) w = (r1, w1)" by (cases "publish ctx (Some req) w")
  note keep = publish_keeps [OF 1]
  show ?case
  proof (cases r1)
    case None
    with Suc.prems 1 have "w' = w1" "r = None" by auto
    moreover obtain m where "carries ctx req m" "sent w1 = sent w @ [m]" using publish_ok 1 None by blast
    ultimately show ?thesis using keep by (auto intro!: exI [of _ "[m]"])
  next
    case (Some e)
    define w2 where "w2 = (if k = 0 then w1 else sleep delay w1)"
    have eq: "order_retry k delay (publish ctx (Some req)) (Some e) w2 = (r, w')"
      using Suc.prems 1 Some by (simp add: w2_def)
    have 2: "inv w2 = inv w" "status w2 = status w" "history w2 = history w" "last_number w2 = last_number w" "sent w2 = sent w1"
      using keep sleep_keeps [of delay w1] by (auto simp: w2_def)
    obtain ms where ms: "sent w' = sent w2 @ ms" "\<forall>m \<in> set ms. carries ctx req m" "length ms \<le> k" "r = None \<longrightarrow> ms \<noteq> []"
      "inv w' = inv w" "status w' = status w" "history w' = history w" "last_number w' = last_number w"
      using Suc.IH [OF eq] 2 by auto
    obtain ns where "sent w1 = sent w @ ns" "\<forall>m \<in> set ns. carries ctx req m" "length ns \<le> 1"
      using publish_err 1 Some by fastforce
    with ms 2 show ?thesis by (intro conjI exI [of _ "ns @ ms"]) auto
  qed
qed

lemma create_with_slot_ok:
  assumes i: "inv w" and c: "create_with_slot deps cfg ctx draw req w = (Inr info, w')"
  shows "\<exists>number req1 ms. req1 = prepare_order (todayDate (clock w)) number req
    \<and> oi_Number info = co_Number req1 \<and> oi_Status info = StatusOrderReceived
    \<and> inv w' \<and> status w (co_Number req1) = None
    \<and> status w' = (status w)(co_Number req1 \<mapsto> StatusOrderReceived)
    \<and> history w' = (history w)(co_Number req1 := [StatusOrderReceived])
    \<and> sent w' = sent w @ ms \<and> (\<forall>m \<in> set ms. carries ctx req1 m)
    \<and> (ms = [] \<longleftrightarrow> rm_ReconnectAttempt cfg \<le> 0)"
proof -
  let ?today = "todayDate (clock w)"
  obtain seq w1 where 1: "next_number ?today w = (seq, w1)" by (cases "next_number ?today w")
  define number where "number = (case seq of Inr v \<Rightarrow> v | Inl _ \<Rightarrow> getRandomOrderNumber draw)"
  define req1 where "req1 = prepare_order ?today number req"
  note f1 = next_frame [OF i 1] next_sent [OF 1]
  obtain ord w2 where 2: "create req1 servicename [] w1 = (Inr ord, w2)"
    and 3: "order_retry (nat (rm_ReconnectAttempt cfg)) (rm_ReconnectDelay cfg) (publish ctx (Some req1)) None w2 = (None, w')"
    and info: "info = \<lparr>oi_Number = or_Number ord, oi_Status = or_Status ord, oi_TotalAmount = or_TotalAmount ord\<rparr>"
    using c 1 by (auto simp: create_with_slot_def Let_def retry_def number_def req1_def
        split: prod.splits sum.splits option.splits)
  have st: "co_Status req1 = StatusOrderReceived" by (simp add: req1_def)
  note f2 = create_ok [OF f1(1) st 2] create_sent [OF 2]
  note f3 = retry_publish [OF 3]
  from f3 obtain ms where "sent w' = sent w2 @ ms" "\<forall>m \<in> set ms. carries ctx req1 m"
    "ms = [] \<longleftrightarrow> rm_ReconnectAttempt cfg \<le> 0" by force
  with f1 f2 f3 info show ?thesis
    by (intro exI [of _ number] exI [of _ req1] exI [of _ ms]) (simp add: req1_def)
qed

lemma create_with_slot_err:
  assumes i: "inv w" and c: "create_with_slot deps cfg ctx draw req w = (Inl e, w')"
  shows "\<exists>number req1. req1 = prepare_order (todayDate (clock w)) number req \<and> inv w'
    \<and> last_number w' \<in> {last_number w, (last_number w)(todayDate (clock w) := last_number w (todayDate (clock w)) + 1)}
    \<and> (status w' = status w \<and> history w' = history w \<and> sent w' = sent w
       \<or> status w (co_Number req1) = None
         \<and> status w' = (status w)(co_Number req1 \<mapsto> StatusOrderReceived)
         \<and> history w' = (history w)(co_Number req1 := [StatusOrderReceived])
         \<and> (\<exists>ms. sent w' = sent w @ ms \<and> (\<forall>m \<in> set ms. carries ctx req1 m)))"
proof -
  let ?today = "todayDate (clock w)"
  obtain seq w1 where 1: "next_number ?today w = (seq, w1)" by (cases "next_number ?today w")
  define number where "number = (case seq of Inr v \<Rightarrow> v | Inl _ \<Rightarrow> getRandomOrderNumber draw)"
  define req1 where "req1 = prepare_order ?today number req"
  note f1 = next_frame [OF i 1] next_sent [OF 1]
  obtain cr w2 where 2: "create req1 servicename [] w1 = (cr, w2)" by (cases "create req1 servicename [] w1")
  obtain pr w3 where 3: "order_retry (nat (rm_ReconnectAttempt cfg)) (rm_ReconnectDelay cfg) (publish ctx (Some req1)) None w2 = (pr, w3)"
    by fastforce
  have w': "w' = (case cr of Inl _ \<Rightarrow> w2 | Inr _ \<Rightarrow> w3)"
    using c 1 2 3 by (cases cr; cases pr) (auto simp: create_with_slot_def Let_def retry_def number_def req1_def)
  have st: "co_Status req1 = StatusOrderReceived" by (simp add: req1_def)
  note f3 = retry_publish [OF 3] and f2 = create_sent [OF 2]
  have "last_number w2 = last_number w1" by (cases rule: create_cases [OF f1(1) st 2]) simp_all
  with w' f3 next_moves [OF i 1]
  have f4: "last_number w' \<in> {last_number w, (last_number w)(?today := last_number w ?today + 1)}" by (cases cr) simp_all
  show ?thesis
  proof (cases rule: create_cases [OF f1(1) st 2])
    case (1 e')
    with w' f1 f2 f4 show ?thesis
      by (intro exI [of _ number] exI [of _ req1]) (simp add: req1_def)
  next
    case 2
    with w' f1 f2 f3 f4 show ?thesis
      by (intro exI [of _ number] exI [of _ req1] conjI disjI2; cases cr) (auto simp: req1_def)
  qed
qed

end

section \<open>On PostgreSQL and RabbitMQ\<close>

definition order_deps_impl :: "pg_codec \<Rightarrow> RabbitMQ_cfg \<Rightarrow> order_deps" where
  "order_deps_impl pg cfg = \<lparr>od_Create = Create pg, od_GetAndIncrementSequence = GetAndIncrementSequence,
     od_PublishCreateOrder = PublishCreateOrder cfg\<rparr>"

lemma PublishCreateOrder_db: "PublishCreateOrder cfg ctx reqp w = (r, w') \<Longrightarrow> db w' = db w"
  using PublishCreateOrder_outcome(1) [of cfg ctx _ w r w'] by (cases reqp) (auto simp: PublishCreateOrder_def net_only_def)

interpretation pg_orders: order_service_env SetStatus "\<lambda>w. wf_db (db w)" "\<lambda>w. order_status (db w)"
  "\<lambda>w. order_history (db w)" "Create pg" GetAndIncrementSequence "\<lambda>w. last_sequence (db w)"
  "PublishCreateOrder cfg" amqp "order_message cfg" for pg cfg
proof unfold_locales
  fix ctx reqp w r w'
  assume "PublishCreateOrder cfg ctx reqp w = (r, w')"
  then have "db w' = db w" by (rule PublishCreateOrder_db)
  then show "wf_db (db w') = wf_db (db w) \<and> order_status (db w') = order_status (db w)
      \<and> order_history (db w') = order_history (db w) \<and> last_sequence (db w') = last_sequence (db w)" by simp
next
  show "PublishCreateOrder cfg ctx (Some req) w = (None, w') \<Longrightarrow> \<exists>m. order_message cfg ctx req m \<and> amqp w' = amqp w @ [m]"
    for ctx req w w' using PublishCreateOrder_outcome(2) [of cfg ctx req w None w'] by auto
  show "PublishCreateOrder cfg ctx (Some req) w = (Some e, w') \<Longrightarrow>
      amqp w' = amqp w \<or> (\<exists>m. order_message cfg ctx req m \<and> amqp w' = amqp w @ [m])" for ctx req w e w'
    using PublishCreateOrder_outcome(3) [of cfg ctx req w "Some e" w'] by simp
next
  show "wf_db (db (sleep d w)) = wf_db (db w) \<and> order_status (db (sleep d w)) = order_status (db w)
      \<and> order_history (db (sleep d w)) = order_history (db w)
      \<and> last_sequence (db (sleep d w)) = last_sequence (db w) \<and> amqp (sleep d w) = amqp w" for d w
    by (simp add: sleep_def)
  show "Create pg req by nt w = (cr, w') \<Longrightarrow> amqp w' = amqp w" for req "by" nt w cr w'
    using db_only_Create by (simp add: db_only_def)
  show "GetAndIncrementSequence date w = (nr, w') \<Longrightarrow> amqp w' = amqp w" for date w nr w'
    using db_only_GetAndIncrementSequence by (simp add: db_only_def)
qed

lemma CreateOrder_svc_slot:
  "CreateOrder_svc deps freed draw ctx req s w = (r, s', w') \<Longrightarrow>
     r = Inl ErrTooManyRequest \<and> db w' = db w \<and> amqp w' = amqp w
     \<or> create_with_slot deps (cf_RabbitMQ (sv_cfg s)) ctx draw req w = (r, w')"
  by (auto simp: CreateOrder_svc_def sleep_def split: prod.splits bool.splits)

lemma CreateOrder_stored:
  assumes "wf_db (db w)" "cfg = cf_RabbitMQ (sv_cfg s)"
    and "CreateOrder_svc (order_deps_impl pg cfg) freed draw ctx req s w = (Inr info, s', w')"
  shows "\<exists>number req1 ms. req1 = prepare_order (todayDate (clock w)) number req
    \<and> oi_Number info = co_Number req1 \<and> oi_Status info = StatusOrderReceived
    \<and> wf_db (db w') \<and> order_status (db w) (co_Number req1) = None
    \<and> order_status (db w') = (order_status (db w))(co_Number req1 \<mapsto> StatusOrderReceived)
    \<and> order_history (db w') = (order_history (db w))(co_Number req1 := [StatusOrderReceived])
    \<and> amqp w' = amqp w @ ms \<and> (\<forall>m \<in> set ms. order_message cfg ctx req1 m)
    \<and> (ms = [] \<longleftrightarrow> rm_ReconnectAttempt cfg \<le> 0)"
proof -
  have "create_with_slot (order_deps_impl pg cfg) cfg ctx draw req w = (Inr info, w')"
    using CreateOrder_svc_slot [OF assms(3)] assms(2) by simp
  then show ?thesis
    unfolding order_deps_impl_def by (rule pg_orders.create_with_slot_ok [OF assms(1)])
qed

text \<open>
  C8. A created order is stored and, if the configuration has at least one publishing attempt, announced:
  when the service answers with an order, a new order with that number was stored as received with
  that history, no other order changed, and messages carrying exactly this order were handed to the
  broker (more than one only when replies were lost); with no publishing attempt it
  answers with an order that was announced to nobody.
\<close>

theorem CreateOrder_success:
  assumes "wf_db (db w)" "cfg = cf_RabbitMQ (sv_cfg s)"
    and "CreateOrder_svc (order_deps_impl pg cfg) freed draw ctx req s w = (Inr info, s', w')"
  shows "\<exists>number req1 ms. req1 = prepare_order (todayDate (clock w)) number req
    \<and> oi_Number info = co_Number req1 \<and> oi_Status info = StatusOrderReceived
    \<and> wf_db (db w') \<and> order_status (db w) (co_Number req1) = None
    \<and> order_status (db w') = (order_status (db w))(co_Number req1 \<mapsto> StatusOrderReceived)
    \<and> order_history (db w') = (order_history (db w))(co_Number req1 := [StatusOrderReceived])
    \<and> amqp w' = amqp w @ ms \<and> (\<forall>m \<in> set ms. order_message cfg ctx req1 m)
    \<and> (ms = [] \<longleftrightarrow> rm_ReconnectAttempt cfg \<le> 0)"
  using assms by (rule CreateOrder_stored)

text \<open>
  C12. A failed creation is atomic for the orders: either no status and no history of an order changed and nothing was
  sent, or the order is stored as received (the announcement failed, or the reply of the
  commit was lost) and every message sent carries it; no other order ever changes and the
  tables stay consistent. What a failed creation may leave behind in any case is a step of the day's number
  sequence, and of no other day's.
\<close>

theorem CreateOrder_failure:
  assumes "wf_db (db w)" "cfg = cf_RabbitMQ (sv_cfg s)" "today = todayDate (clock w)"
    and "CreateOrder_svc (order_deps_impl pg cfg) freed draw ctx req s w = (Inl e, s', w')"
  shows "wf_db (db w') \<and>
    last_sequence (db w') \<in> {last_sequence (db w), (last_sequence (db w))(today := last_sequence (db w) today + 1)} \<and>
    (order_status (db w') = order_status (db w) \<and> order_history (db w') = order_history (db w) \<and> amqp w' = amqp w
     \<or> (\<exists>number req1 ms. req1 = prepare_order today number req
         \<and> order_status (db w) (co_Number req1) = None
         \<and> order_status (db w') = (order_status (db w))(co_Number req1 \<mapsto> StatusOrderReceived)
         \<and> order_history (db w') = (order_history (db w))(co_Number req1 := [StatusOrderReceived])
         \<and> amqp w' = amqp w @ ms \<and> (\<forall>m \<in> set ms. order_message cfg ctx req1 m)))"
proof (cases "create_with_slot (order_deps_impl pg cfg) cfg ctx draw req w = (Inl e, w')")
  case True
  from pg_orders.create_with_slot_err [OF assms(1) True [unfolded order_deps_impl_def], folded assms(3)]
  show ?thesis by (elim exE conjE disjE) (simp, blast)
next
  case False
  then show ?thesis using CreateOrder_svc_slot [OF assms(4)] assms(1,2) by simp
qed

end
