(* ===== verification/Validation.thy ===== *)
theory Validation
  imports Domain
begin

text \<open>
  Input validation: \<^verbatim>\<open>pkg/validator\<close> (an error map filled by checks) and
  \<^verbatim>\<open>internal/adapter/http/handler/dto\<close> (the request object and its rules). The error map is
  an association list with distinct keys; Go leaves the iteration order of a map open, so
  \<open>Validator_Error\<close> takes the enumeration as an argument.
\<close>

section \<open>pkg/validator\<close>

record Validator =
  v_Errors :: "(string \<times> string) list"

definition validator_New :: Validator where
  "validator_New = \<lparr>v_Errors = []\<rparr>"

definition Valid :: "Validator \<Rightarrow> bool" where
  "Valid v \<longleftrightarrow> length (v_Errors v) = 0"

definition AddError :: "string \<Rightarrow> string \<Rightarrow> Validator \<Rightarrow> Validator" where
  "AddError key message v =
     (if map_of (v_Errors v) key = None then v\<lparr>v_Errors := v_Errors v @ [(key, message)]\<rparr> else v)"

definition Check :: "bool \<Rightarrow> string \<Rightarrow> string \<Rightarrow> Validator \<Rightarrow> Validator" where
  "Check ok key message v = (if \<not> ok then AddError key message v else v)"

definition PermittedValue :: "'a \<Rightarrow> 'a list \<Rightarrow> bool" where
  "PermittedValue val permittedValues \<longleftrightarrow> List.member permittedValues val"

fun unique_values :: "'a list \<Rightarrow> 'a list \<Rightarrow> 'a list" where
  "unique_values seen [] = seen"
| "unique_values seen (x # xs) = unique_values (if List.member seen x then seen else seen @ [x]) xs"

definition Unique :: "'a list \<Rightarrow> bool" where
  "Unique values \<longleftrightarrow> length values = length (unique_values [] values)"

definition Validator_Error :: "((string \<times> string) list \<Rightarrow> (string \<times> string) list) \<Rightarrow> Validator \<Rightarrow> string" where
  "Validator_Error enum v =
     (if Valid v then []
      else ''validation failed: '' @
        join_with ''; '' (map (\<lambda>(field, e). field @ '': '' @ e) (enum (v_Errors v))))"

definition wf_validator :: "Validator \<Rightarrow> bool" where
  "wf_validator v \<longleftrightarrow> distinct (map fst (v_Errors v))"

lemma Valid_New [simp]: "Valid validator_New"
  by (simp add: Valid_def validator_New_def)

lemma Valid_Check [simp]: "Valid (Check ok k m v) \<longleftrightarrow> ok \<and> Valid v"
  by (auto simp: Valid_def Check_def AddError_def)

lemma wf_validator_New [simp]: "wf_validator validator_New"
  by (simp add: wf_validator_def validator_New_def)

lemma wf_Check [wf_intros]: "wf_validator v \<Longrightarrow> wf_validator (Check ok k m v)"
  by (auto simp: wf_validator_def Check_def AddError_def map_of_eq_None_iff)

text \<open>A check reports its key, and a key already reported keeps its first message.\<close>

lemma map_of_Check:
  "map_of (v_Errors (Check ok k m v)) k' =
     (case map_of (v_Errors v) k' of
        Some old \<Rightarrow> Some old
      | None \<Rightarrow> if \<not> ok \<and> k' = k then Some m else None)"
  by (auto simp: Check_def AddError_def map_add_def split: option.splits)

lemma set_unique_values: "set (unique_values seen xs) = set seen \<union> set xs"
  by (induction xs arbitrary: seen) auto

lemma distinct_unique_values: "distinct seen \<Longrightarrow> distinct (unique_values seen xs)"
  by (induction xs arbitrary: seen) auto

text \<open>
  Unique holds exactly when no value occurs twice.
\<close>

theorem Unique_iff_distinct: "Unique xs \<longleftrightarrow> distinct xs"
proof -
  have "length (unique_values [] xs) = card (set xs)"
    using distinct_card [OF distinct_unique_values [of "[]" xs]] set_unique_values [of "[]" xs]
    by simp
  then show ?thesis by (metis Unique_def card_distinct distinct_card)
qed

section \<open>The request object\<close>

record OrderItem =
  ri_Name :: string
  ri_Quantity :: int
  ri_Price :: float64

record CreateOrderRequest =
  rq_CustomerName :: string
  rq_OrderType :: string
  rq_Items :: "OrderItem list"
  rq_TableNumber :: "int option"
  rq_DeliveryAddress :: "string option"

record CreateOrderResponse =
  rs_OrderNumber :: string
  rs_Status :: string
  rs_TotalAmount :: float64

definition FromRequestToInternalCreateOrder :: "CreateOrderRequest \<Rightarrow> CreateOrder" where
  "FromRequestToInternalCreateOrder req =
     \<lparr>co_Number = [], co_CustomerName = rq_CustomerName req, co_Type = rq_OrderType req,
      co_Items = map (\<lambda>item. \<lparr>ci_Name = ri_Name item, ci_Quantity = ri_Quantity item,
                               ci_Price = ri_Price item\<rparr>) (rq_Items req),
      co_TableNumber = rq_TableNumber req, co_DeliveryAddress = rq_DeliveryAddress req,
      co_TotalAmount = Fin 0, co_Priority = 0, co_Status = []\<rparr>"

section \<open>The rules\<close>

definition ValidOrderTypes :: "string list" where
  "ValidOrderTypes = [OrderTypeDineIn, OrderTypeDelivery, OrderTypeTakeOut]"

text \<open>
  The pattern \<^verbatim>\<open>^[a-zA-Z\s\-']+$\<close>: one or more characters of the class, where \<^verbatim>\<open>\s\<close> is tab,
  newline, form feed, carriage return and space. The class is ASCII, so no multi-byte rune
  matches.
\<close>

definition name_char :: "char \<Rightarrow> bool" where
  "name_char c \<longleftrightarrow> (let n = of_char c :: nat in
     97 \<le> n \<and> n \<le> 122 \<or> 65 \<le> n \<and> n \<le> 90 \<or> List.member [9, 10, 12, 13, 32] n \<or> n = 45 \<or> n = 39)"

definition name_pattern_matches :: "string \<Rightarrow> bool" where
  "name_pattern_matches s \<longleftrightarrow> s \<noteq> [] \<and> list_all name_char s"

definition isValidCustomerName :: "string \<Rightarrow> bool" where
  "isValidCustomerName name =
     (if RuneCountInString name < 1 \<or> RuneCountInString name > 100 then False
      else name_pattern_matches name)"

definition isValidItemName :: "string \<Rightarrow> bool" where
  "isValidItemName item \<longleftrightarrow> RuneCountInString item \<ge> 1 \<and> RuneCountInString item \<le> 50"

definition vaildateOrdertype :: "CreateOrder \<Rightarrow> Validator \<Rightarrow> Validator" where
  "vaildateOrdertype req v =
     (if co_Type req = OrderTypeDineIn then
        (let v1 = Check (co_TableNumber req \<noteq> None) ''table_number''
                    ''required for dine_in orders'' v;
             v2 = (case co_TableNumber req of None \<Rightarrow> v1
                   | Some n \<Rightarrow> Check (n \<ge> 1 \<and> n \<le> 100) ''table_number'' ''must be between 1 and 100'' v1)
         in Check (co_DeliveryAddress req = None) ''delivery_address''
              ''must not be present for dine_in orders'' v2)
      else if co_Type req = OrderTypeDelivery then
        (let v1 = Check (co_DeliveryAddress req \<noteq> None) ''delivery_address''
                    ''required for delivery orders'' v;
             v2 = (case co_DeliveryAddress req of None \<Rightarrow> v1
                   | Some a \<Rightarrow> Check (length a \<ge> 10) ''delivery_address''
                                 ''must be at least 10 characters'' v1)
         in Check (co_TableNumber req = None) ''table_number''
              ''must not be present for delivery orders'' v2)
      else if co_Type req = OrderTypeTakeOut then
        (let v1 = Check (co_TableNumber req = None) ''table_number''
                    ''must not be present for takeout orders'' v
         in Check (co_DeliveryAddress req = None) ''delivery_address''
              ''must not be present for takeout orders'' v1)
      else v)"

definition min_price :: float64 where "min_price = fl (1 / 100)"
definition max_price :: float64 where "max_price = fl (99999 / 100)"

definition validate_item :: "CreateOrderItem \<Rightarrow> Validator \<Rightarrow> Validator" where
  "validate_item item v =
     Check (fleq min_price (ci_Price item) \<and> fleq (ci_Price item) max_price) ''item.Price''
       ''must be between `0.01` and `999.99`''
       (Check (ci_Quantity item \<ge> 1 \<and> ci_Quantity item \<le> 10) ''item.quantity''
          ''must be between 1 and 10''
          (Check (isValidItemName (ci_Name item)) ''item.name'' ''must be between 1-50 characters'' v))"

definition quoted :: "string \<Rightarrow> string" where
  "quoted s = [CHR 0x27] @ s @ [CHR 0x27]"

definition order_type_message :: string where
  "order_type_message = ''must be one of: '' @ quoted ''dine_in'' @ '', '' @ quoted ''takeout''
     @ '', or '' @ quoted ''delivery''"

definition ValidateCreateOrderRequest :: "CreateOrder option \<Rightarrow> Validator \<Rightarrow> Validator" where
  "ValidateCreateOrderRequest reqp v =
     (case reqp of
        None \<Rightarrow> v
      | Some req \<Rightarrow>
          (let v1 = Check (isValidCustomerName (co_CustomerName req)) ''customer_name''
                 ''1-100 characters. Must not contain special characters other than spaces, hyphens, and apostrophes.'' v;
               v2 = Check (PermittedValue (co_Type req) ValidOrderTypes) ''order_type''
                 order_type_message v1;
               v3 = vaildateOrdertype req v2;
               v4 = Check (length (co_Items req) \<ge> 1 \<and> length (co_Items req) \<le> 20) ''items''
                 ''must contain between 1 and 20 items.'' v3
           in fold validate_item (co_Items req) v4))"

section \<open>What an accepted request satisfies\<close>

text \<open>
  The rules, written out without the checks: a name is of ASCII letters, white space, hyphens and
  apostrophes; the length of an address is its number of bytes.
\<close>

definition name_alphabet :: string where
  "name_alphabet = ''abcdefghijklmnopqrstuvwxyzABCDEFGHIJKLMNOPQRSTUVWXYZ -'' @ bytes [39, 9, 10, 12, 13]"

definition acceptable_item :: "CreateOrderItem \<Rightarrow> bool" where
  "acceptable_item it \<longleftrightarrow>
     1 \<le> RuneCountInString (ci_Name it) \<and> RuneCountInString (ci_Name it) \<le> 50
     \<and> 1 \<le> ci_Quantity it \<and> ci_Quantity it \<le> 10
     \<and> (\<exists>p. ci_Price it = Fin p \<and> rnd64 (1 / 100) \<le> p \<and> p \<le> rnd64 (99999 / 100))"

definition acceptable_place :: "CreateOrder \<Rightarrow> bool" where
  "acceptable_place m \<longleftrightarrow>
     co_Type m = ''dine_in'' \<and> co_DeliveryAddress m = None
       \<and> (\<exists>n. co_TableNumber m = Some n \<and> 1 \<le> n \<and> n \<le> 100)
   \<or> co_Type m = ''delivery'' \<and> co_TableNumber m = None
       \<and> (\<exists>a. co_DeliveryAddress m = Some a \<and> 10 \<le> length a)
   \<or> co_Type m = ''takeout'' \<and> co_TableNumber m = None \<and> co_DeliveryAddress m = None"

definition acceptable :: "CreateOrder \<Rightarrow> bool" where
  "acceptable m \<longleftrightarrow>
     1 \<le> length (co_CustomerName m) \<and> length (co_CustomerName m) \<le> 100
     \<and> set (co_CustomerName m) \<subseteq> set name_alphabet
     \<and> acceptable_place m
     \<and> 1 \<le> length (co_Items m) \<and> length (co_Items m) \<le> 20
     \<and> (\<forall>it \<in> set (co_Items m). acceptable_item it)"

lemma name_char_ascii: "name_char c \<Longrightarrow> of_char c < (128::nat)"
  by (auto simp: name_char_def Let_def)

lemma name_char_alphabet: "name_char c \<longleftrightarrow> c \<in> set name_alphabet"
proof -
  let ?codes = "map (of_char :: char \<Rightarrow> nat) name_alphabet"
  have "c \<in> set name_alphabet \<longleftrightarrow> (of_char c :: nat) \<in> set ?codes" by (auto simp: inj_image_mem_iff)
  moreover have "set ?codes = {n. 97 \<le> n \<and> n \<le> 122 \<or> 65 \<le> n \<and> n \<le> 90 \<or> List.member [9, 10, 12, 13, 32] n \<or> n = 45 \<or> n = 39}"
  proof -
    have "set ?codes = set ([97 ..< 123] @ [65 ..< 91] @ [9, 10, 12, 13, 32, 45, 39])" by code_simp
    also have "\<dots> = {n. 97 \<le> n \<and> n \<le> 122 \<or> 65 \<le> n \<and> n \<le> 90 \<or> List.member [9, 10, 12, 13, 32] n \<or> n = 45 \<or> n = 39}"
      unfolding set_append set_upt by auto
    finally show ?thesis .
  qed
  ultimately show ?thesis by (simp add: name_char_def Let_def)
qed

lemma isValidCustomerName_iff:
  "isValidCustomerName s \<longleftrightarrow> 1 \<le> length s \<and> length s \<le> 100 \<and> (\<forall>c \<in> set s. name_char c)"
proof (cases "\<forall>c \<in> set s. name_char c")
  case True
  then have "RuneCountInString s = length s"
    by (auto intro!: RuneCountInString_ascii name_char_ascii simp: list_all_iff)
  with True show ?thesis
    by (auto simp: isValidCustomerName_def name_pattern_matches_def list_all_iff Suc_le_eq)
next
  case False
  then show ?thesis by (auto simp: isValidCustomerName_def name_pattern_matches_def list_all_iff)
qed

lemma price_constants: "min_price = Fin (rnd64 (1 / 100))" "max_price = Fin (rnd64 (99999 / 100))"
proof -
  show "min_price = Fin (rnd64 (1 / 100))"
    using fl_small [of "1 / 100" 0] by (auto simp: min_price_def fl_def Let_def split: if_splits)
  show "max_price = Fin (rnd64 (99999 / 100))"
    using fl_small [of "99999 / 100" 10] by (auto simp: max_price_def fl_def Let_def split: if_splits)
qed

lemma Valid_validate_item [simp]: "Valid (validate_item it v) \<longleftrightarrow> acceptable_item it \<and> Valid v"
  unfolding validate_item_def acceptable_item_def isValidItemName_def price_constants
  by (cases "ci_Price it") auto

lemma Valid_fold_items [simp]:
  "Valid (fold validate_item its v) \<longleftrightarrow> (\<forall>it \<in> set its. acceptable_item it) \<and> Valid v"
  by (induction its arbitrary: v) auto

lemma Valid_vaildateOrdertype:
  "PermittedValue (co_Type m) ValidOrderTypes \<and> Valid (vaildateOrdertype m v)
     \<longleftrightarrow> acceptable_place m \<and> Valid v"
  by (auto simp: vaildateOrdertype_def acceptable_place_def PermittedValue_def ValidOrderTypes_def
      order_type_defs Let_def split: option.splits)

lemma Valid_request:
  "Valid (ValidateCreateOrderRequest (Some m) validator_New) \<longleftrightarrow> acceptable m"
proof -
  have "Valid (ValidateCreateOrderRequest (Some m) validator_New) \<longleftrightarrow>
      isValidCustomerName (co_CustomerName m)
      \<and> (PermittedValue (co_Type m) ValidOrderTypes \<and> Valid (vaildateOrdertype m validator_New))
      \<and> 1 \<le> length (co_Items m) \<and> length (co_Items m) \<le> 20
      \<and> (\<forall>it \<in> set (co_Items m). acceptable_item it)"
    by (auto simp: ValidateCreateOrderRequest_def Let_def vaildateOrdertype_def split: option.splits)
  then show ?thesis
    unfolding Valid_vaildateOrdertype isValidCustomerName_iff acceptable_def name_char_alphabet by auto
qed

text \<open>
  C16. Validation accepts exactly the requests that satisfy the rules as coded: a name of 1 to 100 ASCII letters, white space
  characters, hyphens and apostrophes; an order type with its required and forbidden fields; 1 to 20
  items, each with a name of 1 to 50 runes, a quantity of 1 to 10 and a price between the
  float64 values of 0.01 and 999.99. Where the documented rules say otherwise (ten characters of an
  address, here ten bytes; spaces only, here also tabs and line breaks) the code is followed.
\<close>

theorem ValidateCreateOrderRequest_iff:
  "Valid (ValidateCreateOrderRequest (Some m) validator_New) \<longleftrightarrow> acceptable m"
  by (rule Valid_request)

text \<open>What every check keeps, the whole validation keeps.\<close>

lemma validate_preserves:
  assumes ck: "\<And>b k m w. P w \<Longrightarrow> P (Check b k m w)" and "P v"
  shows "P (ValidateCreateOrderRequest mp v)"
proof -
  have items: "P (fold validate_item its w)" if "P w" for its w
    using that by (induction its arbitrary: w) (simp_all add: validate_item_def ck)
  have type: "P (vaildateOrdertype m w)" if "P w" for m w
    using that by (simp add: vaildateOrdertype_def Let_def ck split: option.splits)
  show ?thesis
    using assms(2) by (simp add: ValidateCreateOrderRequest_def Let_def ck items type split: option.splits)
qed

lemma wf_validate [wf_intros]: "wf_validator v \<Longrightarrow> wf_validator (ValidateCreateOrderRequest mp v)"
  by (rule validate_preserves [where P = wf_validator]) (rule wf_Check)

text \<open>
  The first message stands: an order without a table number in dine-in mode reports
  that the number is required, and no later check overwrites an entry of the error map.
\<close>

theorem Check_first_message_stands:
  assumes "map_of (v_Errors v) k = Some msg"
  shows "map_of (v_Errors (ValidateCreateOrderRequest mp v)) k = Some msg"
  using assms
  by (rule validate_preserves [where P = "\<lambda>w. map_of (v_Errors w) k = Some msg", rotated])
    (simp add: map_of_Check)

theorem Check_first_message_stands_witness:
  "map_of (v_Errors (ValidateCreateOrderRequest (Some example_order)
      (AddError ''items'' ''first'' validator_New))) ''items'' = Some ''first''"
  by (rule Check_first_message_stands) (simp add: AddError_def validator_New_def)

definition cyrillic_address :: string where
  "cyrillic_address = bytes [208, 176, 208, 177, 208, 178, 208, 179, 208, 180]"

text \<open>
  The minimum length of a delivery address is counted in bytes: an address of five
  Cyrillic letters, ten bytes long, passes the check of at least ten characters.
\<close>

theorem delivery_address_counts_bytes:
  "RuneCountInString cyrillic_address = 5
   \<and> Valid (vaildateOrdertype (example_order\<lparr>co_Type := OrderTypeDelivery, co_TableNumber := None,
        co_DeliveryAddress := Some cyrillic_address\<rparr>) validator_New)"
proof
  show "RuneCountInString cyrillic_address = 5" by code_simp
  show "Valid (vaildateOrdertype (example_order\<lparr>co_Type := OrderTypeDelivery, co_TableNumber := None,
        co_DeliveryAddress := Some cyrillic_address\<rparr>) validator_New)"
    by (simp add: vaildateOrdertype_def order_type_defs cyrillic_address_def bytes_def)
qed

end
