(* ===== verification/Repositories.thy ===== *)
theory Repositories
  imports Order_Contract "HOL-Library.Multiset"
begin

text \<open>
  \<^verbatim>\<open>internal/adapter/postgres/worker.go\<close> and \<^verbatim>\<open>status.go\<close>: the worker registry and the
  queries of the tracking service. A query without \<^verbatim>\<open>ORDER BY\<close> returns its rows in the
  order the database chooses: the parameter \<open>plan\<close>, of which only \<open>any_order\<close> is assumed
  where it matters. \<^verbatim>\<open>ORDER BY created_at DESC\<close> sorts whatever the plan delivers, so rows
  with equal timestamps keep the plan's order.
\<close>

section \<open>workerRepository\<close>

definition find_worker :: "database \<Rightarrow> string \<Rightarrow> worker_row option" where
  "find_worker d name = find (\<lambda>r. w_name r = name) (workers d)"

text \<open>\<^verbatim>\<open>UPDATE workers SET ... WHERE name = $1\<close>; the result is \<^verbatim>\<open>RowsAffected\<close>.\<close>

definition update_worker :: "string \<Rightarrow> (worker_row \<Rightarrow> worker_row) \<Rightarrow> database \<Rightarrow> nat result \<times> database" where
  "update_worker name f d =
     (Inr (length (filter (\<lambda>r. w_name r = name) (workers d))),
      d\<lparr>workers := map (\<lambda>r. if w_name r = name then f r else r) (workers d)\<rparr>)"

text \<open>\<open>stale\<close> is the condition of the upsert's \<^verbatim>\<open>WHERE\<close> clause.\<close>

definition stale :: "instant \<Rightarrow> int \<Rightarrow> worker_row \<Rightarrow> bool" where
  "stale now secs r \<longleftrightarrow> w_status r = WorkerOffline \<or> w_last_seen r < now - secs * nanos_per_second"

definition upsert_worker :: "instant \<Rightarrow> string \<Rightarrow> string \<Rightarrow> int \<Rightarrow> database \<Rightarrow> nat result \<times> database" where
  "upsert_worker now name orderTypes secs d =
     (let d' = d\<lparr>next_worker := next_worker d + 1\<rparr> in
      case find_worker d name of
        None \<Rightarrow>
          (Inr 1, d'\<lparr>workers := workers d @
             [\<lparr>w_id = next_worker d, w_created_at = now, w_name = name, w_type = orderTypes,
               w_status = WorkerOnline, w_last_seen = now, w_orders_processed = 0\<rparr>]\<rparr>)
      | Some r \<Rightarrow>
          if stale now secs r
          then (Inr 1, snd (update_worker name
                  (\<lambda>r. r\<lparr>w_status := WorkerOnline, w_type := orderTypes, w_last_seen := now\<rparr>) d'))
          else (Inr 0, d'))"

definition takeover_seconds :: "duration \<Rightarrow> int" where
  "takeover_seconds heartbeat = wrap64 (int64_of_float (Duration_Seconds heartbeat) * 2)"

definition MarkOnline :: "string \<Rightarrow> string \<Rightarrow> duration \<Rightarrow> world \<Rightarrow> err option \<times> world" where
  "MarkOnline name orderTypes heartbeat w =
     (case call w of
        (NoFault, w1) \<Rightarrow>
          (case upsert_worker (clock w1) name orderTypes (takeover_seconds heartbeat) (db w1) of
             (Inl e, d) \<Rightarrow> (Some (errorf_w ''workerRepository.MarkOnline: '' e), w1\<lparr>db := d\<rparr>)
           | (Inr rows, d) \<Rightarrow>
               (if rows = 0 then Some (errorf_v ''workerRepository.MarkOnline: '' ErrWorkerAlreadyOnline)
                else None, w1\<lparr>db := d\<rparr>))
      | (Fail e, w1) \<Rightarrow> (Some (errorf_w ''workerRepository.MarkOnline: '' e), w1)
      | (FailApplied e, w1) \<Rightarrow>
          (Some (errorf_w ''workerRepository.MarkOnline: '' e),
           w1\<lparr>db := snd (upsert_worker (clock w1) name orderTypes (takeover_seconds heartbeat) (db w1))\<rparr>))"

text \<open>The three updates have the same shape: an error is reported with \<^verbatim>\<open>%v\<close>, no row is not found.\<close>

definition exec_update :: "string \<Rightarrow> (world \<Rightarrow> database \<Rightarrow> nat result \<times> database) \<Rightarrow> world \<Rightarrow> err option \<times> world" where
  "exec_update op f w =
     (case exec_auto (f (snd (call w))) w of
        (Inl e, w') \<Rightarrow> (Some (errorf_v op e), w')
      | (Inr rows, w') \<Rightarrow> (if rows = 0 then Some ErrOrderNotFound else None, w'))"

definition UpdateLastSeen :: "string \<Rightarrow> world \<Rightarrow> err option \<times> world" where
  "UpdateLastSeen name =
     exec_update ''workerRepository.UpdateLastSeen: ''
       (\<lambda>w. update_worker name (\<lambda>r. r\<lparr>w_last_seen := clock w\<rparr>))"

definition increment_worker :: "string \<Rightarrow> database \<Rightarrow> nat result \<times> database" where
  "increment_worker name d =
     (if list_all (\<lambda>r. w_name r = name \<longrightarrow> int4 (w_orders_processed r + 1)) (workers d)
      then update_worker name (\<lambda>r. r\<lparr>w_orders_processed := w_orders_processed r + 1\<rparr>) d
      else (Inl (Opaque ''integer out of range''), d))"

definition IncrOrdersProcessed :: "string \<Rightarrow> world \<Rightarrow> err option \<times> world" where
  "IncrOrdersProcessed name =
     exec_update ''workerRepository.IncrOrdersProcessed: '' (\<lambda>_. increment_worker name)"

definition MarkOffline :: "string \<Rightarrow> world \<Rightarrow> err option \<times> world" where
  "MarkOffline name =
     exec_update ''workerRepository.MarkOffline: ''
       (\<lambda>w. update_worker name (\<lambda>r. r\<lparr>w_status := WorkerOffline, w_last_seen := clock w\<rparr>))"

definition scan_worker :: "worker_row \<Rightarrow> Worker" where
  "scan_worker r = \<lparr>wk_Name = w_name r, wk_Status = w_status r, wk_ProcessedOrders = w_orders_processed r,
     wk_LastSeen = w_last_seen r\<rparr>"

text \<open>
  A query and the iteration over its rows: two points at which the connection may fail. \<open>args\<close> is the text
  among its arguments.
\<close>

definition query_rows :: "string \<Rightarrow> string list \<Rightarrow> (database \<Rightarrow> 'r list) \<Rightarrow> world \<Rightarrow> 'r list result \<times> world" where
  "query_rows op args f w =
     (case exec_auto (with_text args (\<lambda>d. (Inr (f d), d))) w of
        (Inl e, w1) \<Rightarrow> (Inl (errorf_v op e), w1)
      | (Inr rows, w1) \<Rightarrow>
          (case call w1 of
             (NoFault, w2) \<Rightarrow> (Inr rows, w2)
           | (Fail e, w2) \<Rightarrow> (Inl (errorf_v op e), w2)
           | (FailApplied e, w2) \<Rightarrow> (Inl (errorf_v op e), w2)))"

definition worker_List :: "(worker_row list \<Rightarrow> worker_row list) \<Rightarrow> world \<Rightarrow> Worker list result \<times> world" where
  "worker_List plan w =
     (case query_rows ''workerRepository.List: '' [] (\<lambda>d. map scan_worker (plan (workers d))) w of
        (Inl e, w') \<Rightarrow> (Inl e, w')
      | (Inr ws, w') \<Rightarrow> (if ws = [] then Inl ErrWorkerNotFound else Inr ws, w'))"

section \<open>statusRepository\<close>

definition joined_logs :: "string \<Rightarrow> database \<Rightarrow> (log_row \<times> order_row) list" where
  "joined_logs orderNumber d =
     [(l, r). l \<leftarrow> order_status_log d, r \<leftarrow> orders d, l_order_id l = o_id r \<and> o_number r = orderNumber]"

definition scan_status :: "log_row \<times> order_row \<Rightarrow> OrderStatus" where
  "scan_status lr = \<lparr>os_OrderNumber = o_number (snd lr), os_Status = l_status (fst lr),
     os_UpdatedAt = l_changed_at (fst lr), os_Completion = o_completed_at (snd lr),
     os_ProcessedBy = o_processed_by (snd lr)\<rparr>"

type_synonym log_plan = "(log_row \<times> order_row) list \<Rightarrow> (log_row \<times> order_row) list"

definition newest_first :: "log_plan \<Rightarrow> log_plan" where
  "newest_first plan rows = sort_key (\<lambda>lr. - l_created_at (fst lr)) (plan rows)"

definition GetCurrent :: "log_plan \<Rightarrow> string \<Rightarrow> world \<Rightarrow> OrderStatus result \<times> world" where
  "GetCurrent plan orderNumber w =
     (case exec_auto (with_text [orderNumber]
              (\<lambda>d. (case newest_first plan (joined_logs orderNumber d) of
                      [] \<Rightarrow> Inl pgx_ErrNoRows | lr # _ \<Rightarrow> Inr (scan_status lr), d))) w of
        (Inl e, w') \<Rightarrow>
          (Inl (if e = pgx_ErrNoRows then ErrOrderNotFound
                else errorf_v ''statusRepository.GetCurrent: '' e), w')
      | (Inr s, w') \<Rightarrow> (Inr s, w'))"

definition scan_history :: "log_row \<times> order_row \<Rightarrow> OrderHistory" where
  "scan_history lr = \<lparr>oh_Status = l_status (fst lr), oh_Timestamp = l_changed_at (fst lr),
     oh_ChangedBy = l_changed_by (fst lr)\<rparr>"

definition ListOrderHistory :: "log_plan \<Rightarrow> string \<Rightarrow> world \<Rightarrow> OrderHistory list result \<times> world" where
  "ListOrderHistory plan orderNumber w =
     (case query_rows ''statusRepository.ListStatusHistory: '' [orderNumber]
             (\<lambda>d. map scan_history (plan (joined_logs orderNumber d))) w of
        (Inl e, w') \<Rightarrow> (Inl e, w')
      | (Inr hs, w') \<Rightarrow> (if hs = [] then Inl ErrOrderNotFound else Inr hs, w'))"

section \<open>The order tables are left alone\<close>

definition workers_only :: "database \<Rightarrow> database \<Rightarrow> bool" where
  "workers_only d d' \<longleftrightarrow> orders d' = orders d \<and> order_items d' = order_items d
     \<and> order_status_log d' = order_status_log d \<and> order_sequences d' = order_sequences d
     \<and> next_order d' = next_order d
     \<and> (distinct (map w_name (workers d)) \<longrightarrow> distinct (map w_name (workers d')))"

lemma workers_only_refl [simp]: "workers_only d d"
  by (simp add: workers_only_def)

lemma workers_only_views:
  assumes "workers_only d d'"
  shows "order_status d' = order_status d" "order_history d' = order_history d"
    "last_sequence d' = last_sequence d" "wf_db d \<Longrightarrow> wf_db d'"
proof -
  have o: "orders d' = orders d" and l: "order_status_log d' = order_status_log d"
    using assms by (simp_all add: workers_only_def)
  show "order_status d' = order_status d" "order_history d' = order_history d" "last_sequence d' = last_sequence d"
    using find_order_same [OF o] l assms
    by (auto simp: order_status_def order_history_def logs_of_def last_sequence_def workers_only_def
        fun_eq_iff split: option.split)
  show "wf_db d \<Longrightarrow> wf_db d'"
    using assms by (fastforce simp: wf_db_def workers_only_def logs_of_def)
qed

lemma update_worker_only:
  "(\<And>r. w_name (f r) = w_name r) \<Longrightarrow> workers_only d (snd (update_worker n f d))"
  by (simp add: workers_only_def update_worker_def comp_def if_distrib [of w_name] cong: if_cong)

lemma upsert_worker_only: "workers_only d (snd (upsert_worker now n ts secs d))"
proof (cases "find_worker d n")
  case None
  then have "\<forall>r \<in> set (workers d). w_name r \<noteq> n" by (auto simp: find_worker_def find_None_iff)
  with None show ?thesis by (auto simp: upsert_worker_def workers_only_def)
next
  case (Some r)
  let ?d' = "d\<lparr>next_worker := next_worker d + 1\<rparr>"
  let ?f = "\<lambda>r. r\<lparr>w_status := WorkerOnline, w_type := ts, w_last_seen := now\<rparr>"
  have "workers_only ?d' (snd (update_worker n ?f ?d'))" by (rule update_worker_only) simp
  then have "workers_only d (snd (update_worker n ?f ?d'))" by (simp add: workers_only_def)
  then show ?thesis using Some by (simp add: upsert_worker_def Let_def workers_only_def)
qed

lemma exec_auto_outcome:
  "exec_auto f w = (r, w') \<Longrightarrow> (r = fst (f (db w)) \<or> (\<exists>e. r = Inl e)) \<and> (db w' = db w \<or> db w' = snd (f (db w)))"
  using call_eqD(1) [of w] by (auto simp: exec_auto_def split: prod.splits fault.splits)

lemma exec_auto_ok: "exec_auto f w = (Inr x, w') \<Longrightarrow> fst (f (db w)) = Inr x \<and> db w' = snd (f (db w))"
  using call_eqD(1) [of w] by (auto simp: exec_auto_def split: prod.splits fault.splits)

lemma exec_update_outcome:
  assumes "exec_update op f w = (r, w')"
  shows "db_only w w'" "db w' = db w \<or> db w' = snd (f (snd (call w)) (db w))"
    "r = None \<Longrightarrow> \<exists>k. fst (f (snd (call w)) (db w)) = Inr (Suc k) \<and> db w' = snd (f (snd (call w)) (db w))"
proof -
  obtain x w1 where x: "exec_auto (f (snd (call w))) w = (x, w1)" by (metis surj_pair)
  have w1: "w1 = w'" using assms x by (auto simp: exec_update_def split: sum.splits if_splits)
  show "db_only w w'" using db_only_exec_auto [OF x] w1 by simp
  show "db w' = db w \<or> db w' = snd (f (snd (call w)) (db w))" using exec_auto_outcome [OF x] w1 by simp
  assume "r = None"
  with assms x obtain k where "x = Inr (Suc k)"
    by (cases x; cases "projr x") (auto simp: exec_update_def split: if_splits)
  with exec_auto_ok [of "f (snd (call w))" w "Suc k" w1] x w1
  show "\<exists>k. fst (f (snd (call w)) (db w)) = Inr (Suc k) \<and> db w' = snd (f (snd (call w)) (db w))" by auto
qed

lemma increment_worker_only: "workers_only d (snd (increment_worker n d))"
  by (simp add: increment_worker_def update_worker_only)

lemma exec_update_only:
  assumes "exec_update op f w = (r, w')" "\<And>u d. workers_only d (snd (f u d))"
  shows "workers_only (db w) (db w')"
  using exec_update_outcome(2) [OF assms(1)] assms(2) [of "db w"] by auto

lemma UpdateLastSeen_only: "UpdateLastSeen n w = (r, w') \<Longrightarrow> workers_only (db w) (db w')"
  unfolding UpdateLastSeen_def by (erule exec_update_only) (rule update_worker_only, simp)

lemma MarkOffline_only: "MarkOffline n w = (r, w') \<Longrightarrow> workers_only (db w) (db w')"
  unfolding MarkOffline_def by (erule exec_update_only) (rule update_worker_only, simp)

lemma IncrOrdersProcessed_only: "IncrOrdersProcessed n w = (r, w') \<Longrightarrow> workers_only (db w) (db w')"
  unfolding IncrOrdersProcessed_def by (erule exec_update_only) (rule increment_worker_only)

lemma MarkOnline_frame:
  assumes "MarkOnline n ts hb w = (r, w')"
  shows "workers_only (db w) (db w')" "db_only w w'"
proof -
  obtain f w1 where c: "call w = (f, w1)" by (cases "call w")
  note d = call_eqD(1) [OF c]
  show "workers_only (db w) (db w')"
    using assms c d upsert_worker_only [of "db w" "clock w1" n ts "takeover_seconds hb"]
    by (cases f) (auto simp: MarkOnline_def split: prod.splits sum.splits)
  show "db_only w w'"
    using assms c db_only_call [OF c] by (cases f) (auto simp: MarkOnline_def split: prod.splits sum.splits)
qed

lemma query_rows_outcome:
  assumes "query_rows op args f w = (r, w')"
  shows "db w' = db w" "db_only w w'" "\<And>x. r = Inr x \<Longrightarrow> x = f (db w)"
proof -
  let ?q = "with_text args (\<lambda>d. (Inr (f d), d))"
  obtain x w1 where x: "exec_auto ?q w = (x, w1)" by (metis surj_pair)
  have "snd (?q (db w)) = db w" "\<And>y. fst (?q (db w)) = Inr y \<Longrightarrow> y = f (db w)" by (auto simp: with_text_def split: if_splits)
  then have w1: "db w1 = db w" "db_only w w1" "\<And>y. x = Inr y \<Longrightarrow> y = f (db w)"
    using exec_auto_outcome [OF x] exec_auto_ok [of ?q w _ w1] db_only_exec_auto [OF x] x by auto
  obtain g w2 where g: "call w1 = (g, w2)" by (cases "call w1")
  have w2: "db w2 = db w1" "db_only w w2"
    using call_eqD [OF g] db_only_call [OF g] w1(2) db_only_trans by blast+
  show "db w' = db w" "db_only w w'" "\<And>x. r = Inr x \<Longrightarrow> x = f (db w)"
    using assms x g w1 w2 by (auto simp: query_rows_def split: sum.splits fault.splits)
qed

section \<open>Reading an order back\<close>

definition any_order :: "('a list \<Rightarrow> 'a list) \<Rightarrow> bool" where
  "any_order plan \<longleftrightarrow> (\<forall>xs. mset (plan xs) = mset xs)"

lemma any_order_Nil: "any_order plan \<Longrightarrow> plan [] = []"
  by (metis any_order_def mset.simps(1) mset_zero_iff)

lemma filter_key_unique:
  "distinct (map f xs) \<Longrightarrow> r \<in> set xs \<Longrightarrow> filter (\<lambda>x. f x = f r) xs = [r]"
  by (induction xs) (auto simp: filter_empty_conv rev_image_eqI)

lemma concat_guard: "concat (map (\<lambda>x. if P x then [f x] else []) xs) = map f (filter P xs)"
  by (induction xs) auto

lemma joined_logs_known:
  assumes wf: "wf_db d" and f: "find_order d n = Some r"
  shows "joined_logs n d = map (\<lambda>l. (l, r)) (logs_of d (o_id r))"
proof -
  have r: "r \<in> set (orders d)" "o_number r = n" using find_order_SomeD [OF f] by auto
  have d: "distinct (map o_number (orders d))" using wf by (simp add: wf_db_def)
  have one: "filter (\<lambda>x. l_order_id l = o_id x \<and> o_number x = n) (orders d)
      = (if l_order_id l = o_id r then [r] else [])" for l
  proof -
    have "filter (\<lambda>x. l_order_id l = o_id x \<and> o_number x = n) (orders d)
        = filter (\<lambda>x. l_order_id l = o_id x) (filter (\<lambda>x. o_number x = o_number r) (orders d))"
      using r(2) by (simp add: conj_commute)
    then show ?thesis using filter_key_unique [OF d r(1)] by simp
  qed
  have "joined_logs n d = concat (map (\<lambda>l. map (Pair l)
      (filter (\<lambda>x. l_order_id l = o_id x \<and> o_number x = n) (orders d))) (order_status_log d))"
    by (simp add: joined_logs_def concat_guard)
  then show ?thesis
    by (simp add: one logs_of_def if_distrib [of "map (Pair _)"] concat_guard cong: if_cong)
qed

lemma joined_logs_unknown: "find_order d n = None \<Longrightarrow> joined_logs n d = []"
  by (auto simp: joined_logs_def find_order_def find_None_iff)

text \<open>
  The log of an order in the sense of time: the newest entry of the log is the last one, and
  it is strictly newer than every other.
\<close>

definition strictly_newest :: "database \<Rightarrow> string \<Rightarrow> bool" where
  "strictly_newest d n \<longleftrightarrow>
     (case find_order d n of None \<Rightarrow> False
      | Some r \<Rightarrow> list_all (\<lambda>l. l_created_at l < l_created_at (last (logs_of d (o_id r))))
                    (butlast (logs_of d (o_id r))))"

lemma hd_sort_key_strict:
  assumes "xs \<noteq> []" "x \<in> set xs" "\<And>y. y \<in> set xs \<Longrightarrow> y \<noteq> x \<Longrightarrow> k x < k y"
  shows "hd (sort_key k xs) = x"
proof (rule ccontr)
  assume a: "hd (sort_key k xs) \<noteq> x"
  obtain y ys where s: "sort_key k xs = y # ys" using assms(1) by (metis length_0_conv length_sort list.exhaust)
  have "sorted (map k (y # ys))" using s by (metis sorted_sort_key)
  moreover have "x \<in> set (y # ys)" "y \<in> set xs" using assms(2) s by (metis set_sort, metis list.set_intros(1) set_sort)
  ultimately show False using a s assms(3) [of y] by auto
qed

lemma newest_first_last:
  assumes wf: "wf_db d" and f: "find_order d n = Some r" and p: "any_order plan" and t: "strictly_newest d n"
  shows "\<exists>rest. newest_first plan (joined_logs n d) = (last (logs_of d (o_id r)), r) # rest"
proof -
  let ?ls = "logs_of d (o_id r)"
  let ?xs = "plan (joined_logs n d)"
  have ne: "?ls \<noteq> []" using wf find_order_SomeD [OF f] by (auto simp: wf_db_def)
  have s: "set ?xs = (\<lambda>l. (l, r)) ` set ?ls"
    using joined_logs_known [OF wf f] p by (metis any_order_def set_map set_mset_mset)
  have old: "l \<in> set ?ls \<Longrightarrow> l \<noteq> last ?ls \<Longrightarrow> l_created_at l < l_created_at (last ?ls)" for l
    using t f ne by (auto simp: strictly_newest_def list_all_iff)
      (metis append_butlast_last_id in_set_conv_decomp insertE set_ConsD Un_iff set_append empty_iff list.set(1))
  have "hd (sort_key (\<lambda>lr. - l_created_at (fst lr)) ?xs) = (last ?ls, r)"
  proof (rule hd_sort_key_strict)
    show "?xs \<noteq> []" "(last ?ls, r) \<in> set ?xs" using s ne by auto
    fix y assume y: "y \<in> set ?xs" "y \<noteq> (last ?ls, r)"
    then obtain l where "l \<in> set ?ls" "y = (l, r)" using s by auto
    with y(2) old [of l] show "- l_created_at (fst (last ?ls, r)) < - l_created_at (fst y)" by simp
  qed
  moreover have "sort_key (\<lambda>lr. - l_created_at (fst lr)) ?xs \<noteq> []"
    using s ne by (metis image_is_empty set_empty set_sort)
  ultimately show ?thesis unfolding newest_first_def by (metis list.collapse)
qed

text \<open>
  The tracking query returns the present: in a well-formed database whose log has a
  strictly newest entry for the order and for a number the server accepts as text, whatever order the database delivers rows in, the
  status found by the query is the status column of the order, and an answer for an
  unknown number is the not-found error.
\<close>

theorem GetCurrent_is_current:
  assumes "wf_db (db w)" "any_order plan" "GetCurrent plan n w = (res, w')"
    and "order_status (db w) n = None \<or> strictly_newest (db w) n" "pg_text n"
  shows "db w' = db w \<and>
    (case res of
       Inr s \<Rightarrow> order_status (db w) n = Some (os_Status s) \<and> os_OrderNumber s = n
     | Inl e \<Rightarrow> quiet w \<longrightarrow> order_status (db w) n = None \<and> e = ErrOrderNotFound)"
proof -
  let ?q = "\<lambda>d. (case newest_first plan (joined_logs n d) of
                   [] \<Rightarrow> Inl pgx_ErrNoRows | lr # _ \<Rightarrow> Inr (scan_status lr), d)"
  have t: "with_text [n] f = f" for f :: "database \<Rightarrow> OrderStatus result \<times> database"
    using assms(5) by (simp add: with_text_def fun_eq_iff)
  obtain x w1 where x: "exec_auto ?q w = (x, w1)" by fastforce
  have w1: "w' = w1" "db w' = db w"
    using assms(3) x exec_auto_outcome [OF x] by (cases x; simp add: GetCurrent_def t)+
  have fs: "x = fst (?q (db w)) \<or> (\<exists>e. x = Inl e)" "quiet w \<Longrightarrow> x = fst (?q (db w))"
    using exec_auto_outcome [OF x] quiet_exec_auto [of w ?q] x by auto
  have res: "res = (case x of Inr s \<Rightarrow> Inr s
      | Inl e \<Rightarrow> Inl (if e = pgx_ErrNoRows then ErrOrderNotFound else errorf_v ''statusRepository.GetCurrent: '' e))"
    using assms(3) x by (cases x) (auto simp: GetCurrent_def t)
  show ?thesis
  proof (cases "find_order (db w) n")
    case None
    then have "fst (?q (db w)) = Inl pgx_ErrNoRows"
      using joined_logs_unknown [OF None] any_order_Nil [OF assms(2)] by (simp add: newest_first_def)
    with fs None w1 res show ?thesis by (cases x) (auto simp: order_status_def)
  next
    case (Some r)
    have q: "fst (?q (db w)) = Inr (scan_status (last (logs_of (db w) (o_id r)), r))"
      using newest_first_last [OF assms(1) Some assms(2)] assms(4) Some by (auto simp: order_status_def)
    have "l_status (last (logs_of (db w) (o_id r))) = o_status r" "o_number r = n"
      using find_order_SomeD [OF Some] assms(1) by (auto simp: wf_db_def)
    with fs Some q w1 res show ?thesis by (cases x) (auto simp: order_status_def scan_status_def)
  qed
qed

definition example_row :: order_row where
  "example_row = \<lparr>o_id = 1, o_created_at = 10, o_updated_at = 20, o_number = ''ORD_20250101_001'',
     o_customer_name = ''Ann'', o_type = ''dine_in'', o_table_number = Some 7, o_delivery_address = None,
     o_total_amount = 4975, o_priority = 1, o_status = StatusOrderCooking, o_processed_by = Some ''chef'',
     o_completed_at = None\<rparr>"

definition example_logs :: "log_row list" where
  "example_logs =
     [\<lparr>l_id = 1, l_created_at = 10, l_order_id = 1, l_status = StatusOrderReceived,
       l_changed_by = ''order-service'', l_changed_at = 10, l_notes = []\<rparr>,
      \<lparr>l_id = 2, l_created_at = 20, l_order_id = 1, l_status = StatusOrderCooking,
       l_changed_by = ''chef'', l_changed_at = 20, l_notes = []\<rparr>]"

definition example_world :: world where
  "example_world = (start_world [])\<lparr>db := empty_db\<lparr>orders := [example_row],
     order_status_log := example_logs, next_order := 2, next_log := 3\<rparr>\<rparr>"

lemma example_world_facts:
  "wf_db (db example_world)" "strictly_newest (db example_world) ''ORD_20250101_001''" "quiet example_world"
  "any_order (rev :: 'a list \<Rightarrow> 'a list)"
  "order_history (db example_world) ''ORD_20250101_001'' = [StatusOrderReceived, StatusOrderCooking]"
  by (simp_all add: wf_db_def strictly_newest_def example_world_def example_row_def example_logs_def
      empty_db_def start_world_def logs_of_def find_order_def quiet_def any_order_def order_history_def)

theorem GetCurrent_is_current_witness:
  "\<exists>s w'. GetCurrent rev ''ORD_20250101_001'' example_world = (Inr s, w') \<and> os_Status s = StatusOrderCooking"
proof -
  obtain res w' where g: "GetCurrent rev ''ORD_20250101_001'' example_world = (res, w')" by (metis surj_pair)
  have "order_status (db example_world) ''ORD_20250101_001'' = Some StatusOrderCooking"
    by (simp add: example_world_def example_row_def start_world_def order_status_def find_order_def)
  then show ?thesis
    using GetCurrent_is_current [OF example_world_facts(1,4) g] example_world_facts(2,3) g
    by (auto simp: list_all_iff split: sum.splits)
qed

text \<open>
  The history query returns every recorded status exactly once, in the order of the
  database's choice; a plan that scans the table in insertion order gives the history itself.
\<close>

theorem ListOrderHistory_complete:
  assumes "wf_db (db w)" "any_order plan" "ListOrderHistory plan n w = (Inr hs, w')"
  shows "mset (map oh_Status hs) = mset (order_history (db w) n) \<and> hs \<noteq> []
    \<and> (plan (joined_logs n (db w)) = joined_logs n (db w) \<longrightarrow> map oh_Status hs = order_history (db w) n)"
proof -
  obtain w1 where "query_rows ''statusRepository.ListStatusHistory: '' [n]
      (\<lambda>d. map scan_history (plan (joined_logs n d))) w = (Inr hs, w1)" and ne: "hs \<noteq> []"
    using assms(3) by (auto simp: ListOrderHistory_def split: prod.splits sum.splits if_splits)
  then have hs: "hs = map scan_history (plan (joined_logs n (db w)))" using query_rows_outcome(3) by blast
  have st: "oh_Status \<circ> scan_history = l_status \<circ> fst" by (auto simp: scan_history_def)
  have "joined_logs n (db w) \<noteq> []" using hs ne any_order_Nil [OF assms(2)] by auto
  then obtain r where f: "find_order (db w) n = Some r" using joined_logs_unknown by fastforce
  have j: "map (l_status \<circ> fst) (joined_logs n (db w)) = order_history (db w) n"
    using joined_logs_known [OF assms(1) f] f by (simp add: order_history_def comp_def)
  have "mset (map oh_Status hs) = image_mset (l_status \<circ> fst) (mset (plan (joined_logs n (db w))))"
    using hs st by simp
  also have "\<dots> = mset (order_history (db w) n)" using assms(2) j by (simp add: any_order_def flip: mset_map)
  finally show ?thesis using ne hs st j by auto
qed

theorem ListOrderHistory_complete_witness:
  "\<exists>hs w'. ListOrderHistory rev ''ORD_20250101_001'' example_world = (Inr hs, w')
     \<and> mset (map oh_Status hs) = {#StatusOrderCooking, StatusOrderReceived#}"
proof -
  obtain hs w' where g: "ListOrderHistory rev ''ORD_20250101_001'' example_world = (Inr hs, w')"
    by (simp add: ListOrderHistory_def query_rows_def with_text_def exec_auto_def call_def raw_call_def example_world_def
        start_world_def joined_logs_def example_row_def example_logs_def)
  then show ?thesis
    using ListOrderHistory_complete [OF example_world_facts(1,4) g] example_world_facts(5)
    by (auto simp: add_mset_commute)
qed

end
