(* ===== verification/Registry.thy ===== *)
theory Registry
  imports Repositories "HOL-Library.Sublist"
begin

text \<open>
  The worker registry as the kitchen worker sees it (\<^verbatim>\<open>WorkerRepository\<close> of
  \<^verbatim>\<open>services/kitchen/interface.go\<close>): a locale with its laws, interpreted on the repository,
  the exclusion of two live workers of one name, and the invariant of the database over
  every sequence of repository calls.
\<close>

section \<open>Views and effects\<close>

definition worker_online :: "database \<Rightarrow> string \<Rightarrow> bool" where
  "worker_online d name = (case find_worker d name of None \<Rightarrow> False | Some r \<Rightarrow> w_status r = WorkerOnline)"

definition orders_processed_by :: "database \<Rightarrow> string \<Rightarrow> int option" where
  "orders_processed_by d name = map_option w_orders_processed (find_worker d name)"

lemma find_update_worker:
  assumes "\<And>r. w_name (f r) = w_name r"
  shows "find_worker (snd (update_worker n f d)) m =
    (if m = n then map_option f (find_worker d n) else find_worker d m)"
proof -
  have "find (\<lambda>r. w_name r = m) (map (\<lambda>r. if w_name r = n then f r else r) xs) =
    (if m = n then map_option f (find (\<lambda>r. w_name r = n) xs) else find (\<lambda>r. w_name r = m) xs)" for xs
    using assms by (induction xs) auto
  then show ?thesis by (simp add: find_worker_def update_worker_def)
qed

lemma update_worker_rows: "fst (update_worker n f d) = Inr k \<Longrightarrow> 0 < k \<longleftrightarrow> find_worker d n \<noteq> None"
  by (auto simp: update_worker_def find_worker_def find_None_iff filter_empty_conv)

lemma find_upsert_worker:
  assumes "upsert_worker now n ts secs d = (Inr k, d')"
  shows "k = 0 \<longleftrightarrow> (\<exists>r. find_worker d n = Some r \<and> \<not> stale now secs r)"
    "k = 0 \<Longrightarrow> find_worker d' = find_worker d"
    "0 < k \<Longrightarrow> \<exists>r. find_worker d' n = Some r \<and> w_status r = WorkerOnline \<and> w_type r = ts \<and> w_last_seen r = now
       \<and> w_orders_processed r = (case find_worker d n of None \<Rightarrow> 0 | Some r0 \<Rightarrow> w_orders_processed r0)"
    "m \<noteq> n \<Longrightarrow> find_worker d' m = find_worker d m"
proof -
  have fw: "find_worker (d\<lparr>next_worker := x\<rparr>) = find_worker d" for x by (simp add: find_worker_def fun_eq_iff)
  note u = find_update_worker [of "\<lambda>r. r\<lparr>w_status := WorkerOnline, w_type := ts, w_last_seen := now\<rparr>"]
  show "k = 0 \<longleftrightarrow> (\<exists>r. find_worker d n = Some r \<and> \<not> stale now secs r)" "k = 0 \<Longrightarrow> find_worker d' = find_worker d"
    using assms by (auto simp: upsert_worker_def Let_def fw split: option.splits if_splits)
  show "0 < k \<Longrightarrow> \<exists>r. find_worker d' n = Some r \<and> w_status r = WorkerOnline \<and> w_type r = ts \<and> w_last_seen r = now
       \<and> w_orders_processed r = (case find_worker d n of None \<Rightarrow> 0 | Some r0 \<Rightarrow> w_orders_processed r0)"
    using assms
    by (auto simp: upsert_worker_def Let_def u fw split: option.splits if_splits)
      (simp add: find_worker_def find_snoc)
  show "m \<noteq> n \<Longrightarrow> find_worker d' m = find_worker d m"
    using assms by (auto simp: upsert_worker_def Let_def u fw split: option.splits if_splits)
      (simp add: find_worker_def find_snoc split: option.splits)
qed

lemma MarkOnline_ok:
  assumes "MarkOnline n ts hb w = (None, w')"
  obtains now where "clock w \<le> now"
    "upsert_worker now n ts (takeover_seconds hb) (db w) = (Inr 1, db w')"
proof -
  obtain f w1 where c: "call w = (f, w1)" by (cases "call w")
  obtain x d where u: "upsert_worker (clock w1) n ts (takeover_seconds hb) (db w1) = (x, d)" by fastforce
  have "x = Inr 0 \<or> x = Inr 1" using u by (auto simp: upsert_worker_def Let_def split: option.splits if_splits)
  with assms c u have "f = NoFault \<and> x = Inr 1 \<and> db w' = d"
    by (cases f) (auto simp: MarkOnline_def)
  with u call_eqD [OF c] call_clock [OF c] show thesis using that [of "clock w1"] by simp
qed

lemma exec_update_found:
  assumes "exec_update op (\<lambda>u. update_worker n (f u)) w = (None, w')" "\<And>u r. w_name (f u r) = w_name r"
  shows "find_worker (db w) n \<noteq> None"
    "find_worker (db w') m = (if m = n then map_option (f (snd (call w))) (find_worker (db w) n) else find_worker (db w) m)"
proof -
  obtain k where k: "fst (update_worker n (f (snd (call w))) (db w)) = Inr (Suc k)"
    "db w' = snd (update_worker n (f (snd (call w))) (db w))"
    using exec_update_outcome(3) [OF assms(1)] by auto
  show "find_worker (db w) n \<noteq> None" using update_worker_rows [OF k(1)] by simp
  show "find_worker (db w') m = (if m = n then map_option (f (snd (call w))) (find_worker (db w) n) else find_worker (db w) m)"
    using find_update_worker [of "f (snd (call w))" n "db w" m] assms(2) k(2) by simp
qed

lemma IncrOrdersProcessed_ok:
  assumes "IncrOrdersProcessed n w = (None, w')"
  shows "\<exists>k. orders_processed_by (db w) n = Some k
    \<and> orders_processed_by (db w') = (orders_processed_by (db w))(n \<mapsto> k + 1)"
proof -
  let ?f = "\<lambda>r. r\<lparr>w_orders_processed := w_orders_processed r + 1\<rparr>"
  obtain k where k: "fst (increment_worker n (db w)) = Inr (Suc k)" "db w' = snd (increment_worker n (db w))"
    using exec_update_outcome(3) [OF assms [unfolded IncrOrdersProcessed_def]] by auto
  then have u: "fst (update_worker n ?f (db w)) = Inr (Suc k)" "db w' = snd (update_worker n ?f (db w))"
    by (auto simp: increment_worker_def split: if_splits)
  obtain r where r: "find_worker (db w) n = Some r" using update_worker_rows [OF u(1)] by auto
  have "find_worker (db w') m = (if m = n then Some (?f r) else find_worker (db w) m)" for m
    using find_update_worker [of ?f n "db w" m] u(2) r by simp
  with r show ?thesis by (auto simp: orders_processed_by_def fun_eq_iff)
qed

lemma MarkOffline_ok:
  assumes "MarkOffline n w = (None, w')"
  shows "find_worker (db w) n \<noteq> None" "\<not> worker_online (db w') n"
    "orders_processed_by (db w') = orders_processed_by (db w)"
proof -
  let ?f = "\<lambda>u r. r\<lparr>w_status := WorkerOffline, w_last_seen := clock u\<rparr>"
  note f = exec_update_found [OF assms [unfolded MarkOffline_def]]
  show "find_worker (db w) n \<noteq> None" by (rule f) simp
  have g: "find_worker (db w') m = (if m = n then map_option (?f (snd (call w))) (find_worker (db w) n) else find_worker (db w) m)" for m
    by (rule f) simp
  show "\<not> worker_online (db w') n"
    by (auto simp: worker_online_def g worker_status_defs split: option.splits)
  show "orders_processed_by (db w') = orders_processed_by (db w)"
    by (auto simp: orders_processed_by_def g fun_eq_iff option.map_comp comp_def)
qed

section \<open>The contract\<close>

locale worker_registry =
  fixes mark_online :: "string \<Rightarrow> string \<Rightarrow> duration \<Rightarrow> 'w \<Rightarrow> err option \<times> 'w"
    and mark_offline :: "string \<Rightarrow> 'w \<Rightarrow> err option \<times> 'w"
    and last_seen :: "string \<Rightarrow> 'w \<Rightarrow> err option \<times> 'w"
    and incr_processed :: "string \<Rightarrow> 'w \<Rightarrow> err option \<times> 'w"
    and inv :: "'w \<Rightarrow> bool"
    and online :: "'w \<Rightarrow> string \<Rightarrow> bool"
    and processed :: "'w \<Rightarrow> string \<Rightarrow> int option"
  assumes online_ok: "inv w \<Longrightarrow> mark_online n ts hb w = (None, w') \<Longrightarrow> online w' n \<and> processed w' n \<noteq> None"
    and offline_ok: "inv w \<Longrightarrow> mark_offline n w = (None, w') \<Longrightarrow> \<not> online w' n \<and> processed w' = processed w"
    and incr_ok: "inv w \<Longrightarrow> incr_processed n w = (None, w') \<Longrightarrow>
      \<exists>k. processed w n = Some k \<and> processed w' = (processed w)(n \<mapsto> k + 1)"
    and keeps: "inv w \<Longrightarrow> mark_online n ts hb w = (r, w') \<Longrightarrow> inv w'"
      "inv w \<Longrightarrow> mark_offline n w = (r, w') \<Longrightarrow> inv w'"
      "inv w \<Longrightarrow> last_seen n w = (r, w') \<Longrightarrow> inv w'"
      "inv w \<Longrightarrow> incr_processed n w = (r, w') \<Longrightarrow> inv w'"
begin

text \<open>A shift: sign on, process one order, sign off.\<close>

lemma shift:
  assumes "inv w" "mark_online n ts hb w = (None, w1)" "incr_processed n w1 = (None, w2)"
    "mark_offline n w2 = (None, w3)"
  shows "inv w3" "\<not> online w3 n" "\<exists>k. processed w1 n = Some k \<and> processed w3 n = Some (k + 1)"
proof -
  have i: "inv w1" "inv w2" "inv w3" using keeps assms by blast+
  then show "inv w3" "\<not> online w3 n" using offline_ok [OF _ assms(4)] by auto
  show "\<exists>k. processed w1 n = Some k \<and> processed w3 n = Some (k + 1)"
    using incr_ok [OF i(1) assms(3)] offline_ok [OF i(2) assms(4)] by auto
qed

end

interpretation pg_workers: worker_registry MarkOnline MarkOffline UpdateLastSeen IncrOrdersProcessed
  "\<lambda>w. wf_db (db w)" "\<lambda>w. worker_online (db w)" "\<lambda>w. orders_processed_by (db w)"
proof unfold_locales
  fix w w' :: world and n ts hb
  assume "MarkOnline n ts hb w = (None, w')"
  then obtain now where u: "upsert_worker now n ts (takeover_seconds hb) (db w) = (Inr 1, db w')"
    by (rule MarkOnline_ok)
  show "worker_online (db w') n \<and> orders_processed_by (db w') n \<noteq> None"
    using find_upsert_worker(3) [OF u] by (auto simp: worker_online_def orders_processed_by_def)
next
  fix w w' :: world and n
  show "MarkOffline n w = (None, w') \<Longrightarrow>
      \<not> worker_online (db w') n \<and> orders_processed_by (db w') = orders_processed_by (db w)"
    using MarkOffline_ok(2,3) [of n w w'] by simp
  show "IncrOrdersProcessed n w = (None, w') \<Longrightarrow> \<exists>k. orders_processed_by (db w) n = Some k
      \<and> orders_processed_by (db w') = (orders_processed_by (db w))(n \<mapsto> k + 1)"
    by (rule IncrOrdersProcessed_ok)
next
  fix w w' :: world and n ts hb r
  assume wf: "wf_db (db w)"
  show "MarkOnline n ts hb w = (r, w') \<Longrightarrow> wf_db (db w')"
    by (rule workers_only_views(4) [OF MarkOnline_frame(1) wf])
  show "MarkOffline n w = (r, w') \<Longrightarrow> wf_db (db w')" by (rule workers_only_views(4) [OF MarkOffline_only wf])
  show "UpdateLastSeen n w = (r, w') \<Longrightarrow> wf_db (db w')" by (rule workers_only_views(4) [OF UpdateLastSeen_only wf])
  show "IncrOrdersProcessed n w = (r, w') \<Longrightarrow> wf_db (db w')"
    by (rule workers_only_views(4) [OF IncrOrdersProcessed_only wf])
qed

section \<open>Two workers of one name\<close>

lemma takeover_whole_seconds:
  assumes "0 \<le> k" "k < 2 ^ 52"
  shows "takeover_seconds (k * nanos_per_second) = 2 * k"
  using int64_of_whole_units [of nanos_per_second k] assms by (simp add: takeover_seconds_def)

text \<open>
  C26. A worker name is exclusive while its holder is alive: over a database that answers and with a heartbeat of k whole
  seconds, registration succeeds exactly when the name is new, offline, or was last seen
  more than 2k seconds ago; on success the worker is online and seen now, on refusal the
  registry is unchanged and the error does not match ErrWorkerAlreadyOnline under
  errors.Is, because it is formatted with the verb v. The task description refuses every name that is marked online; the
  code takes a silent one over.
\<close>

theorem MarkOnline_exclusive:
  assumes q: "quiet w" and k: "0 \<le> k" "k < 2 ^ 52"
    and m: "MarkOnline n ts (k * nanos_per_second) w = (r, w')"
  shows "(r = None \<longleftrightarrow>
      (case find_worker (db w) n of None \<Rightarrow> True
       | Some row \<Rightarrow> w_status row = WorkerOffline
           \<or> w_last_seen row + 2 * k * nanos_per_second < clock (snd (call w))))
    \<and> (case r of
         None \<Rightarrow> worker_online (db w') n
           \<and> map_option w_last_seen (find_worker (db w') n) = Some (clock (snd (call w)))
       | Some e \<Rightarrow> find_worker (db w') = find_worker (db w) \<and> \<not> errors_is e ErrWorkerAlreadyOnline)"
proof -
  obtain w1 where c: "call w = (NoFault, w1)" using quiet_call [OF q] by blast
  have d: "db w1 = db w" using call_eqD [OF c] by simp
  obtain x d' where u: "upsert_worker (clock w1) n ts (2 * k) (db w) = (x, d')" by fastforce
  have "x = Inr 0 \<or> x = Inr 1" using u by (auto simp: upsert_worker_def Let_def split: option.splits if_splits)
  then obtain j where j: "x = Inr j" "j = 0 \<or> j = 1" by blast
  have r: "r = (if j = 0 then Some (errorf_v ''workerRepository.MarkOnline: '' ErrWorkerAlreadyOnline) else None)"
    "db w' = d'"
    using m c d u j takeover_whole_seconds [OF k] by (auto simp: MarkOnline_def)
  note f = find_upsert_worker [OF u [unfolded j(1)]]
  have "(r = None) \<longleftrightarrow> \<not> (\<exists>row. find_worker (db w) n = Some row \<and> \<not> stale (clock w1) (2 * k) row)"
    using r f(1) by simp
  moreover have "r \<noteq> None \<Longrightarrow> find_worker (db w') = find_worker (db w)" using r f(2) by (auto split: if_splits)
  moreover have "r = None \<Longrightarrow> worker_online (db w') n \<and> map_option w_last_seen (find_worker (db w') n) = Some (clock w1)"
    using r f(3) j(2) by (auto simp: worker_online_def split: if_splits)
  ultimately show ?thesis
    using c r(1) by (auto simp: stale_def ErrWorkerAlreadyOnline_def split: option.splits if_splits)
qed

theorem MarkOnline_exclusive_witness:
  "\<exists>r w'. MarkOnline ''chef'' ''dine_in'' (30 * nanos_per_second) (start_world []) = (r, w')
     \<and> r = None \<and> worker_online (db w') ''chef''"
proof -
  obtain r w' where m: "MarkOnline ''chef'' ''dine_in'' (30 * nanos_per_second) (start_world []) = (r, w')"
    by fastforce
  have q: "quiet (start_world [])" by (simp add: quiet_def start_world_def)
  have "find_worker (db (start_world [])) ''chef'' = None"
    by (simp add: find_worker_def start_world_def empty_db_def)
  then show ?thesis using MarkOnline_exclusive [OF q _ _ m] m by auto
qed

section \<open>Sequences of repository calls\<close>

datatype repo_call =
    RCreate CreateOrder string string
  | RSequence string
  | RSetStatus string string string string
  | RMarkOnline string string duration
  | RMarkOffline string
  | RUpdateLastSeen string
  | RIncrOrdersProcessed string

fun repo_exec :: "pg_codec \<Rightarrow> repo_call \<Rightarrow> world \<Rightarrow> world" where
  "repo_exec pg (RCreate req changedBy notes) w = snd (Create pg req changedBy notes w)"
| "repo_exec pg (RSequence date) w = snd (GetAndIncrementSequence date w)"
| "repo_exec pg (RSetStatus n wn st nt) w = snd (SetStatus n wn st nt w)"
| "repo_exec pg (RMarkOnline n ts hb) w = snd (MarkOnline n ts hb w)"
| "repo_exec pg (RMarkOffline n) w = snd (MarkOffline n w)"
| "repo_exec pg (RUpdateLastSeen n) w = snd (UpdateLastSeen n w)"
| "repo_exec pg (RIncrOrdersProcessed n) w = snd (IncrOrdersProcessed n w)"

fun received_only :: "repo_call \<Rightarrow> bool" where
  "received_only (RCreate req _ _) = (co_Status req = StatusOrderReceived)"
| "received_only _ = True"

definition grows :: "database \<Rightarrow> database \<Rightarrow> bool" where
  "grows d d' \<longleftrightarrow> wf_db d' \<and> (\<forall>n. prefix (order_history d n) (order_history d' n)
     \<and> (order_status d n \<noteq> None \<longrightarrow> order_status d' n \<noteq> None))"

lemma grows_same: "wf_db d' \<Longrightarrow> order_status d' = order_status d \<Longrightarrow> order_history d' = order_history d \<Longrightarrow> grows d d'"
  by (simp add: grows_def)

lemma history_unknown: "order_status d n = None \<Longrightarrow> order_history d n = []"
  by (auto simp: order_status_def order_history_def)

lemma workers_only_grows: "wf_db d \<Longrightarrow> workers_only d d' \<Longrightarrow> grows d d'"
  using workers_only_views by (simp add: grows_same)

lemma repo_exec_grows:
  assumes wf: "wf_db (db w)" and c: "received_only c"
  shows "grows (db w) (db (repo_exec pg c w))"
proof (cases c)
  case (RCreate req "by" nt)
  obtain r w' where e: "Create pg req by nt w = (r, w')" by fastforce
  have st: "co_Status req = StatusOrderReceived" using c RCreate by simp
  show ?thesis
    using RCreate e
    by (cases rule: pg_intake.create_cases [OF wf st e])
      (auto simp: grows_def history_unknown)
next
  case (RSequence date)
  obtain r w' where e: "GetAndIncrementSequence date w = (r, w')" by fastforce
  show ?thesis using pg_intake.next_frame [OF wf e] e RSequence by (simp add: grows_same)
next
  case (RSetStatus n wn st nt)
  obtain r w' where e: "SetStatus n wn st nt w = (r, w')" by fastforce
  show ?thesis using RSetStatus e by (cases rule: pg_store.set_cases [OF wf e]) (auto simp: grows_def)
next
  case (RMarkOnline n ts hb)
  then show ?thesis using MarkOnline_frame(1) [OF surjective_pairing] by (simp add: workers_only_grows wf)
next
  case (RMarkOffline n)
  then show ?thesis using MarkOffline_only [OF surjective_pairing] by (simp add: workers_only_grows wf)
next
  case (RUpdateLastSeen n)
  then show ?thesis using UpdateLastSeen_only [OF surjective_pairing] by (simp add: workers_only_grows wf)
next
  case (RIncrOrdersProcessed n)
  then show ?thesis using IncrOrdersProcessed_only [OF surjective_pairing] by (simp add: workers_only_grows wf)
qed

lemma grows_trans: "grows a b \<Longrightarrow> grows b c \<Longrightarrow> grows a c"
  by (auto simp: grows_def intro: prefix_order.order_trans)

lemma repo_run_grows:
  "wf_db (db w) \<Longrightarrow> list_all received_only cs \<Longrightarrow> grows (db w) (db (fold (repo_exec pg) cs w))"
proof (induction cs arbitrary: w)
  case Nil
  then show ?case by (simp add: grows_def)
next
  case (Cons c cs)
  have g: "grows (db w) (db (repo_exec pg c w))" using Cons.prems by (intro repo_exec_grows) simp_all
  then have "wf_db (db (repo_exec pg c w))" by (simp add: grows_def)
  with Cons.IH [of "repo_exec pg c w"] Cons.prems g show ?case by (auto intro: grows_trans)
qed

text \<open>
  C10. The database stays consistent under every sequence of repository calls that creates orders as received, as the order
  service does, and every behaviour of the database connection, lost replies included: ids, numbers and worker
  names stay unique, every log entry and item belongs to an order, the status of an order is the
  last one logged for it, no order disappears and no logged status is ever lost or
  rewritten. (An order created with another status would be logged as received all the same.)
\<close>

theorem repository_invariant:
  assumes "list_all received_only cs" "list_all received_only cs'"
    and "w = fold (repo_exec pg) cs (start_world es)" "w' = fold (repo_exec pg) cs' w"
  shows "wf_db (db w) \<and> wf_db (db w')
    \<and> (\<forall>n. prefix (order_history (db w) n) (order_history (db w') n)
        \<and> (order_status (db w) n \<noteq> None \<longrightarrow> order_status (db w') n = Some (last (order_history (db w') n))))"
proof -
  have 1: "wf_db (db w)"
    using repo_run_grows [of "start_world es" cs pg] assms(1,3) by (simp add: grows_def start_world_def)
  have 2: "grows (db w) (db w')" using repo_run_grows [OF 1 assms(2), of pg] assms(4) by simp
  have "order_status (db w') n = Some (last (order_history (db w') n))" if "order_status (db w) n \<noteq> None" for n
    using that 2 history_latest [of "db w'" n] unfolding grows_def by blast
  with 1 2 show ?thesis unfolding grows_def by blast
qed

definition example_codec :: pg_codec where
  "example_codec = \<lparr>to_cents = (\<lambda>x. case x of Fin q \<Rightarrow> Some \<lfloor>q * 100 + 1 / 2\<rfloor> | _ \<Rightarrow> None),
     of_cents = (\<lambda>c. fl (of_int c / 100))\<rparr>"

definition example_calls :: "repo_call list" where
  "example_calls = [RSequence ''20250101'',
     RCreate (example_order\<lparr>co_Number := ''ORD_20250101_001'', co_Status := StatusOrderReceived\<rparr>) ''order-service'' [],
     RMarkOnline ''chef'' ''dine_in'' (30 * nanos_per_second)]"

theorem repository_invariant_witness:
  "\<exists>w w'. w = fold (repo_exec example_codec) example_calls (start_world [])
     \<and> w' = fold (repo_exec example_codec) [RSetStatus ''ORD_20250101_001'' ''chef'' StatusOrderCooking []] w
     \<and> wf_db (db w) \<and> wf_db (db w') \<and> prefix (order_history (db w) ''ORD_20250101_001'') (order_history (db w') ''ORD_20250101_001'')"
proof -
  have c: "list_all received_only example_calls"
    "list_all received_only [RSetStatus ''ORD_20250101_001'' ''chef'' StatusOrderCooking []]"
    by (simp_all add: example_calls_def)
  show ?thesis using repository_invariant [OF c refl refl, of example_codec "[]"] by blast
qed

end
