(* ===== verification/Order_Intake.thy ===== *)
theory Order_Intake
  imports Order_Service Validation Registry
begin

text \<open>
  What validation, pricing, storage and publication give together: every accepted order fits
  the tables and its total is stored to the exact cent although it is computed in float64,
  and with the database and the broker up every accepted request is served. The driver's
  conversion from float64 to decimal is assumed to round to the nearest cent (\<open>pg_rounds\<close>).
\<close>

section \<open>Money\<close>

definition pg_rounds :: "pg_codec \<Rightarrow> bool" where
  "pg_rounds pg \<longleftrightarrow> (\<forall>q c. \<bar>100 * q - of_int c\<bar> < 1 / 4 \<longrightarrow> to_cents pg (Fin q) = Some c)"

lemma price_cents:
  assumes "pg_rounds pg" "cent_item cs it"
  shows "to_cents pg (ci_Price it) = Some (cs it)" "go_float (ci_Price it)"
proof -
  let ?c = "of_int (cs it) / 100 :: rat"
  have c: "1 \<le> cs it" "cs it \<le> 99999" and pr: "ci_Price it = fl ?c" using assms(2) by (auto simp: cent_item_def)
  have "0 \<le> ?c" "?c \<le> 1000" using c by (simp_all add: of_int_le_iff [of _ 100000, simplified])
  then have "\<bar>?c\<bar> \<le> 2 ^ 10" by simp
  then obtain p where p: "fl ?c = Fin p" and e: "\<bar>p - ?c\<bar> \<le> 2 ^ 10 * 2 powi (- 53)"
    using fl_small [of ?c 10] by auto
  have "\<bar>p - ?c\<bar> \<le> 1 / 8796093022208" using e by (simp add: power_int_minus)
  then have "\<bar>100 * p - of_int (cs it)\<bar> < 1 / 4" by arith
  then show "to_cents pg (ci_Price it) = Some (cs it)" using assms(1) pr p by (simp add: pg_rounds_def)
  show "go_float (ci_Price it)" using pr p fl_idem [of ?c p] by (simp add: is_float64_def)
qed

section \<open>Text\<close>

text \<open>The text of a client that no rule restricts: the address and the names of the items.\<close>

definition text_ok :: "CreateOrder \<Rightarrow> bool" where
  "text_ok m \<longleftrightarrow> pred_option pg_text (co_DeliveryAddress m) \<and> (\<forall>it \<in> set (co_Items m). pg_text (ci_Name it))"

abbreviation ascii :: "string \<Rightarrow> bool" where
  "ascii s \<equiv> list_all (\<lambda>c. 0 < (of_char c :: nat) \<and> (of_char c :: nat) < 128) s"

lemma ascii_fmt_0d: "ascii (fmt_0d k i)"
proof -
  have "ascii (dec_nat n)" for n using dec_nat_digits by (fastforce simp: list_all_iff)
  then show ?thesis by (auto simp: fmt_0d_def pad0_def list_all_iff)
qed

lemma ascii_todayDate: "ascii (todayDate t)"
  using ascii_fmt_0d by (auto simp: todayDate_def list_all_iff split: prod.split)

lemma number_text: "pg_text (co_Number (SetNumber (todayDate t) n m))"
  using ascii_todayDate [of t] ascii_fmt_0d [of _ n] by (intro pg_text_ascii) (simp add: SetNumber_def Let_def)

lemma alphabet_text: "set s \<subseteq> set name_alphabet \<Longrightarrow> pg_text s"
proof (rule pg_text_ascii)
  assume s: "set s \<subseteq> set name_alphabet"
  have "ascii name_alphabet" by (simp add: name_alphabet_def bytes_def)
  with s show "ascii s" by (auto simp: list_all_iff)
qed

section \<open>Storage\<close>

lemma exact_cents_bound:
  "\<forall>it \<in> set its. cent_item cs it \<Longrightarrow> 0 \<le> exact_cents cs its \<and> exact_cents cs its \<le> 999990 * int (length its)"
  by (induction its) (use exact_item_bound in \<open>fastforce simp: distrib_left\<close>)+

lemma prepared_fields [simp]:
  "co_Items (prepare_order today n m) = co_Items m" "co_Type (prepare_order today n m) = co_Type m"
  "co_TableNumber (prepare_order today n m) = co_TableNumber m"
  "co_CustomerName (prepare_order today n m) = co_CustomerName m"
  "co_DeliveryAddress (prepare_order today n m) = co_DeliveryAddress m"
  "co_TotalAmount (prepare_order today n m) = co_TotalAmount (CalucalteTotalAmount m)"
  "co_Priority (prepare_order today n m) \<in> {1, 5, 10}"
  by (simp_all add: prepare_order_def CalculatePriority_def CalucalteTotalAmount_def SetNumber_def Let_def)

lemma accepted_storable:
  assumes "pg_rounds pg" "acceptable m" "\<forall>it \<in> set (co_Items m). cent_item cs it" "text_ok m" "today = todayDate t"
  shows "storable pg (prepare_order today n m)
    \<and> to_cents pg (co_TotalAmount (prepare_order today n m)) = Some (exact_cents cs (co_Items m))
    \<and> (\<forall>it \<in> set (co_Items m). to_cents pg (ci_Price it) = Some (cs it))"
proof -
  have len: "length (co_Items m) \<le> 20" using assms(2) by (simp add: acceptable_def)
  obtain t where t: "co_TotalAmount (CalucalteTotalAmount m) = Fin t"
    "\<bar>t - of_int (exact_cents cs (co_Items m)) / 100\<bar> < 1 / 10 ^ 8"
    using CalucalteTotalAmount_bound [OF len assms(3)] by blast
  have "\<bar>100 * t - of_int (exact_cents cs (co_Items m))\<bar> < 1 / 4"
    using t(2) by (simp add: abs_less_iff field_simps)
  then have total: "to_cents pg (Fin t) = Some (exact_cents cs (co_Items m))" using assms(1) by (simp add: pg_rounds_def)
  have "999990 * int (length (co_Items m)) \<le> 999990 * 20" using len by simp
  then have b: "0 \<le> exact_cents cs (co_Items m)" "exact_cents cs (co_Items m) < 10 ^ 10"
    using exact_cents_bound [OF assms(3)] by simp_all
  have prices: "\<forall>it \<in> set (co_Items m). to_cents pg (ci_Price it) = Some (cs it)"
    using price_cents(1) [OF assms(1)] assms(3) by blast
  have "list_all (storable_item pg) (co_Items m)"
    using prices assms(3,4) by (auto simp: list_all_iff storable_item_def decimal_column_def cent_item_def int4_def text_ok_def)
  moreover have "List.member [''dine_in'', ''takeout'', ''delivery''] (co_Type m)" "pred_option int4 (co_TableNumber m)"
    using assms(2) by (auto simp: acceptable_def acceptable_place_def int4_def)
  moreover have "int4 (co_Priority (prepare_order today n m))" using prepared_fields(7) [of today n m] by (auto simp: int4_def)
  moreover have "pg_text (co_CustomerName m)" "pred_option pg_text (co_DeliveryAddress m)"
    using assms(2,4) alphabet_text by (simp_all add: acceptable_def text_ok_def)
  moreover have "pg_text (co_Number (SetNumber today n m))" using number_text assms(5) by simp
  moreover have "pg_text StatusOrderReceived" by (simp add: status_defs)
  ultimately show ?thesis using t(1) total b prices by (simp add: storable_def decimal_column_def prepared)
qed

lemma example_codec_rounds: "pg_rounds example_codec"
proof -
  have "\<lfloor>q * 100 + 1 / 2\<rfloor> = c" if "\<bar>100 * q - of_int c\<bar> < 1 / 4" for q :: rat and c
    using that by (intro floor_eq_iff [THEN iffD2]) linarith
  then show ?thesis by (simp add: pg_rounds_def example_codec_def)
qed

lemma example_acceptable: "acceptable example_order"
proof -
  have "\<bar>rnd64 (1 / 100) - 1 / 100\<bar> \<le> 1" "\<bar>rnd64 (99999 / 100) - 99999 / 100\<bar> \<le> 1"
    by (rule order_trans [OF rnd64_abs_error [of _ 10]]; simp add: power_int_minus)+
  then have "rnd64 (1 / 100) \<le> 25 / 2" "rnd64 (1 / 100) \<le> 33 / 4" "25 / 2 \<le> rnd64 (99999 / 100)" "33 / 4 \<le> rnd64 (99999 / 100)"
    unfolding abs_le_iff by linarith+
  moreover have "RuneCountInString ''Margherita'' = 10" "RuneCountInString ''Soup'' = 4"
    by (simp_all add: RuneCountInString_ascii)
  ultimately have "acceptable_item \<lparr>ci_Name = ''Margherita'', ci_Quantity = 2, ci_Price = Fin (25 / 2)\<rparr>"
    "acceptable_item \<lparr>ci_Name = ''Soup'', ci_Quantity = 3, ci_Price = Fin (33 / 4)\<rparr>"
    by (simp_all add: acceptable_item_def del: float64.inject) (rule exI, rule conjI, rule refl, simp)+
  then show ?thesis by (simp add: acceptable_def example_order_def acceptable_place_def name_alphabet_def)
qed

text \<open>
  C20. Accepted orders are stored to the cent: over a live database, for a request that passes validation with prices of whole
  cents and with text the database accepts, and for a number not yet taken, creating the order succeeds, violating
  no column constraint, and adds exactly one order row and one row per item, in the order of the items, which hold the
  request's fields, the exact decimal prices and the exact decimal total, the float64 computation notwithstanding.
\<close>

theorem accepted_order_stored_exactly:
  assumes "pg_rounds pg" "acceptable m" "\<forall>it \<in> set (co_Items m). cent_item cs it" "text_ok m"
    and "req = prepare_order (todayDate t) number m" "quiet w" "order_status (db w) (co_Number req) = None"
  shows "\<exists>ord w' row items. Create pg req changedBy nt w = (Inr ord, w')
    \<and> orders (db w') = orders (db w) @ [row] \<and> order_items (db w') = order_items (db w) @ items
    \<and> o_number row = co_Number req \<and> o_customer_name row = co_CustomerName m \<and> o_type row = co_Type m
    \<and> o_table_number row = co_TableNumber m \<and> o_delivery_address row = co_DeliveryAddress m
    \<and> o_status row = StatusOrderReceived \<and> o_priority row = co_Priority req
    \<and> o_total_amount row = exact_cents cs (co_Items m)
    \<and> list_all2 (\<lambda>i it. i_order_id i = o_id row \<and> i_name i = ci_Name it \<and> i_quantity i = ci_Quantity it
         \<and> i_price i = cs it) items (co_Items m)"
proof -
  note st = accepted_storable [OF assms(1-4) refl, of t number, folded assms(5)]
  obtain ord w' where c: "Create pg req changedBy nt w = (Inr ord, w')"
    using Create_live [OF assms(6) _ assms(7)] st by blast
  then obtain now row items where r: "row = new_order_row now req (next_order (db w)) (exact_cents cs (co_Items m))"
    "orders (db w') = orders (db w) @ [row]" "order_items (db w') = order_items (db w) @ items"
    "list_all2 (item_stored pg (o_id row)) items (co_Items m)"
    using Create_outcome [OF c] st by (auto simp: order_created_def assms(5))
  have "list_all2 (\<lambda>i it. i_order_id i = o_id row \<and> i_name i = ci_Name it \<and> i_quantity i = ci_Quantity it
      \<and> i_price i = cs it) items (co_Items m)"
    using r(4) st by (auto simp: list_all2_conv_all_nth item_stored_def)
  with c r show ?thesis by (auto simp: new_order_row_def assms(5))
qed

definition example_service :: order_service where
  "example_service = NewService (zero_Config\<lparr>cf_RabbitMQ := example_rabbit\<rparr>) \<lparr>sem_cap = 1, sem_len = 0\<rparr> 0"

lemma example_text: "text_ok example_order"
  by (simp add: text_ok_def example_order_def)

lemma example_service_facts:
  "quiet (start_world [])" "wf_db (db (start_world []))" "\<not> conn_closed (start_world [])"
  "fst (TryAcquire False (sv_sem example_service))" "example_rabbit = cf_RabbitMQ (sv_cfg example_service)"
  "0 < rm_ReconnectAttempt example_rabbit" "1 = last_sequence (db (start_world [])) d + 1" "int4 1"
  "order_status (db (start_world [])) n = None"
  by (simp_all add: quiet_def start_world_def example_service_def NewService_def TryAcquire_def peer_release_def
      Acquire_def example_rabbit_def last_sequence_def empty_db_def int4_def order_status_def find_order_def wf_db_def)

theorem accepted_order_stored_exactly_witness:
  "\<exists>ord w' row items. Create example_codec (prepare_order (todayDate 0) 1 example_order) ''order-service'' [] (start_world []) = (Inr ord, w')
   \<and> orders (db w') = [row] \<and> o_total_amount row = 4975 \<and> order_items (db w') = items \<and> map i_price items = [1250, 825]"
proof -
  have e: "orders (db (start_world [])) = []" "order_items (db (start_world [])) = []" by (simp_all add: start_world_def empty_db_def)
  obtain ord w' row items where s: "Create example_codec (prepare_order (todayDate 0) 1 example_order) ''order-service'' [] (start_world []) = (Inr ord, w')"
    "orders (db w') = [row]" "order_items (db w') = items" "o_total_amount row = 4975"
    "list_all2 (\<lambda>i it. i_order_id i = o_id row \<and> i_name i = ci_Name it \<and> i_quantity i = ci_Quantity it
      \<and> i_price i = example_cents it) items (co_Items example_order)"
    using accepted_order_stored_exactly [OF example_codec_rounds example_acceptable example_cent_items(1) example_text refl
        example_service_facts(1,9), where t = 0 and number = 1 and changedBy = "''order-service''" and nt = "[]"]
      example_cent_items(2) e by auto
  have "map i_price items = map example_cents (co_Items example_order)"
    using s(5) by (auto simp: list_all2_conv_all_nth intro: nth_equalityI)
  then show ?thesis using s by (auto simp: example_order_def example_cents_def)
qed

section \<open>A live system serves every accepted request\<close>

lemma PublishCreateOrder_live:
  assumes q: "quiet w" and c: "\<not> conn_closed w"
    and b: "Option.bind (FromInternalToPublishOrder ctx (Some order)) marshal_order = Some body"
  shows "\<exists>w'. PublishCreateOrder cfg ctx (Some order) w = (None, w') \<and> quiet w'"
proof -
  obtain w1 where w1: "raw_call w = (NoFault, w1)" "quiet w1" using quiet_raw_call [OF q] by blast
  then have "\<not> conn_closed w1" using raw_call_eqD [OF w1(1)] c by simp
  moreover obtain w2 where "channel_send (Publish (rm_OrderExchange cfg) (createOrderPublishedKey order)
      (order_publishing order body (clock w1))) w1 = (None, w2)" "quiet w2"
    using quiet_channel_send [OF w1(2)] by blast
  ultimately show ?thesis
    using w1 b c by (simp add: PublishCreateOrder_def ensure_connected_def IsConnectionClosed_def PublishWithContext_def)
qed

lemma fl_not_inf_go: "fl q = Fin r \<Longrightarrow> go_float (Fin r)"
  using fl_idem by (simp add: is_float64_def)

lemma total_finite:
  assumes "acceptable m" "\<forall>it \<in> set (co_Items m). cent_item cs it"
  shows "\<exists>body. Option.bind (FromInternalToPublishOrder ctx (Some (prepare_order today n m))) marshal_order = Some body"
proof -
  have len: "length (co_Items m) \<le> 20" using assms(1) by (simp add: acceptable_def)
  obtain t where t: "co_TotalAmount (CalucalteTotalAmount m) = Fin t"
    using CalucalteTotalAmount_bound [OF len assms(2)] by blast
  have "\<forall>it \<in> set (co_Items m). \<exists>p. ci_Price it = Fin p"
  proof
    fix it assume "it \<in> set (co_Items m)"
    then have "go_float (ci_Price it)" using price_cents(2) [OF example_codec_rounds] assms(2) by blast
    then show "\<exists>p. ci_Price it = Fin p" by (auto elim: go_floatE)
  qed
  then have "\<exists>js. those (map marshal_item (map (\<lambda>i. \<lparr>im_Name = ci_Name i, im_Quantity = ci_Quantity i,
      im_Price = ci_Price i\<rparr>) (co_Items m))) = Some js"
  proof (induction "co_Items m" arbitrary: m)
    case (Cons it its)
    from Cons(1) [of "m\<lparr>co_Items := its\<rparr>"] Cons(2) [symmetric] Cons(3) show ?case
      by (auto simp: marshal_item_def)
  qed simp
  with t show ?thesis by (auto simp: FromInternalToPublishOrder_def marshal_order_def comp_def)
qed

lemma intake_workers:
  "GetAndIncrementSequence date w = (Inr v, w') \<Longrightarrow> workers (db w') = workers (db w)"
  "Create pg req by nt w = (Inr ord, w') \<Longrightarrow> workers (db w') = workers (db w)"
  using GetAndIncrementSequence_outcome [of date w "Inr v" w'] Create_outcome [of pg req "by" nt w "Inr ord" w']
  by (auto simp: sequence_moved_def order_created_def)

text \<open>A live system answers, keeps the registry of workers and sends exactly one message.\<close>

lemma CreateOrder_live:
  assumes "quiet w" "wf_db (db w)" "\<not> conn_closed w" "fst (TryAcquire freed (sv_sem s))"
    and "cfg = cf_RabbitMQ (sv_cfg s)" "0 < rm_ReconnectAttempt cfg" "pg_rounds pg"
    and "acceptable m" "\<forall>it \<in> set (co_Items m). cent_item cs it"
    and "number = last_sequence (db w) (todayDate (clock w)) + 1" "int4 number"
    and "order_status (db w) (co_Number (SetNumber (todayDate (clock w)) number m)) = None" "text_ok m"
  shows "\<exists>info s' w' c. CreateOrder_svc (order_deps_impl pg cfg) freed draw ctx m s w = (Inr info, s', w')
    \<and> oi_Number info = co_Number (SetNumber (todayDate (clock w)) number m)
    \<and> quiet w' \<and> \<not> conn_closed w' \<and> workers (db w') = workers (db w)
    \<and> order_message cfg ctx (prepare_order (todayDate (clock w)) number m) c \<and> amqp w' = amqp w @ [c]"
proof -
  let ?today = "todayDate (clock w)" and ?req = "prepare_order (todayDate (clock w)) number m"
  obtain v w1 where g: "GetAndIncrementSequence ?today w = (Inr v, w1)" "quiet w1"
    using GetAndIncrementSequence_live [OF assms(1)] assms(10,11) by blast
  have v: "v = number" "wf_db (db w1)" "order_status (db w1) = order_status (db w)"
    using pg_intake.next_ok [OF assms(2) g(1)] assms(10) by simp_all
  have d1: "db_only w w1" by (rule db_only_GetAndIncrementSequence [OF g(1)])
  have st: "storable pg ?req" using accepted_storable [OF assms(7-9,13) refl] by blast
  obtain ord w2 where c: "Create pg ?req servicename [] w1 = (Inr ord, w2)" "quiet w2"
    using Create_live [OF g(2) st, of servicename "[]"] v assms(12) by auto
  have ord: "or_Number ord = co_Number ?req" using pg_intake.create_ok [OF v(2) _ c(1)] by (simp add: prepared)
  have d2: "\<not> conn_closed w2" "amqp w2 = amqp w" using db_only_Create [OF c(1)] d1 assms(3) by (simp_all add: db_only_def)
  obtain body where "Option.bind (FromInternalToPublishOrder ctx (Some ?req)) marshal_order = Some body"
    using total_finite [OF assms(8,9)] by blast
  then obtain w3 where p: "PublishCreateOrder cfg ctx (Some ?req) w2 = (None, w3)" "quiet w3"
    using PublishCreateOrder_live [OF c(2) d2(1)] by blast
  obtain k where "nat (rm_ReconnectAttempt cfg) = Suc k" using assms(6) by (metis gr0_implies_Suc zero_less_nat_eq)
  with p have "retry (rm_ReconnectAttempt cfg) (rm_ReconnectDelay cfg) (PublishCreateOrder cfg ctx (Some ?req)) w2 = (None, w3)"
    by (simp add: retry_def)
  with g v c have "create_with_slot (order_deps_impl pg cfg) cfg ctx draw m w =
      (Inr \<lparr>oi_Number = or_Number ord, oi_Status = or_Status ord, oi_TotalAmount = or_TotalAmount ord\<rparr>, w3)"
    by (simp add: create_with_slot_def order_deps_impl_def Let_def)
  then have "\<exists>info s'. CreateOrder_svc (order_deps_impl pg cfg) freed draw ctx m s w = (Inr info, s', w3)
      \<and> oi_Number info = co_Number (SetNumber ?today number m)"
    using assms(4,5) ord by (cases "TryAcquire freed (sv_sem s)") (auto simp: CreateOrder_svc_def prepared)
  moreover have "workers (db w3) = workers (db w)"
    using PublishCreateOrder_db [OF p(1)] intake_workers(1) [OF g(1)] intake_workers(2) [OF c(1)] by simp
  ultimately show ?thesis using PublishCreateOrder_outcome(2) [OF p(1)] p(2) d2(2) by fastforce
qed

text \<open>
  C21. A live system serves an accepted request: with a free slot, no faults, an open
  broker connection, at least one configured publishing attempt and an unused next number within the range of the
  sequence, a request that passes validation with prices of whole cents and with text the database accepts
  is answered with an order that has the next number of the day, and one message carrying it is sent.
\<close>

theorem CreateOrder_served:
  assumes "quiet w" "wf_db (db w)" "\<not> conn_closed w" "fst (TryAcquire freed (sv_sem s))"
    and "cfg = cf_RabbitMQ (sv_cfg s)" "0 < rm_ReconnectAttempt cfg" "pg_rounds pg"
    and "acceptable m" "\<forall>it \<in> set (co_Items m). cent_item cs it"
    and "number = last_sequence (db w) (todayDate (clock w)) + 1" "int4 number"
    and "order_status (db w) (co_Number (SetNumber (todayDate (clock w)) number m)) = None" "text_ok m"
  shows "\<exists>info s' w' c. CreateOrder_svc (order_deps_impl pg cfg) freed draw ctx m s w = (Inr info, s', w')
    \<and> oi_Number info = co_Number (SetNumber (todayDate (clock w)) number m)
    \<and> order_message cfg ctx (prepare_order (todayDate (clock w)) number m) c \<and> amqp w' = amqp w @ [c]"
  using CreateOrder_live [OF assms] by blast

theorem CreateOrder_served_witness:
  "\<exists>info s' w'. CreateOrder_svc (order_deps_impl example_codec example_rabbit) False 0 None example_order
       example_service (start_world []) = (Inr info, s', w') \<and> oi_Number info = ''ORD_19700101_001''"
proof -
  have "co_Number (SetNumber (todayDate (clock (start_world []))) 1 example_order) = ''ORD_19700101_001''"
    by (simp add: start_world_def SetNumber_def Let_def todayDate_examples(1)) code_simp
  then show ?thesis
    using CreateOrder_served [OF example_service_facts(1-6) example_codec_rounds example_acceptable
        example_cent_items(1) example_service_facts(7-9) example_text, where draw = 0 and ctx = None] by fastforce
qed

text \<open>Instances of the theorems of the theory Order\_Service.\<close>

theorem CreateOrder_returns_slot_witness:
  "\<exists>r s' w'. CreateOrder_svc (order_deps_impl example_codec example_rabbit) False 0 None example_order
       (example_service\<lparr>sv_sem := \<lparr>sem_cap = 1, sem_len = 1\<rparr>\<rparr>) (start_world []) = (r, s', w')
     \<and> r = Inl ErrTooManyRequest \<and> amqp w' = []"
proof -
  let ?s = "example_service\<lparr>sv_sem := \<lparr>sem_cap = 1, sem_len = 1\<rparr>\<rparr>"
  obtain r s' w' where c: "CreateOrder_svc (order_deps_impl example_codec example_rabbit) False 0 None
      example_order ?s (start_world []) = (r, s', w')" by (metis prod.exhaust)
  have "\<not> fst (TryAcquire False (sv_sem ?s))"
    by (simp add: TryAcquire_def peer_release_def Acquire_def)
  with CreateOrder_returns_slot [OF c] c show ?thesis by (auto simp: start_world_def)
qed

theorem CreateOrder_success_witness:
  "\<exists>info s' w'. CreateOrder_svc (order_deps_impl example_codec example_rabbit) False 0 None example_order
       example_service (start_world []) = (Inr info, s', w')
     \<and> order_status (db w') (oi_Number info) = Some StatusOrderReceived \<and> amqp w' \<noteq> []"
proof -
  obtain info s' w' where c: "CreateOrder_svc (order_deps_impl example_codec example_rabbit) False 0 None
      example_order example_service (start_world []) = (Inr info, s', w')"
    using CreateOrder_live [OF example_service_facts(1-6) example_codec_rounds example_acceptable
        example_cent_items(1) example_service_facts(7-9) example_text] by blast
  from CreateOrder_success [OF example_service_facts(2,5) c] example_service_facts(6) c show ?thesis
    by (auto simp: start_world_def)
qed

theorem CreateOrder_failure_witness:
  "\<exists>e s' w'. CreateOrder_svc (order_deps_impl example_codec example_rabbit) False 0 None example_order
       example_service (start_world (replicate 3 \<lparr>ev_fault = NoFault, ev_dt = 1\<rparr>
         @ [\<lparr>ev_fault = Fail (Opaque ''connection refused''), ev_dt = 1\<rparr>])) = (Inl e, s', w')
     \<and> wf_db (db w')"
proof -
  let ?w = "start_world (replicate 3 \<lparr>ev_fault = NoFault, ev_dt = 1\<rparr>
         @ [\<lparr>ev_fault = Fail (Opaque ''connection refused''), ev_dt = 1\<rparr>])"
  obtain e s' w' where c: "CreateOrder_svc (order_deps_impl example_codec example_rabbit) False 0 None
      example_order example_service ?w = (Inl e, s', w')"
    by (simp add: CreateOrder_svc_def example_service_def NewService_def TryAcquire_def peer_release_def Acquire_def
        Release_def create_with_slot_def order_deps_impl_def GetAndIncrementSequence_def Create_def begin_tx_def
        stmt_def commit_def call_def raw_call_def start_world_def empty_db_def upsert_sequence_def Let_def
        numeral_3_eq_3)
  have "wf_db (db ?w)" by (simp add: start_world_def)
  from CreateOrder_failure [OF this example_service_facts(5) refl c] c show ?thesis by blast
qed

end
