(* ===== verification/Tracking.thy ===== *)
theory Tracking
  imports Registry Config
begin

text \<open>
  \<^verbatim>\<open>internal/services/tracking\<close>: the read side. The service is written against the interfaces of
  \<^verbatim>\<open>interface.go\<close> (\<open>tracking_deps\<close>); the locale \<open>tracking_env\<close> states what it relies on and
  is interpreted on the repositories. \<^verbatim>\<open>time.Time.Sub\<close> saturates at the range of int64 and
  the product with \<^verbatim>\<open>time.Second\<close> wraps.
\<close>

record tracking_deps =
  td_GetCurrent :: "string \<Rightarrow> world \<Rightarrow> OrderStatus result \<times> world"
  td_ListOrderHistory :: "string \<Rightarrow> world \<Rightarrow> OrderHistory list result \<times> world"
  td_List :: "world \<Rightarrow> Worker list result \<times> world"

text \<open>An error with the identity of \<open>target\<close> is passed on as the bare sentinel, any other by its text.\<close>

definition pass_or_wrap :: "err \<Rightarrow> string \<Rightarrow> err \<Rightarrow> err" where
  "pass_or_wrap target op e = (if errors_is e target then target else errorf_v op e)"

definition GetOrderStatus :: "tracking_deps \<Rightarrow> string \<Rightarrow> world \<Rightarrow> OrderStatus result \<times> world" where
  "GetOrderStatus deps orderNumber w =
     (case td_GetCurrent deps orderNumber w of
        (Inl e, w') \<Rightarrow> (Inl (pass_or_wrap ErrOrderNotFound ''Service.GetOrderStatus: '' e), w')
      | (Inr s, w') \<Rightarrow> (Inr s, w'))"

definition time_Sub :: "instant \<Rightarrow> instant \<Rightarrow> duration" where
  "time_Sub a b = max (- (2 ^ 63)) (min (2 ^ 63 - 1) (a - b))"

definition offline_threshold :: "int \<Rightarrow> duration" where
  "offline_threshold heartbeatInt = wrap64 (heartbeatInt * nanos_per_second)"

definition age_worker :: "instant \<Rightarrow> duration \<Rightarrow> Worker \<Rightarrow> Worker" where
  "age_worker now threshold wk =
     (if time_Sub now (wk_LastSeen wk) > threshold then wk\<lparr>wk_Status := WorkerOffline\<rparr> else wk)"

definition ListWorkers :: "tracking_deps \<Rightarrow> int \<Rightarrow> world \<Rightarrow> Worker list result \<times> world" where
  "ListWorkers deps heartbeatInt w =
     (let now = clock w in
      case td_List deps w of
        (Inl e, w') \<Rightarrow> (Inl (pass_or_wrap ErrWorkerNotFound ''Service.ListWorkers: '' e), w')
      | (Inr ws, w') \<Rightarrow> (Inr (map (age_worker now (offline_threshold heartbeatInt)) ws), w'))"

definition GetTrackingHistory :: "tracking_deps \<Rightarrow> string \<Rightarrow> world \<Rightarrow> OrderHistory list result \<times> world" where
  "GetTrackingHistory deps orderNumber w =
     (case td_ListOrderHistory deps orderNumber w of
        (Inl e, w') \<Rightarrow> (Inl (pass_or_wrap ErrOrderNotFound ''Service.GetTrackingHistory: '' e), w')
      | (Inr hs, w') \<Rightarrow> (Inr hs, w'))"

section \<open>Contract\<close>

locale tracking_env =
  fixes deps :: tracking_deps
    and known :: "world \<Rightarrow> string \<Rightarrow> bool"
    and roster :: "world \<Rightarrow> Worker list"
    and ok :: "world \<Rightarrow> bool"
    and legal :: "string \<Rightarrow> bool"
  assumes current_none: "td_GetCurrent deps n w = (Inl e, w') \<Longrightarrow> ok w \<Longrightarrow>
      \<not> known w n \<and> (if legal n then e = ErrOrderNotFound else \<not> errors_is e ErrOrderNotFound)"
    and current_some: "td_GetCurrent deps n w = (Inr s, w') \<Longrightarrow> known w n"
    and history_none: "td_ListOrderHistory deps n w = (Inl he, w') \<Longrightarrow> ok w \<Longrightarrow>
      \<not> known w n \<and> (if legal n then he = ErrOrderNotFound else \<not> errors_is he ErrOrderNotFound)"
    and history_some: "td_ListOrderHistory deps n w = (Inr hs, w') \<Longrightarrow> known w n"
    and list_none: "td_List deps w = (Inl le, w') \<Longrightarrow> ok w \<Longrightarrow> le = ErrWorkerNotFound \<and> roster w = []"
    and list_some: "td_List deps w = (Inr ws, w') \<Longrightarrow> mset ws = mset (roster w) \<and> ws \<noteq> []"
begin

text \<open>The error of a query for an unknown number.\<close>

abbreviation unknown_error :: "string \<Rightarrow> string \<Rightarrow> err \<Rightarrow> bool" where
  "unknown_error op n e \<equiv> (if legal n then e = ErrOrderNotFound else \<exists>e'. e = errorf_v op e')"

lemma status_answers:
  assumes "ok w"
  shows "(\<exists>s w'. GetOrderStatus deps n w = (Inr s, w')) \<longleftrightarrow> known w n"
    "\<not> known w n \<Longrightarrow> \<exists>e. fst (GetOrderStatus deps n w) = Inl e \<and> unknown_error ''Service.GetOrderStatus: '' n e"
proof -
  obtain r w' where g: "td_GetCurrent deps n w = (r, w')" by (cases "td_GetCurrent deps n w")
  have "case r of Inl e \<Rightarrow> \<not> known w n \<and> (if legal n then e = ErrOrderNotFound else \<not> errors_is e ErrOrderNotFound)
      | Inr s \<Rightarrow> known w n"
    using current_none [of n w _ w'] current_some [of n w _ w'] g assms by (cases r) auto
  with g show "(\<exists>s w'. GetOrderStatus deps n w = (Inr s, w')) \<longleftrightarrow> known w n"
    "\<not> known w n \<Longrightarrow> \<exists>e. fst (GetOrderStatus deps n w) = Inl e \<and> unknown_error ''Service.GetOrderStatus: '' n e"
    by (auto simp: GetOrderStatus_def pass_or_wrap_def split: sum.splits if_splits)
qed

lemma history_answers:
  assumes "ok w"
  shows "(\<exists>hs w'. GetTrackingHistory deps n w = (Inr hs, w')) \<longleftrightarrow> known w n"
    "\<not> known w n \<Longrightarrow> \<exists>e. fst (GetTrackingHistory deps n w) = Inl e \<and> unknown_error ''Service.GetTrackingHistory: '' n e"
proof -
  obtain r w' where g: "td_ListOrderHistory deps n w = (r, w')" by (cases "td_ListOrderHistory deps n w")
  have "case r of Inl e \<Rightarrow> \<not> known w n \<and> (if legal n then e = ErrOrderNotFound else \<not> errors_is e ErrOrderNotFound)
      | Inr hs \<Rightarrow> known w n"
    using history_none [of n w _ w'] history_some [of n w _ w'] g assms by (cases r) auto
  with g show "(\<exists>hs w'. GetTrackingHistory deps n w = (Inr hs, w')) \<longleftrightarrow> known w n"
    "\<not> known w n \<Longrightarrow> \<exists>e. fst (GetTrackingHistory deps n w) = Inl e \<and> unknown_error ''Service.GetTrackingHistory: '' n e"
    by (auto simp: GetTrackingHistory_def pass_or_wrap_def split: sum.splits if_splits)
qed

lemma workers_answer:
  assumes "ok w"
  shows "case fst (ListWorkers deps hb w) of Inl e \<Rightarrow> e = ErrWorkerNotFound \<and> roster w = []
    | Inr ws \<Rightarrow> mset ws = image_mset (age_worker (clock w) (offline_threshold hb)) (mset (roster w)) \<and> roster w \<noteq> []"
proof -
  obtain r w' where g: "td_List deps w = (r, w')" by (cases "td_List deps w")
  show ?thesis
  proof (cases r)
    case (Inl e)
    with g list_none [of w e w'] assms show ?thesis by (simp add: ListWorkers_def Let_def pass_or_wrap_def)
  next
    case (Inr us)
    with g list_some [of w us w'] show ?thesis by (auto simp: ListWorkers_def Let_def dest: mset_eq_length)
  qed
qed

lemma workers_reported:
  assumes "ListWorkers deps hb w = (Inr ws, w')"
  shows "mset ws = image_mset (age_worker (clock w) (offline_threshold hb)) (mset (roster w)) \<and> ws \<noteq> []"
proof -
  obtain us where "td_List deps w = (Inr us, w')" "ws = map (age_worker (clock w) (offline_threshold hb)) us"
    using assms by (auto simp: ListWorkers_def Let_def split: prod.splits sum.splits)
  with list_some [of w us w'] show ?thesis by auto
qed

end

section \<open>On the repositories\<close>

definition tracking_deps_impl ::
  "log_plan \<Rightarrow> log_plan \<Rightarrow> (worker_row list \<Rightarrow> worker_row list) \<Rightarrow> tracking_deps" where
  "tracking_deps_impl splan hplan wplan =
     \<lparr>td_GetCurrent = GetCurrent splan, td_ListOrderHistory = ListOrderHistory hplan, td_List = worker_List wplan\<rparr>"

lemma any_order_empty: "any_order plan \<Longrightarrow> plan xs = [] \<longleftrightarrow> xs = []"
  by (metis any_order_def mset_zero_iff)

lemma joined_logs_empty_iff:
  "wf_db d \<Longrightarrow> joined_logs n d = [] \<longleftrightarrow> order_status d n = None"
proof (cases "find_order d n")
  case None
  then show ?thesis by (simp add: joined_logs_unknown order_status_def)
next
  case (Some r)
  assume wf: "wf_db d"
  then have "logs_of d (o_id r) \<noteq> []" using find_order_SomeD [OF Some] by (auto simp: wf_db_def)
  then show ?thesis using joined_logs_known [OF wf Some] Some by (simp add: order_status_def)
qed

lemma joined_logs_known_order: "joined_logs n d \<noteq> [] \<Longrightarrow> order_status d n \<noteq> None"
  using joined_logs_unknown by (auto simp: order_status_def)

lemma quiet_query_rows:
  assumes "quiet w"
  shows "list_all pg_text args \<Longrightarrow> \<exists>w'. query_rows op args f w = (Inr (f (db w)), w') \<and> quiet w'"
    "\<not> list_all pg_text args \<Longrightarrow> \<exists>e w'. query_rows op args f w = (Inl (errorf_v op e), w')"
proof -
  let ?q = "with_text args (\<lambda>d. (Inr (f d), d))"
  obtain w1 where 1: "exec_auto ?q w = (fst (?q (db w)), w1)" "quiet w1" using quiet_exec_auto [OF assms, of ?q] by blast
  obtain w2 where "call w1 = (NoFault, w2)" "quiet w2" using quiet_call [OF 1(2)] by blast
  with 1 show "list_all pg_text args \<Longrightarrow> \<exists>w'. query_rows op args f w = (Inr (f (db w)), w') \<and> quiet w'"
    by (simp add: query_rows_def with_text_def)
  from 1 show "\<not> list_all pg_text args \<Longrightarrow> \<exists>e w'. query_rows op args f w = (Inl (errorf_v op e), w')"
    by (auto simp: query_rows_def with_text_def)
qed

definition live_db :: "world \<Rightarrow> bool" where
  "live_db w \<longleftrightarrow> quiet w \<and> wf_db (db w)"

definition has_order :: "world \<Rightarrow> string \<Rightarrow> bool" where
  "has_order w n \<longleftrightarrow> order_status (db w) n \<noteq> None"

lemma GetCurrent_cases:
  assumes p: "any_order plan" and g: "GetCurrent plan n w = (r, w')"
  shows "r = Inr s \<Longrightarrow> has_order w n"
    "r = Inl e \<Longrightarrow> live_db w \<Longrightarrow> \<not> has_order w n
       \<and> (if pg_text n then e = ErrOrderNotFound else \<not> errors_is e ErrOrderNotFound)"
proof -
  let ?q0 = "\<lambda>d. (case newest_first plan (joined_logs n d) of
                   [] \<Rightarrow> Inl pgx_ErrNoRows | lr # _ \<Rightarrow> Inr (scan_status lr), d)"
  let ?q = "with_text [n] ?q0"
  obtain x w1 where x: "exec_auto ?q w = (x, w1)" by fastforce
  have nf: "newest_first plan (joined_logs n (db w)) = [] \<longleftrightarrow> joined_logs n (db w) = []"
    unfolding newest_first_def using any_order_empty [OF p] by (metis length_0_conv length_sort)
  have r: "r = (case x of Inr s \<Rightarrow> Inr s
      | Inl e \<Rightarrow> Inl (if e = pgx_ErrNoRows then ErrOrderNotFound else errorf_v ''statusRepository.GetCurrent: '' e))"
    using g x by (cases x) (auto simp: GetCurrent_def)
  show "has_order w n" if "r = Inr s"
  proof -
    have "x = Inr s" using that r by (auto split: sum.splits)
    then have "fst (?q (db w)) = Inr s" using exec_auto_outcome [OF x] by auto
    then have "joined_logs n (db w) \<noteq> []" using nf by (auto simp: with_text_def split: list.splits if_splits)
    then show ?thesis using joined_logs_known_order by (simp add: has_order_def)
  qed
  show "\<not> has_order w n \<and> (if pg_text n then e = ErrOrderNotFound else \<not> errors_is e ErrOrderNotFound)"
    if "r = Inl e" "live_db w"
  proof -
    have x': "x = fst (?q (db w))" using quiet_exec_auto [of w ?q] x that(2) by (auto simp: live_db_def)
    show ?thesis
    proof (cases "pg_text n")
      case True
      with x' have "newest_first plan (joined_logs n (db w)) = []" "x = Inl pgx_ErrNoRows"
        using that(1) r by (auto simp: with_text_def split: list.splits)
      then show ?thesis using True nf that r joined_logs_empty_iff by (auto simp: has_order_def live_db_def)
    next
      case False
      with x' r that have "e = errorf_v ''statusRepository.GetCurrent: '' (Opaque ''invalid byte sequence for encoding'')"
        by (simp add: with_text_def pgx_ErrNoRows_def)
      with False illegal_number [of "db w" n] that(2) show ?thesis
        by (auto simp: has_order_def live_db_def ErrOrderNotFound_def)
    qed
  qed
qed

lemma tracking_env_impl:
  assumes "any_order splan" "any_order hplan" "any_order wplan"
  shows "tracking_env (tracking_deps_impl splan hplan wplan) has_order (\<lambda>w. map scan_worker (workers (db w))) live_db pg_text"
proof unfold_locales
  fix n w w' e s
  show "td_GetCurrent (tracking_deps_impl splan hplan wplan) n w = (Inl e, w') \<Longrightarrow> live_db w \<Longrightarrow>
      \<not> has_order w n \<and> (if pg_text n then e = ErrOrderNotFound else \<not> errors_is e ErrOrderNotFound)"
    using GetCurrent_cases(2) [OF assms(1)] by (simp add: tracking_deps_impl_def)
  show "td_GetCurrent (tracking_deps_impl splan hplan wplan) n w = (Inr s, w') \<Longrightarrow> has_order w n"
    using GetCurrent_cases(1) [OF assms(1)] by (simp add: tracking_deps_impl_def)
next
  fix n w w' he hs
  let ?f = "\<lambda>d. map scan_history (hplan (joined_logs n d))"
  show "\<not> has_order w n \<and> (if pg_text n then he = ErrOrderNotFound else \<not> errors_is he ErrOrderNotFound)"
    if a: "td_ListOrderHistory (tracking_deps_impl splan hplan wplan) n w = (Inl he, w')" and b: "live_db w"
  proof (cases "pg_text n")
    case True
    then obtain w1 where "query_rows ''statusRepository.ListStatusHistory: '' [n] ?f w = (Inr (?f (db w)), w1)"
      using quiet_query_rows(1) [of w "[n]" _ ?f] b by (auto simp: live_db_def)
    then have "he = ErrOrderNotFound \<and> joined_logs n (db w) = []"
      using a any_order_empty [OF assms(2), of "joined_logs n (db w)"]
      by (auto simp: tracking_deps_impl_def ListOrderHistory_def split: if_splits)
    then show ?thesis using True joined_logs_empty_iff [of "db w" n] b by (simp add: live_db_def has_order_def)
  next
    case False
    then obtain e w1 where "query_rows ''statusRepository.ListStatusHistory: '' [n] ?f w
        = (Inl (errorf_v ''statusRepository.ListStatusHistory: '' e), w1)"
      using quiet_query_rows(2) [of w "[n]" "''statusRepository.ListStatusHistory: ''" ?f] b by (auto simp: live_db_def)
    with a False illegal_number [of "db w" n] b show ?thesis
      by (auto simp: tracking_deps_impl_def ListOrderHistory_def has_order_def live_db_def ErrOrderNotFound_def)
  qed
  show "has_order w n" if "td_ListOrderHistory (tracking_deps_impl splan hplan wplan) n w = (Inr hs, w')"
  proof -
    obtain x w1 where x: "query_rows ''statusRepository.ListStatusHistory: '' [n] ?f w = (x, w1)" by fastforce
    have "x = Inr hs" "hs \<noteq> []"
      using that x by (auto simp: tracking_deps_impl_def ListOrderHistory_def split: sum.splits if_splits)
    then have "joined_logs n (db w) \<noteq> []" using query_rows_outcome(3) [OF x] any_order_empty [OF assms(2)] by auto
    then show ?thesis using joined_logs_known_order by (simp add: has_order_def)
  qed
next
  fix w w' le ws
  let ?f = "\<lambda>d. map scan_worker (wplan (workers d))"
  show "le = ErrWorkerNotFound \<and> map scan_worker (workers (db w)) = []"
    if a: "td_List (tracking_deps_impl splan hplan wplan) w = (Inl le, w')" and b: "live_db w"
  proof -
    obtain w1 where "query_rows ''workerRepository.List: '' [] ?f w = (Inr (?f (db w)), w1)"
      using quiet_query_rows(1) [of w "[]" _ ?f] b by (auto simp: live_db_def)
    then show ?thesis
      using a any_order_empty [OF assms(3), of "workers (db w)"]
      by (auto simp: tracking_deps_impl_def worker_List_def split: if_splits)
  qed
  show "mset ws = mset (map scan_worker (workers (db w))) \<and> ws \<noteq> []"
    if "td_List (tracking_deps_impl splan hplan wplan) w = (Inr ws, w')"
  proof -
    obtain x w1 where x: "query_rows ''workerRepository.List: '' [] ?f w = (x, w1)" by fastforce
    have "x = Inr ws" "ws \<noteq> []"
      using that x by (auto simp: tracking_deps_impl_def worker_List_def split: sum.splits if_splits)
    then show ?thesis using query_rows_outcome(3) [OF x] assms(3) by (auto simp: any_order_def)
  qed
qed

text \<open>A plan that scans the tables in insertion order is one of those the theorems cover.\<close>

interpretation scan_order_tracking: tracking_env "tracking_deps_impl id id id" has_order
  "\<lambda>w. map scan_worker (workers (db w))" live_db pg_text
  by (rule tracking_env_impl) (simp_all add: any_order_def)

section \<open>Properties\<close>

text \<open>
  C30. The two order queries agree: over a live database the status and the history of an
  order number are both answered exactly when an order with that number exists; for any other
  number both report the bare not-found error, or, when the number is no text the
  database accepts, both report another error; whatever order the database delivers rows in.
\<close>

theorem tracking_queries_agree:
  assumes "any_order splan" "any_order hplan" "any_order wplan" "live_db w"
    and "deps = tracking_deps_impl splan hplan wplan"
  shows "((\<exists>s w'. GetOrderStatus deps n w = (Inr s, w')) \<longleftrightarrow> has_order w n)
    \<and> ((\<exists>hs w'. GetTrackingHistory deps n w = (Inr hs, w')) \<longleftrightarrow> has_order w n)
    \<and> (\<not> has_order w n \<longrightarrow>
         (\<exists>e e'. fst (GetOrderStatus deps n w) = Inl e \<and> fst (GetTrackingHistory deps n w) = Inl e'
            \<and> (if pg_text n then e = ErrOrderNotFound \<and> e' = ErrOrderNotFound
               else \<not> errors_is e ErrOrderNotFound \<and> \<not> errors_is e' ErrOrderNotFound)))"
proof -
  have sentinel: "\<not> errors_is (errorf_v op e) ErrOrderNotFound" for op e by (simp add: ErrOrderNotFound_def)
  note env = tracking_env_impl [OF assms(1-3)]
  show ?thesis
    using tracking_env.status_answers [OF env assms(4), of n] tracking_env.history_answers [OF env assms(4), of n]
      sentinel assms(5) by (cases "pg_text n") auto
qed

theorem tracking_queries_agree_witness:
  "(\<exists>s w'. GetOrderStatus (tracking_deps_impl rev rev rev) ''ORD_20250101_001'' example_world = (Inr s, w'))
   \<and> fst (GetOrderStatus (tracking_deps_impl rev rev rev) ''ORD_x'' example_world) = Inl ErrOrderNotFound
   \<and> fst (GetTrackingHistory (tracking_deps_impl rev rev rev) ''ORD_x'' example_world) = Inl ErrOrderNotFound"
proof -
  have l: "live_db example_world" using example_world_facts by (simp add: live_db_def)
  have k: "has_order example_world ''ORD_20250101_001''" "\<not> has_order example_world ''ORD_x''"
    by (simp_all add: has_order_def example_world_def example_row_def start_world_def order_status_def find_order_def)
  show ?thesis
    using tracking_queries_agree [OF example_world_facts(4) example_world_facts(4) example_world_facts(4) l refl,
        of "''ORD_20250101_001''"]
      tracking_queries_agree [OF example_world_facts(4) example_world_facts(4) example_world_facts(4) l refl, of "''ORD_x''"] k
    by (auto split: if_splits)
qed

text \<open>
  C31. The worker list tells who is alive: over a heartbeat interval of up to a hundred years
  and instants within the range of a duration, a worker is reported online exactly when its
  row says online and it was seen within the interval, every worker is reported once, with its
  name, counter and last-seen instant unchanged.
\<close>

theorem ListWorkers_alive:
  assumes "any_order splan" "any_order hplan" "any_order wplan"
    and "ListWorkers (tracking_deps_impl splan hplan wplan) hb w = (Inr ws, w')"
    and "0 \<le> hb" "hb < 2 ^ 32" "\<forall>r \<in> set (workers (db w)). \<bar>clock w - w_last_seen r\<bar> < 2 ^ 63"
  shows "mset (map wk_Name ws) = mset (map w_name (workers (db w)))
    \<and> (\<forall>r \<in> set (workers (db w)). \<exists>wk \<in> set ws.
         wk_Name wk = w_name r \<and> wk_ProcessedOrders wk = w_orders_processed r \<and> wk_LastSeen wk = w_last_seen r
         \<and> (wk_Status wk = WorkerOnline
             \<longleftrightarrow> w_status r = WorkerOnline \<and> clock w - w_last_seen r \<le> hb * nanos_per_second))"
proof -
  let ?age = "age_worker (clock w) (offline_threshold hb)"
  have m: "mset ws = image_mset ?age (mset (map scan_worker (workers (db w))))"
    using tracking_env.workers_reported [OF tracking_env_impl [OF assms(1-3)] assms(4)] by simp
  have name: "wk_Name (?age (scan_worker r)) = w_name r" for r by (simp add: age_worker_def scan_worker_def)
  have t: "offline_threshold hb = hb * nanos_per_second" using assms(5,6) by (simp add: offline_threshold_def)
  have "mset (map wk_Name ws) = mset (map w_name (workers (db w)))"
    using m name by (simp add: image_mset.compositionality comp_def)
  moreover have "\<exists>wk \<in> set ws. wk_Name wk = w_name r \<and> wk_ProcessedOrders wk = w_orders_processed r
      \<and> wk_LastSeen wk = w_last_seen r \<and> (wk_Status wk = WorkerOnline
             \<longleftrightarrow> w_status r = WorkerOnline \<and> clock w - w_last_seen r \<le> hb * nanos_per_second)"
    if r: "r \<in> set (workers (db w))" for r
  proof
    have "set_mset (mset ws) = ?age ` scan_worker ` set (workers (db w))" unfolding m by simp
    then show "?age (scan_worker r) \<in> set ws" using r by simp
    have "time_Sub (clock w) (w_last_seen r) = clock w - w_last_seen r"
      using assms(7) r by (auto simp: time_Sub_def abs_less_iff max_def min_def)
    then show "wk_Name (?age (scan_worker r)) = w_name r \<and> wk_ProcessedOrders (?age (scan_worker r)) = w_orders_processed r
      \<and> wk_LastSeen (?age (scan_worker r)) = w_last_seen r \<and> (wk_Status (?age (scan_worker r)) = WorkerOnline
             \<longleftrightarrow> w_status r = WorkerOnline \<and> clock w - w_last_seen r \<le> hb * nanos_per_second)"
      by (auto simp: age_worker_def scan_worker_def t worker_status_defs)
  qed
  ultimately show ?thesis by blast
qed

definition example_worker :: worker_row where
  "example_worker = \<lparr>w_id = 1, w_created_at = 0, w_name = ''chef'', w_type = ''dine_in'', w_status = WorkerOnline,
     w_last_seen = 0, w_orders_processed = 3\<rparr>"

theorem ListWorkers_alive_witness:
  "\<exists>ws w'. ListWorkers (tracking_deps_impl rev rev rev) 30
       ((start_world [])\<lparr>db := empty_db\<lparr>workers := [example_worker]\<rparr>, clock := 31 * nanos_per_second\<rparr>) = (Inr ws, w')
     \<and> map wk_Name ws = [''chef''] \<and> (\<forall>wk \<in> set ws. wk_Status wk \<noteq> WorkerOnline)"
proof -
  let ?w = "(start_world [])\<lparr>db := empty_db\<lparr>workers := [example_worker]\<rparr>, clock := 31 * nanos_per_second\<rparr>"
  obtain ws w' where l: "ListWorkers (tracking_deps_impl rev rev rev) 30 ?w = (Inr ws, w')"
    by (simp add: ListWorkers_def tracking_deps_impl_def worker_List_def query_rows_def exec_auto_def call_def
        raw_call_def with_text_def start_world_def Let_def)
  have f: "workers (db ?w) = [example_worker]" "clock ?w = 31 * nanos_per_second" by simp_all
  have m: "mset (map wk_Name ws) = {#''chef''#}"
    and ex: "\<exists>wk \<in> set ws. wk_Status wk \<noteq> WorkerOnline"
    using ListWorkers_alive [OF example_world_facts(4) example_world_facts(4) example_world_facts(4) l] f
    by (auto simp: example_worker_def)
  have n: "map wk_Name ws = [''chef'']" using m by (metis mset_single_iff_right)
  then have "length ws = 1" by (metis length_map length_Cons list.size(3) One_nat_def)
  then show ?thesis using l ex n by (auto simp: length_Suc_conv)
qed

end
