(* ===== verification/Http.thy ===== *)
theory Http
  imports Order_Intake Tracking
begin

text \<open>
  \<^verbatim>\<open>internal/adapter/http\<close>: the helpers, the error responses, the handlers of the order and the
  tracking service, the middleware and the routes. A response writer keeps the header map
  and, once the header is written, the status; writing a body before that sends 200.
  Request bodies are given by what the JSON decoder makes of them. The character offsets in the
  texts of decoding errors, which are only logged, are not modelled.
\<close>

section \<open>Response writer\<close>

record http_writer =
  hw_header :: "(string \<times> string) list"
  hw_status :: nat
  hw_body :: "json list"

definition new_writer :: http_writer where
  "new_writer = \<lparr>hw_header = [], hw_status = 0, hw_body = []\<rparr>"

definition Header_Set :: "string \<Rightarrow> string \<Rightarrow> http_writer \<Rightarrow> http_writer" where
  "Header_Set k v w = w\<lparr>hw_header := (k, v) # filter (\<lambda>p. fst p \<noteq> k) (hw_header w)\<rparr>"

definition WriteHeader :: "nat \<Rightarrow> http_writer \<Rightarrow> http_writer" where
  "WriteHeader status w = (if hw_status w = 0 then w\<lparr>hw_status := status\<rparr> else w)"

definition Write :: "json \<Rightarrow> http_writer \<Rightarrow> http_writer" where
  "Write b w = (let w' = WriteHeader 200 w in w'\<lparr>hw_body := hw_body w' @ [b]\<rparr>)"

text \<open>
  The interface \<^verbatim>\<open>http.ResponseWriter\<close> as the handlers use it, and the writer of the server. The
  logging middleware gives the handlers a wrapper instead.
\<close>

record 'w response_writer =
  rw_Header_Set :: "string \<Rightarrow> string \<Rightarrow> 'w \<Rightarrow> 'w"
  rw_WriteHeader :: "nat \<Rightarrow> 'w \<Rightarrow> 'w"
  rw_Write :: "json \<Rightarrow> 'w \<Rightarrow> 'w"

definition net_writer :: "http_writer response_writer" where
  "net_writer = \<lparr>rw_Header_Set = Header_Set, rw_WriteHeader = WriteHeader, rw_Write = Write\<rparr>"

section \<open>helpers.go and errors.go\<close>

definition StatusCreated :: nat where "StatusCreated = 201"
definition StatusBadRequest :: nat where "StatusBadRequest = 400"
definition StatusNotFound :: nat where "StatusNotFound = 404"
definition StatusUnprocessableEntity :: nat where "StatusUnprocessableEntity = 422"
definition StatusTooManyRequests :: nat where "StatusTooManyRequests = 429"
definition StatusInternalServerError :: nat where "StatusInternalServerError = 500"

lemmas http_status_defs = StatusCreated_def StatusBadRequest_def StatusNotFound_def
  StatusUnprocessableEntity_def StatusTooManyRequests_def StatusInternalServerError_def

text \<open>\<open>data\<close> is the encoded envelope, \<^const>\<open>None\<close> when it cannot be encoded.\<close>

definition writeJSON :: "'w response_writer \<Rightarrow> nat \<Rightarrow> json option \<Rightarrow> (string \<times> string) list \<Rightarrow> 'w \<Rightarrow> err option \<times> 'w" where
  "writeJSON rw status data headers w =
     (case data of
        None \<Rightarrow> (Some (Opaque ''failed to encode json''), w)
      | Some js \<Rightarrow>
          (None, rw_Write rw js (rw_WriteHeader rw status (rw_Header_Set rw ''Content-Type'' ''application/json''
                   (fold (\<lambda>(k, v). rw_Header_Set rw k v) headers w)))))"

definition errorResponse :: "'w response_writer \<Rightarrow> nat \<Rightarrow> json \<Rightarrow> 'w \<Rightarrow> 'w" where
  "errorResponse rw status message w =
     (case writeJSON rw status (Some (JObj [(''error'', message)])) [] w of
        (None, w') \<Rightarrow> w'
      | (Some _, w') \<Rightarrow> rw_WriteHeader rw 500 w')"

definition failedValidationResponse :: "'w response_writer \<Rightarrow> (string \<times> string) list \<Rightarrow> 'w \<Rightarrow> 'w" where
  "failedValidationResponse rw errors =
     errorResponse rw StatusUnprocessableEntity (JObj (map (\<lambda>(k, m). (k, JStr m)) errors))"

definition internalErrorResponse :: "'w response_writer \<Rightarrow> string \<Rightarrow> 'w \<Rightarrow> 'w" where
  "internalErrorResponse rw message = errorResponse rw StatusInternalServerError (JStr message)"

definition getCode :: "err \<Rightarrow> nat" where
  "getCode e = (if e = ErrOrderNotFound \<or> e = ErrWorkerNotFound then StatusNotFound else StatusInternalServerError)"

text \<open>
  What the decoder finds in a request body: nothing, a syntax error, an unexpected end, more
  than 1 MB, or a value, possibly followed by more data.
\<close>

datatype http_body = NoBody | Malformed | Truncated | TooLarge | Body json bool

definition json_error :: "err \<Rightarrow> err" where
  "json_error e =
     (if starts_with ''json: unknown field '' (ErrorText e)
      then Opaque (''body contains unknown key '' @ drop (length ''json: unknown field '') (ErrorText e))
      else Opaque ''body contains incorrect JSON type'')"

definition readJSON :: "(json \<Rightarrow> 'a result) \<Rightarrow> http_body \<Rightarrow> 'a result" where
  "readJSON decode body =
     (case body of
        NoBody \<Rightarrow> Inl (Opaque ''body must not be empty'')
      | Malformed \<Rightarrow> Inl (Opaque ''body contains badly-formed JSON'')
      | Truncated \<Rightarrow> Inl (Opaque ''body contains badly-formed JSON'')
      | TooLarge \<Rightarrow> Inl (Opaque ''body must not be larger than 1048576 bytes'')
      | Body v trailing \<Rightarrow>
          (case decode v of
             Inl e \<Rightarrow> Inl (json_error e)
           | Inr x \<Rightarrow> if trailing then Inl (Opaque ''body must only contain a single JSON value'') else Inr x))"

section \<open>The order request\<close>

definition zero_OrderItem :: OrderItem where
  "zero_OrderItem = \<lparr>ri_Name = [], ri_Quantity = 0, ri_Price = Fin 0\<rparr>"

definition zero_CreateOrderRequest :: CreateOrderRequest where
  "zero_CreateOrderRequest = \<lparr>rq_CustomerName = [], rq_OrderType = [], rq_Items = [],
     rq_TableNumber = None, rq_DeliveryAddress = None\<rparr>"

definition OrderItem_setter :: "string \<Rightarrow> json \<Rightarrow> OrderItem decoding \<Rightarrow> OrderItem decoding" where
  "OrderItem_setter f =
     (if f = ''name'' then dec_string f (\<lambda>x s. s\<lparr>ri_Name := x\<rparr>)
      else if f = ''quantity'' then dec_int f (\<lambda>x s. s\<lparr>ri_Quantity := x\<rparr>)
      else dec_float f (\<lambda>x s. s\<lparr>ri_Price := x\<rparr>))"

definition request_names :: "string list" where
  "request_names = [''customer_name'', ''order_type'', ''items'', ''table_number'', ''delivery_address'']"

definition CreateOrderRequest_setter :: "string \<Rightarrow> json \<Rightarrow> CreateOrderRequest decoding \<Rightarrow> CreateOrderRequest decoding" where
  "CreateOrderRequest_setter f =
     (if f = ''customer_name'' then dec_string f (\<lambda>x s. s\<lparr>rq_CustomerName := x\<rparr>)
      else if f = ''order_type'' then dec_string f (\<lambda>x s. s\<lparr>rq_OrderType := x\<rparr>)
      else if f = ''items'' then
        dec_slice f (\<lambda>x s. s\<lparr>rq_Items := x\<rparr>) zero_OrderItem (dec_struct True item_names OrderItem_setter)
      else if f = ''table_number'' then dec_ptr_int f (\<lambda>x s. s\<lparr>rq_TableNumber := x\<rparr>)
      else dec_ptr_string f (\<lambda>x s. s\<lparr>rq_DeliveryAddress := x\<rparr>))"

definition decode_CreateOrderRequest :: "json \<Rightarrow> CreateOrderRequest result" where
  "decode_CreateOrderRequest v =
     decoded (dec_struct True request_names CreateOrderRequest_setter v (zero_CreateOrderRequest, None))"

definition order_response :: "CreateOrderRequest \<Rightarrow> OrderCreatedInfo \<Rightarrow> json option" where
  "order_response req info =
     (case enc_float (oi_TotalAmount info) of
        None \<Rightarrow> None
      | Some amount \<Rightarrow> Some (JObj
          [(''customer_name'', JStr (rq_CustomerName req)),
           (''order_info'', JObj [(''order_number'', JStr (oi_Number info)), (''status'', JStr (oi_Status info)),
                                  (''total_amount'', amount)])]))"

text \<open>The handler, for any service with its state \<open>'s\<close>.\<close>

definition handler_CreateOrder ::
  "'w response_writer \<Rightarrow> (CreateOrder \<Rightarrow> 's \<Rightarrow> OrderCreatedInfo result \<times> 's) \<Rightarrow> http_body \<Rightarrow> 'w \<Rightarrow> 's \<Rightarrow> 'w \<times> 's" where
  "handler_CreateOrder rw service body w s =
     (case readJSON decode_CreateOrderRequest body of
        Inl _ \<Rightarrow> (errorResponse rw StatusBadRequest (JStr ''Invalid request body'') w, s)
      | Inr req \<Rightarrow>
          (let createOrder = FromRequestToInternalCreateOrder req;
               v = ValidateCreateOrderRequest (Some createOrder) validator_New
           in if \<not> Valid v then (failedValidationResponse rw (v_Errors v) w, s)
              else case service createOrder s of
                (Inl e, s') \<Rightarrow>
                  (if errors_is e ErrTooManyRequest
                   then errorResponse rw StatusTooManyRequests (JStr (ErrorText e)) w
                   else internalErrorResponse rw (ErrorText e) w, s')
              | (Inr info, s') \<Rightarrow>
                  (case writeJSON rw StatusCreated (order_response req info) [] w of
                     (None, w') \<Rightarrow> (w', s')
                   | (Some e, w') \<Rightarrow> (internalErrorResponse rw (ErrorText e) w', s'))))"

section \<open>tracking.go\<close>

definition enc_opt :: "('a \<Rightarrow> json) \<Rightarrow> 'a option \<Rightarrow> json" where
  "enc_opt f x = (case x of None \<Rightarrow> JNull | Some y \<Rightarrow> f y)"

definition enc_OrderStatus :: "OrderStatus \<Rightarrow> json" where
  "enc_OrderStatus s = JObj [(''order_number'', JStr (os_OrderNumber s)), (''current_status'', JStr (os_Status s)),
     (''updated_at'', JTime (os_UpdatedAt s)), (''estimated_completion'', enc_opt JTime (os_Completion s)),
     (''processed_by'', enc_opt JStr (os_ProcessedBy s))]"

definition enc_OrderHistory :: "OrderHistory \<Rightarrow> json" where
  "enc_OrderHistory h = JObj [(''status'', JStr (oh_Status h)), (''timestamp'', JTime (oh_Timestamp h)),
     (''changed_by'', JStr (oh_ChangedBy h))]"

definition enc_Worker :: "Worker \<Rightarrow> json" where
  "enc_Worker k = JObj [(''worker_name'', JStr (wk_Name k)), (''status'', JStr (wk_Status k)),
     (''orders_processed'', JInt (wk_ProcessedOrders k)), (''last_seen'', JTime (wk_LastSeen k))]"

definition answer :: "'w response_writer \<Rightarrow> ('a \<Rightarrow> json) \<Rightarrow> 'a result \<times> 's \<Rightarrow> 'w \<Rightarrow> 'w \<times> 's" where
  "answer rw enc r w =
     (case r of
        (Inl e, s) \<Rightarrow> (errorResponse rw (getCode e) (JStr (ErrorText e)) w, s)
      | (Inr x, s) \<Rightarrow> (rw_Write rw (enc x) (rw_Header_Set rw ''Content-Type'' ''application/json'' w), s))"

definition handler_GetOrderStatus :: "'w response_writer \<Rightarrow> tracking_deps \<Rightarrow> string \<Rightarrow> 'w \<Rightarrow> world \<Rightarrow> 'w \<times> world" where
  "handler_GetOrderStatus rw deps orderNumber w s = answer rw enc_OrderStatus (GetOrderStatus deps orderNumber s) w"

definition handler_GetTrackingHistory :: "'w response_writer \<Rightarrow> tracking_deps \<Rightarrow> string \<Rightarrow> 'w \<Rightarrow> world \<Rightarrow> 'w \<times> world" where
  "handler_GetTrackingHistory rw deps orderNumber w s =
     answer rw (\<lambda>hs. JArr (map enc_OrderHistory hs)) (GetTrackingHistory deps orderNumber s) w"

definition handler_ListWorkers :: "'w response_writer \<Rightarrow> tracking_deps \<Rightarrow> int \<Rightarrow> 'w \<Rightarrow> world \<Rightarrow> 'w \<times> world" where
  "handler_ListWorkers rw deps heartbeatInt w s =
     answer rw (\<lambda>ws. JArr (map enc_Worker ws)) (ListWorkers deps heartbeatInt s) w"

section \<open>Routes\<close>

text \<open>
  The patterns given to \<^verbatim>\<open>http.ServeMux\<close>, over the segments of a clean, decoded path. A \<^verbatim>\<open>GET\<close>
  pattern also serves \<^verbatim>\<open>HEAD\<close>; a path that only other methods match gets 405.
\<close>

datatype route = RHealth | RCreateOrder | ROrderStatus string | ROrderHistory string | RWorkers
  | RNotFound | RMethodNotAllowed

definition get_route :: "string \<Rightarrow> route \<Rightarrow> route" where
  "get_route method r = (if method = ''GET'' \<or> method = ''HEAD'' then r else RMethodNotAllowed)"

definition setupOrderRoutes :: "string \<Rightarrow> string list \<Rightarrow> route" where
  "setupOrderRoutes method path =
     (if path = [''orders''] then if method = ''POST'' then RCreateOrder else RMethodNotAllowed else RNotFound)"

definition setupTrackingRoutes :: "string \<Rightarrow> string list \<Rightarrow> route" where
  "setupTrackingRoutes method path =
     (case path of
        [a, b] \<Rightarrow> if a = ''workers'' \<and> b = ''status'' then get_route method RWorkers else RNotFound
      | [a, n, b] \<Rightarrow>
          if a = ''orders'' \<and> b = ''status'' then get_route method (ROrderStatus n)
          else if a = ''orders'' \<and> b = ''history'' then get_route method (ROrderHistory n) else RNotFound
      | _ \<Rightarrow> RNotFound)"

definition setupRoutes :: "string \<Rightarrow> string \<Rightarrow> string list \<Rightarrow> route" where
  "setupRoutes mode method path =
     (if path = [''health''] then RHealth
      else if mode = ModeOrder then setupOrderRoutes method path
      else if mode = ModeTracking then setupTrackingRoutes method path
      else RNotFound)"

definition HealthCheck :: "'w response_writer \<Rightarrow> string \<Rightarrow> 'w \<Rightarrow> 'w" where
  "HealthCheck rw addr w =
     rw_Write rw (JObj [(''status'', JStr ''available''), (''system_info'', JObj [(''address'', JStr addr)])])
       (rw_Header_Set rw ''Content-Type'' ''application/json'' w)"

section \<open>Middleware\<close>

definition hex_digit :: "nat \<Rightarrow> char" where
  "hex_digit n = (if n < 10 then char_of (48 + n) else char_of (87 + n))"

definition EncodeToString :: "nat list \<Rightarrow> string" where
  "EncodeToString bs = concat (map (\<lambda>b. [hex_digit (b div 16), hex_digit (b mod 16)]) bs)"

text \<open>\<open>draw\<close> is what \<^verbatim>\<open>crypto/rand\<close> delivered, \<^const>\<open>None\<close> when it failed.\<close>

definition newRequestID :: "nat list option \<Rightarrow> instant \<Rightarrow> string" where
  "newRequestID draw now =
     (case draw of
        None \<Rightarrow> EncodeToString (map of_char (fmt_d now))
      | Some bs \<Rightarrow> EncodeToString bs)"

definition RequestIDMiddleware ::
  "string \<Rightarrow> nat list option \<Rightarrow> instant \<Rightarrow> (string \<Rightarrow> http_writer \<Rightarrow> 'r) \<Rightarrow> http_writer \<Rightarrow> 'r" where
  "RequestIDMiddleware header draw now next w =
     (let reqID = (if header = [] then newRequestID draw now else header)
      in next reqID (Header_Set ''X-Request-ID'' reqID w))"

text \<open>The wrapper of the logging middleware: a writer and the status it will log.\<close>

definition wrapper_WriteHeader :: "nat \<Rightarrow> http_writer \<times> nat \<Rightarrow> http_writer \<times> nat" where
  "wrapper_WriteHeader status rw = (WriteHeader status (fst rw), status)"

definition wrapper_Write :: "json \<Rightarrow> http_writer \<times> nat \<Rightarrow> http_writer \<times> nat" where
  "wrapper_Write b rw = (Write b (fst rw), if snd rw = 0 then 200 else snd rw)"

definition wrapper :: "(http_writer \<times> nat) response_writer" where
  "wrapper = \<lparr>rw_Header_Set = (\<lambda>k v. apfst (Header_Set k v)), rw_WriteHeader = wrapper_WriteHeader, rw_Write = wrapper_Write\<rparr>"

section \<open>server.go\<close>

text \<open>
  A listener belongs to the server value that opened it. \<^verbatim>\<open>http.ListenAndServe\<close> makes a server of
  its own; \<^verbatim>\<open>Shutdown\<close> closes the listeners of its receiver. \<open>busy\<close> says whether a connection
  of the receiver outlives the timeout of five seconds.
\<close>

datatype listener = Own_Server | Package_Server

record API =
  api_mode :: string
  api_addr :: string
  api_listeners :: "listener list"

definition API_New :: "Config \<Rightarrow> API" where
  "API_New cfg = \<lparr>api_mode = cf_Mode cfg, api_addr = ''0.0.0.0:'' @ fmt_d (cf_Port cfg), api_listeners = []\<rparr>"

definition server_Shutdown :: "bool \<Rightarrow> API \<Rightarrow> err option \<times> API" where
  "server_Shutdown busy a =
     (if Own_Server \<in> set (api_listeners a) \<and> busy then Some (Opaque ''context deadline exceeded'') else None,
      a\<lparr>api_listeners := filter (\<lambda>l. l \<noteq> Own_Server) (api_listeners a)\<rparr>)"

definition API_Stop :: "bool \<Rightarrow> API \<Rightarrow> err option \<times> API" where
  "API_Stop busy a =
     (case server_Shutdown busy a of
        (Some e, a') \<Rightarrow> (Some (errorf_w ''error shutting down server: '' e), a')
      | (None, a') \<Rightarrow> (None, a'))"

text \<open>\<open>fault\<close> is the error of listening, if any; it is sent to the error channel.\<close>

definition API_Run :: "err option \<Rightarrow> API \<Rightarrow> err list \<times> API" where
  "API_Run fault a =
     (case fault of
        Some e \<Rightarrow> ([errorf_w ''failed to start HTTP server: '' e], a)
      | None \<Rightarrow> ([], a\<lparr>api_listeners := api_listeners a @ [Package_Server]\<rparr>))"

section \<open>Properties\<close>

lemma net_writer_simps [simp]:
  "rw_Header_Set net_writer = Header_Set" "rw_WriteHeader net_writer = WriteHeader" "rw_Write net_writer = Write"
  by (simp_all add: net_writer_def)

lemma writer_simps [simp]:
  "hw_status (Header_Set k v w) = hw_status w" "hw_body (Header_Set k v w) = hw_body w"
  "hw_status (WriteHeader n w) = (if hw_status w = 0 then n else hw_status w)"
  "hw_body (WriteHeader n w) = hw_body w" "hw_header (WriteHeader n w) = hw_header w"
  "hw_status (Write b w) = (if hw_status w = 0 then 200 else hw_status w)" "hw_body (Write b w) = hw_body w @ [b]"
  "hw_header (Write b w) = hw_header w" "hw_status new_writer = 0" "hw_body new_writer = []"
  by (simp_all add: Header_Set_def WriteHeader_def Write_def new_writer_def Let_def)

lemma map_of_Header_Set [simp]: "map_of (hw_header (Header_Set k v w)) = (map_of (hw_header w))(k \<mapsto> v)"
proof -
  have "map_of (filter (\<lambda>p. fst p \<noteq> k) xs) x = (if x = k then None else map_of xs x)" for xs :: "(string \<times> string) list" and x
    by (induction xs) auto
  then show ?thesis by (auto simp: Header_Set_def fun_eq_iff)
qed

definition json_sent :: "nat \<Rightarrow> json \<Rightarrow> http_writer \<Rightarrow> bool" where
  "json_sent status b w \<longleftrightarrow> hw_status w = status \<and> hw_body w = [b]
     \<and> map_of (hw_header w) ''Content-Type'' = Some ''application/json''"

lemma errorResponse_sent:
  "hw_status w = 0 \<Longrightarrow> hw_body w = [] \<Longrightarrow> status \<noteq> 0 \<Longrightarrow> json_sent status (JObj [(''error'', m)]) (errorResponse net_writer status m w)"
  by (simp add: errorResponse_def writeJSON_def json_sent_def)

definition create_order_outcome ::
  "(CreateOrder \<Rightarrow> 's \<Rightarrow> OrderCreatedInfo result \<times> 's) \<Rightarrow> http_body \<Rightarrow> 's \<Rightarrow> nat \<times> 's" where
  "create_order_outcome service body s =
     (case readJSON decode_CreateOrderRequest body of
        Inl _ \<Rightarrow> (400, s)
      | Inr req \<Rightarrow>
          if \<not> acceptable (FromRequestToInternalCreateOrder req) then (422, s)
          else case service (FromRequestToInternalCreateOrder req) s of
            (Inl e, s') \<Rightarrow> (if errors_is e ErrTooManyRequest then 429 else 500, s')
          | (Inr info, s') \<Rightarrow> (case oi_TotalAmount info of Fin _ \<Rightarrow> 201 | _ \<Rightarrow> 500, s'))"

text \<open>
  C24. The order endpoint answers every request with one JSON body and a code of its own for every outcome:
  400 for an undecodable body and 422 for a request that breaks a rule, in both cases
  without calling the service; otherwise the service is called once, and the code is 429 when
  it was too busy, 500 on any other error or when the total cannot be encoded, 201 on success. The task description asks for 400
  when a rule is broken and for 200 on success.
\<close>

theorem handler_CreateOrder_codes:
  "handler_CreateOrder net_writer service body new_writer s = (w', s') \<Longrightarrow>
     (\<exists>b. json_sent (hw_status w') b w') \<and> (hw_status w', s') = create_order_outcome service body s"
proof -
  assume h: "handler_CreateOrder net_writer service body new_writer s = (w', s')"
  note er = errorResponse_sent [of new_writer]
  show ?thesis
  proof (cases "readJSON decode_CreateOrderRequest body")
    case (Inl e)
    with h er [of StatusBadRequest] show ?thesis
      by (auto simp: handler_CreateOrder_def create_order_outcome_def json_sent_def StatusBadRequest_def)
  next
    case (Inr req)
    let ?m = "FromRequestToInternalCreateOrder req"
    show ?thesis
    proof (cases "acceptable ?m")
      case False
      with h Inr er [of StatusUnprocessableEntity] show ?thesis
        by (auto simp: handler_CreateOrder_def create_order_outcome_def Let_def Valid_request
            failedValidationResponse_def json_sent_def StatusUnprocessableEntity_def)
    next
      case True
      obtain r s1 where r: "service ?m s = (r, s1)" by (cases "service ?m s")
      show ?thesis
      proof (cases r)
        case (Inl e)
        with h Inr True r er [of StatusTooManyRequests] er [of StatusInternalServerError] show ?thesis
          by (auto simp: handler_CreateOrder_def create_order_outcome_def Let_def Valid_request
              internalErrorResponse_def json_sent_def StatusTooManyRequests_def StatusInternalServerError_def)
      next
        case (Inr info)
        with h \<open>readJSON decode_CreateOrderRequest body = Inr req\<close> True r er [of StatusInternalServerError]
        show ?thesis
          by (cases "oi_TotalAmount info")
            (auto simp: handler_CreateOrder_def create_order_outcome_def Let_def Valid_request order_response_def
              writeJSON_def internalErrorResponse_def json_sent_def StatusCreated_def StatusInternalServerError_def)
      qed
    qed
  qed
qed

theorem handler_CreateOrder_codes_witness:
  "\<exists>w' s'. handler_CreateOrder net_writer (\<lambda>m s. (Inl ErrTooManyRequest, s + 1)) (Body (JStr ''pizza'') False) new_writer (0::nat) = (w', s')
     \<and> hw_status w' = 400 \<and> s' = 0"
proof -
  obtain w' s' where h: "handler_CreateOrder net_writer (\<lambda>m s. (Inl ErrTooManyRequest, s + 1))
      (Body (JStr ''pizza'') False) new_writer (0::nat) = (w', s')" by fastforce
  have "\<exists>e. readJSON decode_CreateOrderRequest (Body (JStr ''pizza'') False) = Inl e"
    by (simp add: readJSON_def decode_CreateOrderRequest_def dec_struct_def mismatch_def decoded_def first_error_def)
  with handler_CreateOrder_codes [OF h] h show ?thesis by (auto simp: create_order_outcome_def)
qed

text \<open>
  C32. The tracking endpoints over a live database: an order's status and history are
  answered with 200 exactly for the orders that exist, with 404 for any other number the database accepts
  as text and with 500 for one it does not; the list of workers is answered with 200, or with 404 when
  no worker is registered.
\<close>

theorem tracking_endpoints:
  assumes "any_order splan" "any_order hplan" "any_order wplan" "live_db s"
    and "deps = tracking_deps_impl splan hplan wplan"
    and "code = (if has_order s n then 200 else if pg_text n then 404 else 500)"
  shows "hw_status (fst (handler_GetOrderStatus net_writer deps n new_writer s)) = code
    \<and> hw_status (fst (handler_GetTrackingHistory net_writer deps n new_writer s)) = code
    \<and> hw_status (fst (handler_ListWorkers net_writer deps hb new_writer s)) = (if workers (db s) = [] then 404 else 200)"
proof -
  note env = tracking_env_impl [OF assms(1-3)]
  have sent: "hw_status (fst (answer net_writer enc r new_writer)) = (case fst r of Inl e \<Rightarrow> getCode e | Inr _ \<Rightarrow> 200)"
    for enc :: "'a \<Rightarrow> json" and r :: "'a result \<times> world"
    by (cases r; cases "fst r") (auto simp: answer_def errorResponse_def writeJSON_def getCode_def http_status_defs)
  have not_found: "getCode ErrOrderNotFound = 404" "getCode ErrWorkerNotFound = 404" "getCode (errorf_v op e) = 500" for op e
    by (simp_all add: getCode_def http_status_defs ErrOrderNotFound_def ErrWorkerNotFound_def)
  note st = tracking_env.status_answers [OF env assms(4), of n, folded assms(5)]
  note hi = tracking_env.history_answers [OF env assms(4), of n, folded assms(5)]
  have "(case fst (GetOrderStatus deps n s) of Inl e \<Rightarrow> getCode e | Inr _ \<Rightarrow> 200) = code"
    using st assms(6) not_found by (cases "GetOrderStatus deps n s"; cases "fst (GetOrderStatus deps n s)") (auto split: if_splits)
  moreover have "(case fst (GetTrackingHistory deps n s) of Inl e \<Rightarrow> getCode e | Inr _ \<Rightarrow> 200) = code"
    using hi assms(6) not_found by (cases "GetTrackingHistory deps n s"; cases "fst (GetTrackingHistory deps n s)") (auto split: if_splits)
  moreover have "(case fst (ListWorkers deps hb s) of Inl e \<Rightarrow> getCode e | Inr _ \<Rightarrow> 200) = (if workers (db s) = [] then 404 else 200)"
    using tracking_env.workers_answer [OF env assms(4), of hb, folded assms(5)] not_found
    by (cases "fst (ListWorkers deps hb s)") auto
  ultimately show ?thesis
    by (simp add: handler_GetOrderStatus_def handler_GetTrackingHistory_def handler_ListWorkers_def sent)
qed

theorem tracking_endpoints_witness:
  "hw_status (fst (handler_GetOrderStatus net_writer (tracking_deps_impl rev rev rev) ''ORD_20250101_001'' new_writer example_world)) = 200
   \<and> hw_status (fst (handler_GetTrackingHistory net_writer (tracking_deps_impl rev rev rev) ''ORD_x'' new_writer example_world)) = 404
   \<and> hw_status (fst (handler_GetOrderStatus net_writer (tracking_deps_impl rev rev rev) (bytes [0]) new_writer example_world)) = 500
   \<and> hw_status (fst (handler_ListWorkers net_writer (tracking_deps_impl rev rev rev) 30 new_writer example_world)) = 404"
proof -
  have l: "live_db example_world" using example_world_facts by (simp add: live_db_def)
  have k: "has_order example_world ''ORD_20250101_001''" "\<not> has_order example_world ''ORD_x''"
    "\<not> has_order example_world (bytes [0])" "\<not> pg_text (bytes [0])" "workers (db example_world) = []"
    by (simp_all add: has_order_def example_world_def example_row_def start_world_def empty_db_def order_status_def
        find_order_def bytes_def pg_text_def)
  note t = tracking_endpoints [OF example_world_facts(4) example_world_facts(4) example_world_facts(4) l refl refl, where hb = 30]
  show ?thesis
    using t [of "''ORD_20250101_001''"] t [of "''ORD_x''"] t [of "bytes [0]"] k by simp
qed

section \<open>Request identifiers\<close>

lemma hex_digit_inject: "m < 16 \<Longrightarrow> n < 16 \<Longrightarrow> hex_digit m = hex_digit n \<longleftrightarrow> m = n"
proof
  assume l: "m < 16" "n < 16" and e: "hex_digit m = hex_digit n"
  have "(of_char (hex_digit k) :: nat) = (if k < 10 then 48 + k else 87 + k)" if "k < 16" for k
    using that by (simp add: hex_digit_def)
  with l e show "m = n" by (auto split: if_splits dest!: arg_cong [of _ _ "of_char :: char \<Rightarrow> nat"])
qed simp

lemma EncodeToString_inject:
  "list_all (\<lambda>b. b < 256) bs \<Longrightarrow> list_all (\<lambda>b. b < 256) bs' \<Longrightarrow> EncodeToString bs = EncodeToString bs' \<longleftrightarrow> bs = bs'"
proof (induction bs arbitrary: bs')
  case Nil
  then show ?case by (cases bs') (simp_all add: EncodeToString_def)
next
  case (Cons b bs)
  show ?case
  proof (cases bs')
    case (Cons c cs)
    have "b = c" if "b div 16 = c div 16" "b mod 16 = c mod 16" using that by (metis div_mod_decomp)
    moreover have "b div 16 < 16" "c div 16 < 16" using Cons.prems Cons by (simp_all add: less_mult_imp_div_less)
    ultimately show ?thesis
      using Cons Cons.prems Cons.IH [of cs] hex_digit_inject [of "b div 16" "c div 16"]
        hex_digit_inject [of "b mod 16" "c mod 16"]
      by (auto simp: EncodeToString_def)
  qed (simp add: EncodeToString_def)
qed

lemma length_EncodeToString [simp]: "length (EncodeToString bs) = 2 * length bs"
  by (induction bs) (simp_all add: EncodeToString_def)

text \<open>
  Every request has an identifier, the one of its header if it brought one: the handler
  runs with a non-empty identifier, the response echoes that identifier, and identifiers
  generated from different random bytes differ.
\<close>

theorem request_id_assigned:
  assumes "\<forall>bs. draw = Some bs \<longrightarrow> bs \<noteq> [] \<and> list_all (\<lambda>b. b < 256) bs"
  shows "\<exists>reqID. RequestIDMiddleware header draw now (\<lambda>r w. (r, w)) w = (reqID, Header_Set ''X-Request-ID'' reqID w)
    \<and> reqID \<noteq> [] \<and> map_of (hw_header (Header_Set ''X-Request-ID'' reqID w)) ''X-Request-ID'' = Some reqID
    \<and> (header \<noteq> [] \<longrightarrow> reqID = header)
    \<and> (\<forall>bs bs'. header = [] \<and> draw = Some bs \<and> list_all (\<lambda>b. b < 256) bs' \<longrightarrow>
         (reqID = newRequestID (Some bs') now \<longleftrightarrow> bs = bs') \<and> length reqID = 2 * length bs)"
proof -
  let ?r = "if header = [] then newRequestID draw now else header"
  have "fmt_d now \<noteq> []" by (simp add: fmt_d_def dec_nat.simps [of "nat now"])
  then have "newRequestID draw now \<noteq> []"
    using assms length_EncodeToString [of "the draw"] length_EncodeToString [of "map of_char (fmt_d now)"]
    by (cases draw) (auto simp: newRequestID_def simp del: length_EncodeToString)
  then show ?thesis
    using assms EncodeToString_inject
    by (intro exI [of _ ?r]) (auto simp: RequestIDMiddleware_def Let_def newRequestID_def)
qed

theorem request_id_assigned_witness:
  "\<exists>reqID. RequestIDMiddleware [] (Some [159, 134]) 0 (\<lambda>r w. (r, w)) new_writer
       = (reqID, Header_Set ''X-Request-ID'' reqID new_writer) \<and> length reqID = 4"
proof -
  have h: "\<forall>bs. Some [159, 134] = Some bs \<longrightarrow> bs \<noteq> [] \<and> list_all (\<lambda>b. b < 256) (bs :: nat list)" by simp
  obtain reqID where r: "RequestIDMiddleware [] (Some [159, 134]) 0 (\<lambda>r w. (r, w)) new_writer
       = (reqID, Header_Set ''X-Request-ID'' reqID new_writer)"
    "\<forall>bs bs'. [] = ([] :: string) \<and> Some [159, 134] = Some bs \<and> list_all (\<lambda>b. b < 256) bs' \<longrightarrow>
         (reqID = newRequestID (Some bs') 0 \<longleftrightarrow> bs = bs') \<and> length reqID = 2 * length bs"
    using request_id_assigned [OF h, of "[]" 0 new_writer] by blast
  from r(2) [rule_format, of "[159, 134]" "[]"] have "length reqID = 4" by simp
  with r(1) show ?thesis by blast
qed

text \<open>
  Stopping the server does not stop it: the listener that Run opens belongs to another
  server value than the one Stop shuts down, so after a successful start and a successful stop
  the address is still served.
\<close>

theorem Stop_leaves_listener:
  "\<exists>a1 a2. API_Run None (API_New cfg) = ([], a1) \<and> API_Stop busy a1 = (None, a2)
     \<and> api_listeners a2 = [Package_Server]"
  by (simp add: API_Run_def API_New_def API_Stop_def server_Shutdown_def)

end
