(* ===== verification/Order_Consumer.thy ===== *)
theory Order_Consumer
  imports Routing "HOL-Library.Sublist"
begin

text \<open>
  \<^verbatim>\<open>internal/adapter/rabbit/order-consumer.go\<close>: the kitchen's consumer of order messages, and
  the closing of a client (\<^verbatim>\<open>pkg/rabbit\<close>). The consumer has a client of its own, so its
  closed flag is kept apart from that of the producer, which is \<open>conn_closed\<close> of the world.
  The messages, the end of the message channel and the end of the context reach the select
  loop as a list of events, in the order in which the loop takes its branches.
\<close>

section \<open>Clients\<close>

definition on_client :: "(world \<Rightarrow> 'r \<times> world) \<Rightarrow> bool \<Rightarrow> world \<Rightarrow> 'r \<times> bool \<times> world" where
  "on_client f shut w =
     (case f (w\<lparr>conn_closed := shut\<rparr>) of (r, w') \<Rightarrow> (r, conn_closed w', w'\<lparr>conn_closed := conn_closed w\<rparr>))"

definition channel_command :: "amqp_cmd \<Rightarrow> world \<Rightarrow> err option \<times> world" where
  "channel_command c w = (if conn_closed w then (Some amqp_ErrClosed, w) else channel_send c w)"

text \<open>
  A select between the result of a closing goroutine and the context: \<open>FailApplied\<close> is a
  context that ends first. A done context is preferred.
\<close>

definition await_close :: "world \<Rightarrow> err option \<times> world" where
  "await_close w =
     (if ctx_err w \<noteq> None then (None, w)
      else case raw_call w of
             (NoFault, w') \<Rightarrow> (None, w')
           | (Fail e, w') \<Rightarrow> (Some e, w')
           | (FailApplied e, w') \<Rightarrow> (None, w'\<lparr>ctx_err := Some e\<rparr>))"

definition CloseWithContext :: "world \<Rightarrow> err option \<times> world" where
  "CloseWithContext w =
     (case IsConnectionClosed w of
        (True, w1) \<Rightarrow> (None, w1)
      | (False, w1) \<Rightarrow>
          (case await_close (snd (await_close w1)) of
             (Some e, w2) \<Rightarrow> (Some (errorf_w ''failed to close connection: '' e), w2\<lparr>conn_closed := True\<rparr>)
           | (None, w2) \<Rightarrow> (None, w2\<lparr>conn_closed := True\<rparr>)))"

section \<open>The consumer\<close>

definition ErrNilOrder :: err where
  "ErrNilOrder = Sentinel ''kitchen.ErrNilOrder'' ''nil order''"

definition isRecoverableError :: "err \<Rightarrow> bool" where
  "isRecoverableError e = errors_is e ErrNilOrder"

record OrderConsumer =
  oc_closed :: bool
  oc_prefetchCount :: int
  oc_exchangeOrder :: string
  oc_orderTypes :: "string list"
  oc_cfg :: RabbitMQ_cfg

definition open_order_client :: "RabbitMQ_cfg \<Rightarrow> string list \<Rightarrow> world \<Rightarrow> err option \<times> world" where
  "open_order_client cfg orderTypes w =
     (case rabbit_New w of
        (Some e, w1) \<Rightarrow> (Some e, w1)
      | (None, w1) \<Rightarrow>
          (case channel_send (ExchangeDeclare (rm_OrderExchange cfg) ''topic'') w1 of
             (Some e, w2) \<Rightarrow> (Some (errorf_w ''failed to declare exchange: '' e), w2)
           | (None, w2) \<Rightarrow> InitQueuesForOrderTypes (rm_OrderExchange cfg) orderTypes w2))"

definition NewOrderConsumer :: "RabbitMQ_cfg \<Rightarrow> int \<Rightarrow> string list \<Rightarrow> world \<Rightarrow> OrderConsumer result \<times> world" where
  "NewOrderConsumer cfg prefetchCount orderTypes w =
     (if orderTypes = [] then (Inl (Opaque ''orderTypes not provided, slice len 0''), w)
      else case on_client (open_order_client cfg orderTypes) True w of
             (Some e, shut, w1) \<Rightarrow> (Inl e, w1)
           | (None, shut, w1) \<Rightarrow>
               (Inr \<lparr>oc_closed = shut, oc_prefetchCount = prefetchCount, oc_exchangeOrder = rm_OrderExchange cfg,
                     oc_orderTypes = orderTypes, oc_cfg = cfg\<rparr>, w1))"

definition start_consuming :: "OrderConsumer \<Rightarrow> string \<Rightarrow> world \<Rightarrow> err option \<times> world" where
  "start_consuming c orderType w =
     (case ensure_connected (oc_cfg c) w of
        (Some e, w1) \<Rightarrow> (Some e, w1)
      | (None, w1) \<Rightarrow>
          (case channel_command (Qos (oc_prefetchCount c)) w1 of
             (Some e, w2) \<Rightarrow> (Some (errorf_w ''failed to set QoS: '' e), w2)
           | (None, w2) \<Rightarrow>
               (case channel_command (amqp_cmd.Consume (getQueueByOrderType orderType)) w2 of
                  (Some e, w3) \<Rightarrow> (Some (errorf_w ''failed to start consuming: '' e), w3)
                | (None, w3) \<Rightarrow> (None, w3))))"

text \<open>The errors of \<^verbatim>\<open>Ack\<close> and \<^verbatim>\<open>Nack\<close> are ignored.\<close>

definition settle :: "amqp_cmd \<Rightarrow> world \<Rightarrow> world" where
  "settle c w = snd (channel_send c w)"

definition handle_delivery :: "(string option \<Rightarrow> CreateOrder \<Rightarrow> 's \<Rightarrow> world \<Rightarrow> err option \<times> 's \<times> world)
    \<Rightarrow> nat \<Rightarrow> json option \<Rightarrow> string option \<Rightarrow> 's \<Rightarrow> world \<Rightarrow> string option \<times> 's \<times> world" where
  "handle_delivery handler tag body ctx s w =
     (case ToInternalOrder body of
        Inl e \<Rightarrow> (ctx, s, settle (Nack tag False) w)
      | Inr req \<Rightarrow>
          (let ctx' = if om_RequestID req \<noteq> [] then Some (om_RequestID req) else ctx in
           case FromPublishToInternalOrder (Some req) of
             None \<Rightarrow> (ctx', s, settle (Nack tag False) w)
           | Some order \<Rightarrow>
               (case handler ctx' order s w of
                  (Some e, s', w') \<Rightarrow> (ctx', s', settle (Nack tag (isRecoverableError e)) w')
                | (None, s', w') \<Rightarrow> (ctx', s', settle (Ack tag) w'))))"

datatype consumer_event = Delivery nat "json option" | MsgsClosed | CtxDone err

text \<open>One turn of the select; \<^const>\<open>True\<close>: the loop returned nil.\<close>

fun consumer_step :: "(string option \<Rightarrow> CreateOrder \<Rightarrow> 's \<Rightarrow> world \<Rightarrow> err option \<times> 's \<times> world)
    \<Rightarrow> consumer_event \<Rightarrow> string option \<Rightarrow> 's \<Rightarrow> world \<Rightarrow> bool \<times> string option \<times> 's \<times> world" where
  "consumer_step handler (Delivery tag body) ctx s w = (False, handle_delivery handler tag body ctx s w)"
| "consumer_step handler MsgsClosed ctx s w = (True, ctx, s, w)"
| "consumer_step handler (CtxDone e) ctx s w =
     (True, ctx, s, if ctx_err w = None then w\<lparr>ctx_err := Some e\<rparr> else w)"

fun consumer_loop :: "(string option \<Rightarrow> CreateOrder \<Rightarrow> 's \<Rightarrow> world \<Rightarrow> err option \<times> 's \<times> world)
    \<Rightarrow> consumer_event list \<Rightarrow> string option \<Rightarrow> 's \<Rightarrow> world \<Rightarrow> bool \<times> string option \<times> 's \<times> world" where
  "consumer_loop handler [] ctx s w = (False, ctx, s, w)"
| "consumer_loop handler (ev # evs) ctx s w =
     (case consumer_step handler ev ctx s w of
        (True, ctx', s', w') \<Rightarrow> (True, ctx', s', w')
      | (False, ctx', s', w') \<Rightarrow> consumer_loop handler evs ctx' s' w')"

text \<open>\<open>Consuming\<close>: the events are used up and the loop still waits.\<close>

datatype consume_result = Consuming | Ended "err option"

definition order_consumer_Consume :: "(string option \<Rightarrow> CreateOrder \<Rightarrow> 's \<Rightarrow> world \<Rightarrow> err option \<times> 's \<times> world)
    \<Rightarrow> string \<Rightarrow> consumer_event list \<Rightarrow> string option \<Rightarrow> OrderConsumer \<Rightarrow> 's \<Rightarrow> world
    \<Rightarrow> consume_result \<times> OrderConsumer \<times> 's \<times> world" where
  "order_consumer_Consume handler orderType evs ctx c s w =
     (case on_client (start_consuming c orderType) (oc_closed c) w of
        (Some e, shut, w1) \<Rightarrow> (Ended (Some e), c\<lparr>oc_closed := shut\<rparr>, s, w1)
      | (None, shut, w1) \<Rightarrow>
          (case consumer_loop handler evs ctx s w1 of
             (ended, _, s', w2) \<Rightarrow> (if ended then Ended None else Consuming, c\<lparr>oc_closed := shut\<rparr>, s', w2)))"

definition order_consumer_Close :: "OrderConsumer \<Rightarrow> world \<Rightarrow> err option \<times> OrderConsumer \<times> world" where
  "order_consumer_Close c w =
     (case on_client (\<lambda>u. case IsConnectionClosed u of
                             (True, u1) \<Rightarrow> (None, u1)
                           | (False, u1) \<Rightarrow> CloseWithContext u1) (oc_closed c) w of
        (r, shut, w1) \<Rightarrow> (r, c\<lparr>oc_closed := shut\<rparr>, w1))"

section \<open>Settlements\<close>

fun settled_tag :: "amqp_cmd \<Rightarrow> nat list" where
  "settled_tag (Ack t) = [t]"
| "settled_tag (Nack t b) = [t]"
| "settled_tag c = []"

definition settlements :: "amqp_cmd list \<Rightarrow> nat list" where
  "settlements cs = concat (map settled_tag cs)"

fun delivered :: "consumer_event list \<Rightarrow> nat list" where
  "delivered [] = []"
| "delivered (Delivery t b # evs) = t # delivered evs"
| "delivered (_ # evs) = []"

lemma settlements_append [simp]: "settlements (a @ b) = settlements a @ settlements b"
  by (simp add: settlements_def)

lemma settle_eqD:
  "amqp (settle c w) = amqp w \<or> amqp (settle c w) = amqp w @ [c]"
  "db (settle c w) = db w" "conn_closed (settle c w) = conn_closed w" "ctx_err (settle c w) = ctx_err w"
  using channel_send_eqD [of c w] by (metis settle_def prod.collapse)+

lemma quiet_settle: "quiet w \<Longrightarrow> quiet (settle c w) \<and> amqp (settle c w) = amqp w @ [c]"
  using quiet_channel_send [of w c] channel_send_eqD(4) [of c w] by (auto simp: settle_def)

text \<open>A handler that settles no message itself, on databases with the invariant \<open>I\<close>.\<close>

definition no_settling :: "(database \<Rightarrow> bool) \<Rightarrow> (string option \<Rightarrow> CreateOrder \<Rightarrow> 's \<Rightarrow> world \<Rightarrow> err option \<times> 's \<times> world) \<Rightarrow> bool" where
  "no_settling I handler \<longleftrightarrow>
     (\<forall>ctx req s w r s' w'. I (db w) \<longrightarrow> handler ctx req s w = (r, s', w') \<longrightarrow>
        I (db w') \<and> settlements (amqp w') = settlements (amqp w))"

lemma settle_settlements:
  "settlements (amqp (settle c w)) = settlements (amqp w)
   \<or> settlements (amqp (settle c w)) = settlements (amqp w) @ settled_tag c"
  using settle_eqD(1) [of c w] by (auto simp: settlements_def)

lemma handle_delivery_settles:
  assumes "no_settling I handler" "I (db w)" "handle_delivery handler tag body ctx s w = (ctx', s', w')"
  shows "I (db w')" "settlements (amqp w') = settlements (amqp w) \<or> settlements (amqp w') = settlements (amqp w) @ [tag]"
proof -
  have "I (db w') \<and> (settlements (amqp w') = settlements (amqp w) \<or> settlements (amqp w') = settlements (amqp w) @ [tag])"
  proof (cases "ToInternalOrder body")
    case (Inl e)
    then show ?thesis using assms(2,3) settle_settlements [of "Nack tag False" w] settle_eqD(2) by (auto simp: handle_delivery_def)
  next
    case (Inr req)
    let ?ctx = "if om_RequestID req \<noteq> [] then Some (om_RequestID req) else ctx"
    obtain order where o: "FromPublishToInternalOrder (Some req) = Some order" by (simp add: FromPublishToInternalOrder_def)
    obtain r s1 w1 where h: "handler ?ctx order s w = (r, s1, w1)" using prod_cases3 by blast
    have "I (db w1)" "settlements (amqp w1) = settlements (amqp w)" using assms(1,2) h unfolding no_settling_def by blast+
    then show ?thesis
      using assms(3) h o Inr settle_settlements [of _ w1] settle_eqD(2) [of _ w1]
      by (cases r) (fastforce simp: handle_delivery_def Let_def)+
  qed
  then show "I (db w')" "settlements (amqp w') = settlements (amqp w) \<or> settlements (amqp w') = settlements (amqp w) @ [tag]"
    by blast+
qed

lemma consumer_loop_settles:
  assumes "no_settling I handler"
  shows "I (db w) \<Longrightarrow> consumer_loop handler evs ctx s w = (b, ctx', s', w') \<Longrightarrow>
    I (db w') \<and> (\<exists>ts. subseq ts (delivered evs) \<and> settlements (amqp w') = settlements (amqp w) @ ts)"
proof (induction evs arbitrary: ctx s w)
  case (Cons ev evs)
  show ?case
  proof (cases ev)
    case (Delivery tag body)
    obtain ctx1 s1 w1 where h: "handle_delivery handler tag body ctx s w = (ctx1, s1, w1)" using prod_cases3 by blast
    note d = handle_delivery_settles [OF assms Cons.prems(1) h]
    with Cons Delivery h obtain ts where ts: "I (db w')" "subseq ts (delivered evs)" "settlements (amqp w') = settlements (amqp w1) @ ts"
      by fastforce
    then have "subseq ts (delivered (ev # evs))" "subseq (tag # ts) (delivered (ev # evs))" using Delivery by auto
    with d(2) ts(1,3) show ?thesis by (metis append.assoc append_Cons append_Nil)
  qed (use Cons.prems in \<open>auto split: if_splits\<close>)
qed simp

end
