(* ===== verification/Kitchen.thy ===== *)
theory Kitchen
  imports Registry Order_Consumer "HOL-Library.AList"
begin

text \<open>
  \<^verbatim>\<open>internal/services/kitchen\<close>: the kitchen worker. It is written against the interfaces of
  \<^verbatim>\<open>interface.go\<close>, here the record \<open>kitchen_deps\<close>; the locale \<open>kitchen_env\<close> is their
  contract. A closed \<^verbatim>\<open>stopping\<close> channel is a flag, the wait group is its counter, and the
  request id of the context is passed along, \<^const>\<open>None\<close> if it has none. \<^verbatim>\<open>Stop\<close> may return, wait for active orders, or
  panic on closing a closed channel.
\<close>

section \<open>The worker\<close>

definition ErrWorkerStopped :: err where
  "ErrWorkerStopped = Sentinel ''kitchen.ErrWorkerStopped'' ''worker stopped''"

record kitchen_deps =
  kd_MarkOnline :: "string \<Rightarrow> string \<Rightarrow> duration \<Rightarrow> world \<Rightarrow> err option \<times> world"
  kd_MarkOffline :: "string \<Rightarrow> world \<Rightarrow> err option \<times> world"
  kd_UpdateLastSeen :: "string \<Rightarrow> world \<Rightarrow> err option \<times> world"
  kd_IncrOrdersProcessed :: "string \<Rightarrow> world \<Rightarrow> err option \<times> world"
  kd_SetStatus :: "string \<Rightarrow> string \<Rightarrow> string \<Rightarrow> string \<Rightarrow> world \<Rightarrow> string result \<times> world"
  kd_StatusUpdate :: "StatusUpdate \<Rightarrow> world \<Rightarrow> err option \<times> world"

record worker =
  wr_name :: string
  wr_orderTypes :: "string list"
  wr_heartbeat :: duration

record KitchenWorker =
  kw_consumer :: OrderConsumer
  kw_isWorking :: bool
  kw_worker :: worker
  kw_cancelled :: bool
  kw_activeOrders :: nat
  kw_stopping :: bool

definition NewWorker :: "OrderConsumer \<Rightarrow> string \<Rightarrow> string list \<Rightarrow> duration \<Rightarrow> KitchenWorker" where
  "NewWorker consumer workerName orderTypes heartbeat =
     \<lparr>kw_consumer = consumer, kw_isWorking = False,
      kw_worker = \<lparr>wr_name = workerName, wr_orderTypes = orderTypes, wr_heartbeat = heartbeat\<rparr>,
      kw_cancelled = False, kw_activeOrders = 0, kw_stopping = False\<rparr>"

definition markOnline :: "kitchen_deps \<Rightarrow> KitchenWorker \<Rightarrow> world \<Rightarrow> err option \<times> KitchenWorker \<times> world" where
  "markOnline deps s w =
     (if kw_isWorking s then (Some ErrWorkerAlreadyOnline, s, w)
      else case kd_MarkOnline deps (wr_name (kw_worker s)) (join_with '','' (wr_orderTypes (kw_worker s)))
                  (wr_heartbeat (kw_worker s)) w of
             (Some e, w') \<Rightarrow> (Some e, s, w')
           | (None, w') \<Rightarrow> (None, s\<lparr>kw_isWorking := True\<rparr>, w'))"

datatype stop_outcome = Returns KitchenWorker world | Waits | Panics

text \<open>
  The body of \<^verbatim>\<open>Stop\<close> cancels the worker's context before it marks the worker offline. \<open>own\<close>
  says whether the context it was given is that very context or one derived from it.
\<close>

definition context_Canceled :: err where
  "context_Canceled = Sentinel ''context.Canceled'' ''context canceled''"

definition cancel_ctx :: "bool \<Rightarrow> world \<Rightarrow> world" where
  "cancel_ctx own w = (if own \<and> ctx_err w = None then w\<lparr>ctx_err := Some context_Canceled\<rparr> else w)"

definition Stop :: "kitchen_deps \<Rightarrow> bool \<Rightarrow> KitchenWorker \<Rightarrow> world \<Rightarrow> stop_outcome" where
  "Stop deps own s w =
     (if \<not> kw_isWorking s then Returns s w
      else if kw_stopping s then Panics
      else if kw_activeOrders s > 0 then Waits
      else let s1 = s\<lparr>kw_stopping := True, kw_cancelled := True\<rparr> in
           case kd_MarkOffline deps (wr_name (kw_worker s)) (cancel_ctx own w) of
             (Some _, w') \<Rightarrow> Returns s1 w'
           | (None, w') \<Rightarrow> Returns (s1\<lparr>kw_isWorking := False\<rparr>) w')"

definition cooking_update :: "string \<Rightarrow> string \<Rightarrow> string \<Rightarrow> string \<Rightarrow> instant \<Rightarrow> instant \<Rightarrow> string option \<Rightarrow> StatusUpdate" where
  "cooking_update number old new worker timestamp completion ctx =
     \<lparr>su_OrderNumber = number, su_OldStatus = old, su_NewStatus = new, su_ChangedBy = worker,
      su_Timestamp = timestamp, su_Completion = completion, su_RequestID = ctx_request_id ctx\<rparr>"

definition proccessOrder ::
  "kitchen_deps \<Rightarrow> KitchenWorker \<Rightarrow> string option \<Rightarrow> CreateOrder option \<Rightarrow> world \<Rightarrow> err option \<times> world" where
  "proccessOrder deps s ctx reqp w =
     (case reqp of
        None \<Rightarrow> (Some ErrNilOrder, w)
      | Some req \<Rightarrow>
          (let cookingTime = GetSimulateCookingDuration (co_Type req); name = wr_name (kw_worker s) in
           case kd_SetStatus deps (co_Number req) name StatusOrderCooking [] w of
             (Inl e, w1) \<Rightarrow> (Some (errorf_w ''failed to set cooking status for order : '' e), w1)
           | (Inr oldStatus, w1) \<Rightarrow>
               (let timestamp = clock w1; completion = timestamp + cookingTime;
                    w2 = snd (kd_StatusUpdate deps (cooking_update (co_Number req) oldStatus StatusOrderCooking
                                name timestamp completion ctx) w1);
                    w3 = snd (wait_or_done cookingTime w2) in
                case kd_SetStatus deps (co_Number req) name StatusOrderReady [] w3 of
                  (Inl e, w4) \<Rightarrow> (Some (errorf_w ''failed to set ready status for order: '' e), w4)
                | (Inr oldStatus2, w4) \<Rightarrow>
                    (let w5 = snd (kd_StatusUpdate deps (cooking_update (co_Number req) oldStatus2 StatusOrderReady
                                name (clock w4) completion ctx) w4)
                     in (None, snd (kd_IncrOrdersProcessed deps name w5))))))"

text \<open>
  The counter is raised around the processing and lowered by the deferred \<^verbatim>\<open>Done\<close>. The
  consumer, the only caller, passes no nil order.
\<close>

definition processOrderWrapper ::
  "kitchen_deps \<Rightarrow> string option \<Rightarrow> CreateOrder \<Rightarrow> KitchenWorker \<Rightarrow> world \<Rightarrow> err option \<times> KitchenWorker \<times> world" where
  "processOrderWrapper deps ctx req s w =
     (if kw_stopping s then (Some (Opaque ''worker is stopping, cannot process new orders''), s, w)
      else let s1 = s\<lparr>kw_activeOrders := kw_activeOrders s + 1\<rparr> in
           case proccessOrder deps s1 ctx (Some req) w of
             (r, w') \<Rightarrow> (r, s1\<lparr>kw_activeOrders := kw_activeOrders s1 - 1\<rparr>, w'))"

text \<open>The heartbeat loop over at most \<open>n\<close> ticks; \<^const>\<open>True\<close>: it ended because the context is done.\<close>

fun heartbeatLoop :: "kitchen_deps \<Rightarrow> string \<Rightarrow> duration \<Rightarrow> nat \<Rightarrow> world \<Rightarrow> bool \<times> world" where
  "heartbeatLoop deps name interval 0 w = (False, w)"
| "heartbeatLoop deps name interval (Suc n) w =
     (case wait_or_done interval w of
        (Some _, w1) \<Rightarrow> (True, w1)
      | (None, w1) \<Rightarrow> heartbeatLoop deps name interval n (snd (kd_UpdateLastSeen deps name w1)))"

section \<open>Work\<close>

text \<open>
  \<^verbatim>\<open>Work\<close>: registration, one consumer per order type, the heartbeat, and the deferred stop.
  The consumers and the heartbeat run side by side; a run is the list of the select branches
  they take, in order: \<open>At ot ev\<close> by the consumer of \<open>ot\<close>, \<open>Tick\<close> by the heartbeat. The
  consumers start in the order of the types. \<open>room\<close> is the free space of the error channel: a
  consumer's error is dropped when there is none, the last report waits for its turn.
\<close>

datatype work_event = At string consumer_event | Tick

fun start_consumers :: "string list \<Rightarrow> nat \<Rightarrow> OrderConsumer \<Rightarrow> world
    \<Rightarrow> err list \<times> string list \<times> OrderConsumer \<times> world" where
  "start_consumers [] room c w = ([], [], c, w)"
| "start_consumers (ot # ots) room c w =
     (case on_client (start_consuming c ot) (oc_closed c) w of
        (None, shut, w1) \<Rightarrow>
          (case start_consumers ots room (c\<lparr>oc_closed := shut\<rparr>) w1 of
             (es, active, r) \<Rightarrow> (es, ot # active, r))
      | (Some e, shut, w1) \<Rightarrow>
          (case start_consumers ots (room - 1) (c\<lparr>oc_closed := shut\<rparr>) w1 of
             (es, r) \<Rightarrow> (if room = 0 then es else errorf_w ''failed to start consuming: '' e # es, r)))"

text \<open>\<open>active\<close>: the running consumers, each with the request id of its context.\<close>

fun work_loop :: "kitchen_deps \<Rightarrow> (string \<times> string option) list \<Rightarrow> work_event list \<Rightarrow> KitchenWorker \<Rightarrow> world
    \<Rightarrow> bool \<times> KitchenWorker \<times> world" where
  "work_loop deps [] evs s w = (True, s, w)"
| "work_loop deps active [] s w = (False, s, w)"
| "work_loop deps active (Tick # evs) s w =
     work_loop deps active evs s
       (if ctx_err w = None then snd (kd_UpdateLastSeen deps (wr_name (kw_worker s)) w) else w)"
| "work_loop deps active (At ot ev # evs) s w =
     (case map_of active ot of
        None \<Rightarrow> work_loop deps active evs s w
      | Some ctx \<Rightarrow>
          (case consumer_step (processOrderWrapper deps) ev ctx s w of
             (ended, ctx', s', w') \<Rightarrow>
               work_loop deps (if ended then AList.delete ot active else AList.update ot ctx' active) evs s' w'))"

datatype work_outcome = Working KitchenWorker world | Finished stop_outcome

text \<open>
  \<^verbatim>\<open>ctx, cancel := context.WithCancel(ctx)\<close> assigns to the parameter, so the deferred stop runs
  with the worker's own context. The last report follows only if the stop returned.
\<close>

definition deferred_stop :: "kitchen_deps \<Rightarrow> err list \<Rightarrow> KitchenWorker \<Rightarrow> world \<Rightarrow> err list \<times> work_outcome" where
  "deferred_stop deps es s w =
     (case Stop deps True s w of
        Returns s' w' \<Rightarrow> (es @ [ErrWorkerStopped], Finished (Returns s' w'))
      | r \<Rightarrow> (es, Finished r))"

definition Work :: "kitchen_deps \<Rightarrow> string option \<Rightarrow> nat \<Rightarrow> work_event list \<Rightarrow> KitchenWorker \<Rightarrow> world
    \<Rightarrow> err list \<times> work_outcome" where
  "Work deps ctx room evs s w =
     (case markOnline deps s w of
        (Some e, s1, w1) \<Rightarrow> deferred_stop deps [errorf_w ''failed to mark online: '' e] s1 w1
      | (None, s1, w1) \<Rightarrow>
          (case start_consumers (wr_orderTypes (kw_worker s1)) room (kw_consumer s1) w1 of
             (es, active, c, w2) \<Rightarrow>
               (case work_loop deps (map (\<lambda>ot. (ot, ctx)) active) evs (s1\<lparr>kw_consumer := c\<rparr>) w2 of
                  (False, s3, w3) \<Rightarrow> (es, Working s3 w3)
                | (True, s3, w3) \<Rightarrow> deferred_stop deps es s3 w3)))"

section \<open>Contract of the dependencies\<close>

locale kitchen_env =
  order_store set_status inv status history +
  worker_registry mark_online mark_offline last_seen incr_processed inv online processed
  for set_status :: "string \<Rightarrow> string \<Rightarrow> string \<Rightarrow> string \<Rightarrow> world \<Rightarrow> string result \<times> world"
    and inv :: "world \<Rightarrow> bool" and status :: "world \<Rightarrow> string \<Rightarrow> string option"
    and history :: "world \<Rightarrow> string \<Rightarrow> string list"
    and mark_online :: "string \<Rightarrow> string \<Rightarrow> duration \<Rightarrow> world \<Rightarrow> err option \<times> world"
    and mark_offline :: "string \<Rightarrow> world \<Rightarrow> err option \<times> world"
    and last_seen :: "string \<Rightarrow> world \<Rightarrow> err option \<times> world"
    and incr_processed :: "string \<Rightarrow> world \<Rightarrow> err option \<times> world"
    and online :: "world \<Rightarrow> string \<Rightarrow> bool"
    and processed :: "world \<Rightarrow> string \<Rightarrow> int option" +
  fixes announce :: "StatusUpdate \<Rightarrow> world \<Rightarrow> err option \<times> world"
    and announced :: "world \<Rightarrow> 'm list"
    and tells :: "StatusUpdate \<Rightarrow> 'm \<Rightarrow> bool"
  assumes announce_keeps: "announce u w = (r, w') \<Longrightarrow>
      inv w' = inv w \<and> status w' = status w \<and> history w' = history w \<and> processed w' = processed w"
    and announce_sends: "announce u w = (r, w') \<Longrightarrow>
      announced w' = announced w \<and> r \<noteq> None \<or> (\<exists>m. tells u m \<and> announced w' = announced w @ [m])"
    and wait_keeps: "wait_or_done d w = (r, w') \<Longrightarrow>
      inv w' = inv w \<and> status w' = status w \<and> history w' = history w \<and> processed w' = processed w
      \<and> announced w' = announced w"
    and set_announced: "set_status n wn st nt w = (sr, w') \<Longrightarrow> processed w' = processed w \<and> announced w' = announced w"
    and incr_keeps: "incr_processed n w = (r, w') \<Longrightarrow> status w' = status w \<and> history w' = history w \<and> announced w' = announced w"
    and incr_err: "incr_processed n w = (Some e, w') \<Longrightarrow>
      processed w' = processed w \<or> (\<exists>k. processed w n = Some k \<and> processed w' = (processed w)(n \<mapsto> k + 1))"
begin

abbreviation deps :: kitchen_deps where
  "deps \<equiv> \<lparr>kd_MarkOnline = mark_online, kd_MarkOffline = mark_offline, kd_UpdateLastSeen = last_seen,
     kd_IncrOrdersProcessed = incr_processed, kd_SetStatus = set_status, kd_StatusUpdate = announce\<rparr>"

text \<open>At most one announcement of the given update.\<close>

definition told :: "StatusUpdate \<Rightarrow> world \<Rightarrow> world \<Rightarrow> bool" where
  "told u w w' \<longleftrightarrow> announced w' = announced w \<or> (\<exists>m. tells u m \<and> announced w' = announced w @ [m])"

lemma announce_told: "announce u w = (r, w') \<Longrightarrow> told u w w'"
  using announce_sends [of u w r w'] by (auto simp: told_def)

lemma incr_cases:
  assumes "inv w" "incr_processed n w = (r, w')"
  shows "processed w' = processed w \<or> (\<exists>k. processed w n = Some k \<and> processed w' = (processed w)(n \<mapsto> k + 1))"
  using incr_ok [of w n w'] incr_err [of n w _ w'] assms by (cases r) auto

text \<open>The run of an order, by the point at which it ends.\<close>

lemma process_cases:
  assumes i: "inv w" and p: "proccessOrder deps s ctx (Some req) w = (r, w')"
  obtains
    (not_started) e u where "r = Some e" "set_status (co_Number req) (wr_name (kw_worker s)) StatusOrderCooking [] w = (Inl u, w')"
  | (interrupted) e u old w1 w3 t c where "r = Some e"
      "set_status (co_Number req) (wr_name (kw_worker s)) StatusOrderCooking [] w = (Inr old, w1)"
      "inv w3" "status w3 = status w1" "history w3 = history w1" "processed w3 = processed w1"
      "told (cooking_update (co_Number req) old StatusOrderCooking (wr_name (kw_worker s)) t c ctx) w1 w3"
      "set_status (co_Number req) (wr_name (kw_worker s)) StatusOrderReady [] w3 = (Inl u, w')"
  | (finished) old w1 w3 w4 w5 t t' c where "r = None"
      "set_status (co_Number req) (wr_name (kw_worker s)) StatusOrderCooking [] w = (Inr old, w1)"
      "inv w3" "status w3 = status w1" "history w3 = history w1" "processed w3 = processed w1"
      "told (cooking_update (co_Number req) old StatusOrderCooking (wr_name (kw_worker s)) t c ctx) w1 w3"
      "set_status (co_Number req) (wr_name (kw_worker s)) StatusOrderReady [] w3 = (Inr StatusOrderCooking, w4)"
      "told (cooking_update (co_Number req) StatusOrderCooking StatusOrderReady (wr_name (kw_worker s)) t' c ctx) w4 w5"
      "inv w5" "status w5 = status w4" "history w5 = history w4" "processed w5 = processed w4"
      "w' = snd (incr_processed (wr_name (kw_worker s)) w5)"
proof -
  let ?n = "co_Number req" and ?name = "wr_name (kw_worker s)"
  obtain r1 w1 where 1: "set_status ?n ?name StatusOrderCooking [] w = (r1, w1)" by fastforce
  show thesis
  proof (cases r1)
    case (Inl e)
    with 1 p show thesis using not_started by (auto simp: proccessOrder_def Let_def)
  next
    case (Inr old)
    let ?c = "clock w1 + GetSimulateCookingDuration (co_Type req)"
    let ?u = "cooking_update ?n old StatusOrderCooking ?name (clock w1) ?c ctx"
    obtain r2 w2 where 2: "announce ?u w1 = (r2, w2)" by fastforce
    obtain r3 w3 where 3: "wait_or_done (GetSimulateCookingDuration (co_Type req)) w2 = (r3, w3)" by fastforce
    have s1: "inv w1" "status w1 ?n = Some StatusOrderCooking" using set_ok [OF i] 1 Inr by auto
    have k3: "inv w3" "status w3 = status w1" "history w3 = history w1" "processed w3 = processed w1" "told ?u w1 w3"
      using announce_keeps [OF 2] announce_told [OF 2] wait_keeps [OF 3] s1(1) by (simp_all add: told_def)
    obtain r4 w4 where 4: "set_status ?n ?name StatusOrderReady [] w3 = (r4, w4)" by fastforce
    show thesis
    proof (cases r4)
      case (Inl e)
      with 1 2 3 4 p Inr show thesis
        using interrupted [OF _ _ k3] by (auto simp: proccessOrder_def Let_def)
    next
      case r4: (Inr old2)
      let ?v = "cooking_update ?n old2 StatusOrderReady ?name (clock w4) ?c ctx"
      obtain r5 w5 where 5: "announce ?v w4 = (r5, w5)" by fastforce
      have s4: "inv w4" "old2 = StatusOrderCooking" using set_ok [OF k3(1)] 4 r4 s1(2) k3(2) by auto
      have k5: "told ?v w4 w5" "inv w5" "status w5 = status w4" "history w5 = history w4" "processed w5 = processed w4"
        using announce_keeps [OF 5] announce_told [OF 5] s4 by simp_all
      have "r = None" "w' = snd (incr_processed ?name w5)"
        using 1 2 3 4 5 p Inr r4 by (simp_all add: proccessOrder_def Let_def)
      then show thesis using finished [OF _ _ k3 _ k5(1)[unfolded s4(2)] k5(2-)] 1 4 Inr r4 s4(2) by auto
    qed
  qed
qed

lemma process_ok:
  assumes i: "inv w" and p: "proccessOrder deps s ctx (Some req) w = (None, w')"
    and n: "n = co_Number req" and name: "name = wr_name (kw_worker s)"
  shows "inv w' \<and> status w n \<noteq> None \<and> status w' = (status w)(n \<mapsto> StatusOrderReady)
    \<and> history w' = (history w)(n := history w n @ [StatusOrderCooking, StatusOrderReady])
    \<and> (processed w' = processed w
       \<or> (\<exists>k. processed w name = Some k \<and> processed w' = (processed w)(name \<mapsto> k + 1)))
    \<and> (\<exists>w1 w2 t t' c. told (cooking_update n (the (status w n)) StatusOrderCooking name t c ctx) w w1
       \<and> announced w2 = announced w1
       \<and> told (cooking_update n StatusOrderCooking StatusOrderReady name t' c ctx) w2 w')"
  using i p
proof (cases rule: process_cases)
  case (finished old w1 w3 w4 w5 t t' c)
  note s1 = set_ok [OF i finished(2)] set_announced [OF finished(2)]
  note s4 = set_ok [OF finished(3) finished(8)] set_announced [OF finished(8)]
  obtain r6 where 6: "incr_processed (wr_name (kw_worker s)) w5 = (r6, w')" using finished(14) by (metis prod.collapse)
  note k = incr_keeps [OF 6] keeps(4) [OF finished(10) 6] incr_cases [OF finished(10) 6]
  have "\<exists>w1 w2 t t' c. told (cooking_update n (the (status w n)) StatusOrderCooking name t c ctx) w w1
       \<and> announced w2 = announced w1
       \<and> told (cooking_update n StatusOrderCooking StatusOrderReady name t' c ctx) w2 w'"
    using finished(7,9) s1 s4 k(1) n name
    by (intro exI [of _ w3] exI [of _ w4] exI [of _ t] exI [of _ t'] exI [of _ c]) (simp add: told_def)
  moreover have "processed w' = processed w
       \<or> (\<exists>k. processed w name = Some k \<and> processed w' = (processed w)(name \<mapsto> k + 1))"
    using s1 s4 k(3) finished(6,13) name by simp
  moreover have "inv w' \<and> status w n \<noteq> None \<and> status w' = (status w)(n \<mapsto> StatusOrderReady)
    \<and> history w' = (history w)(n := history w n @ [StatusOrderCooking, StatusOrderReady])"
    using s1 s4 k(1,2) finished(4,5,11,12) n by simp
  ultimately show ?thesis by blast
qed simp_all

lemma process_err:
  assumes i: "inv w" and p: "proccessOrder deps s ctx (Some req) w = (Some e, w')"
  shows "inv w'" "processed w' = processed w"
    "\<exists>l \<in> {[], [StatusOrderCooking], [StatusOrderCooking, StatusOrderReady]}.
       history w' = (history w)(co_Number req := history w (co_Number req) @ l)
       \<and> status w' = (if l = [] then status w else (status w)(co_Number req \<mapsto> last l))"
    "\<exists>old t c. told (cooking_update (co_Number req) old StatusOrderCooking (wr_name (kw_worker s)) t c ctx) w w'"
proof -
  let ?n = "co_Number req"
  have "inv w' \<and> processed w' = processed w
    \<and> (\<exists>l \<in> {[], [StatusOrderCooking], [StatusOrderCooking, StatusOrderReady]}.
        history w' = (history w)(?n := history w ?n @ l)
        \<and> status w' = (if l = [] then status w else (status w)(?n \<mapsto> last l)))
    \<and> (\<exists>old t c. told (cooking_update ?n old StatusOrderCooking (wr_name (kw_worker s)) t c ctx) w w')"
    using i p
  proof (cases rule: process_cases)
    case (not_started e u)
    then show ?thesis using set_err [OF i] set_announced by (fastforce simp: told_def)
  next
    case (interrupted e u old w1 w3 t c)
    note s1 = set_ok [OF i interrupted(2)] set_announced [OF interrupted(2)]
    note s4 = set_err [OF interrupted(3) interrupted(8)] set_announced [OF interrupted(8)]
    have "told (cooking_update ?n old StatusOrderCooking (wr_name (kw_worker s)) t c ctx) w w'"
      using interrupted(7) s1 s4 by (simp add: told_def)
    moreover have "processed w' = processed w" "inv w'" using s1 s4 interrupted(6) by simp_all
    moreover have "\<exists>l \<in> {[], [StatusOrderCooking], [StatusOrderCooking, StatusOrderReady]}.
        history w' = (history w)(?n := history w ?n @ l)
        \<and> status w' = (if l = [] then status w else (status w)(?n \<mapsto> last l))"
      using s1 s4 interrupted(4,5) by auto
    ultimately show ?thesis by blast
  qed simp
  then show "inv w'" "processed w' = processed w"
    "\<exists>l \<in> {[], [StatusOrderCooking], [StatusOrderCooking, StatusOrderReady]}.
       history w' = (history w)(?n := history w ?n @ l)
       \<and> status w' = (if l = [] then status w else (status w)(?n \<mapsto> last l))"
    "\<exists>old t c. told (cooking_update ?n old StatusOrderCooking (wr_name (kw_worker s)) t c ctx) w w'" by blast+
qed

end

end
