(* ===== verification/Cooking.thy ===== *)
theory Cooking
  imports Kitchen
begin

text \<open>
  The kitchen worker on the repositories and the notification producer: the contract of
  \<open>kitchen_env\<close> is discharged for them, and the theorems say what processing an order does to
  the tables and the broker, when it succeeds, when it fails, when nothing goes wrong and
  when the context ends while the order cooks.
\<close>

definition kitchen_deps_impl :: "RabbitMQ_cfg \<Rightarrow> kitchen_deps" where
  "kitchen_deps_impl cfg =
     \<lparr>kd_MarkOnline = MarkOnline, kd_MarkOffline = MarkOffline, kd_UpdateLastSeen = UpdateLastSeen,
      kd_IncrOrdersProcessed = IncrOrdersProcessed, kd_SetStatus = SetStatus,
      kd_StatusUpdate = producer_StatusUpdate cfg\<rparr>"

definition status_message :: "RabbitMQ_cfg \<Rightarrow> StatusUpdate \<Rightarrow> amqp_cmd \<Rightarrow> bool" where
  "status_message cfg u m \<longleftrightarrow> (\<exists>now. m = Publish (rm_NotificationsExchange cfg) [] (status_publishing u now))"

lemma SetStatus_workers:
  assumes "SetStatus n wn st nt w = (r, w')"
  shows "orders_processed_by (db w') = orders_processed_by (db w)"
proof -
  have "workers (db w') = workers (db w)"
    using SetStatus_outcome [OF assms] by (auto simp: same_tables_def status_changed_def split: sum.splits)
  then show ?thesis by (simp add: orders_processed_by_def find_worker_def fun_eq_iff)
qed

lemma IncrOrdersProcessed_err:
  assumes "IncrOrdersProcessed n w = (r, w')"
  shows "orders_processed_by (db w') = orders_processed_by (db w)
    \<or> (\<exists>k. orders_processed_by (db w) n = Some k \<and> orders_processed_by (db w') = (orders_processed_by (db w))(n \<mapsto> k + 1))"
proof -
  let ?f = "\<lambda>r. r\<lparr>w_orders_processed := w_orders_processed r + 1\<rparr>"
  have "db w' = db w \<or> db w' = snd (update_worker n ?f (db w))"
    using exec_update_outcome(2) [OF assms [unfolded IncrOrdersProcessed_def]]
    by (auto simp: increment_worker_def split: if_splits)
  moreover have "find_worker (snd (update_worker n ?f (db w))) m =
      (if m = n then map_option ?f (find_worker (db w) n) else find_worker (db w) m)" for m
    by (rule find_update_worker) simp
  ultimately show ?thesis
    by (cases "find_worker (db w) n") (auto simp: orders_processed_by_def fun_eq_iff)
qed

interpretation pg_kitchen: kitchen_env SetStatus "\<lambda>w. wf_db (db w)" "\<lambda>w. order_status (db w)" "\<lambda>w. order_history (db w)"
  MarkOnline MarkOffline UpdateLastSeen IncrOrdersProcessed "\<lambda>w. worker_online (db w)" "\<lambda>w. orders_processed_by (db w)"
  "producer_StatusUpdate cfg" amqp "status_message cfg" for cfg
proof unfold_locales
  fix u w r w'
  assume p: "producer_StatusUpdate cfg u w = (r, w')"
  note o = producer_StatusUpdate_outcome [OF p]
  show "wf_db (db w') = wf_db (db w) \<and> order_status (db w') = order_status (db w)
      \<and> order_history (db w') = order_history (db w) \<and> orders_processed_by (db w') = orders_processed_by (db w)"
    using o(1) by (simp add: net_only_def)
  show "amqp w' = amqp w \<and> r \<noteq> None \<or> (\<exists>m. status_message cfg u m \<and> amqp w' = amqp w @ [m])"
    using o(2,3) by (auto simp: status_message_def)
next
  fix d w r w'
  assume "wait_or_done d w = (r, w')"
  then show "wf_db (db w') = wf_db (db w) \<and> order_status (db w') = order_status (db w)
      \<and> order_history (db w') = order_history (db w) \<and> orders_processed_by (db w') = orders_processed_by (db w)
      \<and> amqp w' = amqp w"
    using wait_net [of d w r w'] by (simp add: net_only_def)
next
  fix n wn st nt w sr w'
  assume "SetStatus n wn st nt w = (sr, w')"
  then show "orders_processed_by (db w') = orders_processed_by (db w) \<and> amqp w' = amqp w"
    using SetStatus_workers db_only_SetStatus [of n wn st nt w sr w'] by (simp add: db_only_def)
next
  fix n w r w'
  assume i: "IncrOrdersProcessed n w = (r, w')"
  then show "order_status (db w') = order_status (db w) \<and> order_history (db w') = order_history (db w) \<and> amqp w' = amqp w"
    using workers_only_views [OF IncrOrdersProcessed_only [OF i]]
      exec_update_outcome(1) [OF i [unfolded IncrOrdersProcessed_def]] by (simp add: db_only_def)
next
  fix n w e w'
  assume "IncrOrdersProcessed n w = (Some e, w')"
  then show "orders_processed_by (db w') = orders_processed_by (db w)
      \<or> (\<exists>k. orders_processed_by (db w) n = Some k \<and> orders_processed_by (db w') = (orders_processed_by (db w))(n \<mapsto> k + 1))"
    by (rule IncrOrdersProcessed_err)
qed

section \<open>Success and failure\<close>

text \<open>Messages for some of the given updates, in their order.\<close>

definition announces :: "RabbitMQ_cfg \<Rightarrow> StatusUpdate list \<Rightarrow> amqp_cmd list \<Rightarrow> bool" where
  "announces cfg us ms \<longleftrightarrow> (\<exists>vs. subseq vs us \<and> list_all2 (status_message cfg) vs ms)"

lemma told_announces:
  assumes "pg_kitchen.told cfg u w w'"
  shows "\<exists>ms. amqp w' = amqp w @ ms \<and> announces cfg [u] ms"
proof -
  have "announces cfg [u] []" "\<And>m. status_message cfg u m \<Longrightarrow> announces cfg [u] [m]"
    unfolding announces_def by (force intro: exI [of _ "[]"] exI [of _ "[u]"])+
  then show ?thesis using assms unfolding pg_kitchen.told_def by auto
qed

lemma announces_append: "announces cfg us ms \<Longrightarrow> announces cfg us' ms' \<Longrightarrow> announces cfg (us @ us') (ms @ ms')"
  unfolding announces_def by (meson list_all2_appendI list_emb_append_mono)

lemma proccessOrder_cooked:
  assumes "wf_db (db w)" "proccessOrder (kitchen_deps_impl cfg) s ctx (Some req) w = (None, w')"
    and "n = co_Number req" "name = wr_name (kw_worker s)"
  shows "wf_db (db w') \<and> order_status (db w') = (order_status (db w))(n \<mapsto> StatusOrderReady)
    \<and> order_history (db w') = (order_history (db w))(n := order_history (db w) n @ [StatusOrderCooking, StatusOrderReady])
    \<and> (orders_processed_by (db w') = orders_processed_by (db w)
       \<or> (\<exists>k. orders_processed_by (db w) name = Some k
            \<and> orders_processed_by (db w') = (orders_processed_by (db w))(name \<mapsto> k + 1)))
    \<and> (\<exists>old t t' c ms. order_status (db w) n = Some old \<and> amqp w' = amqp w @ ms
       \<and> announces cfg [cooking_update n old StatusOrderCooking name t c ctx,
                        cooking_update n StatusOrderCooking StatusOrderReady name t' c ctx] ms)"
proof -
  note k = pg_kitchen.process_ok [OF assms(1) assms(2) [unfolded kitchen_deps_impl_def] assms(3,4)]
  then obtain w1 w2 t t' c where
    1: "pg_kitchen.told cfg (cooking_update n (the (order_status (db w) n)) StatusOrderCooking name t c ctx) w w1"
    and 2: "amqp w2 = amqp w1"
    and 3: "pg_kitchen.told cfg (cooking_update n StatusOrderCooking StatusOrderReady name t' c ctx) w2 w'" by blast
  have "\<exists>ms. amqp w' = amqp w @ ms
      \<and> announces cfg [cooking_update n (the (order_status (db w) n)) StatusOrderCooking name t c ctx,
                        cooking_update n StatusOrderCooking StatusOrderReady name t' c ctx] ms"
    using told_announces [OF 1] told_announces [OF 3] 2 announces_append by fastforce
  moreover have "order_status (db w) n = Some (the (order_status (db w) n))" using k by auto
  ultimately show ?thesis using k by blast
qed

lemma proccessOrder_failed:
  assumes "wf_db (db w)" "proccessOrder (kitchen_deps_impl cfg) s ctx (Some req) w = (Some e, w')"
    and "n = co_Number req" "name = wr_name (kw_worker s)"
  shows "wf_db (db w') \<and> orders_processed_by (db w') = orders_processed_by (db w)
    \<and> (\<exists>l \<in> {[], [StatusOrderCooking], [StatusOrderCooking, StatusOrderReady]}.
         order_history (db w') = (order_history (db w))(n := order_history (db w) n @ l)
         \<and> order_status (db w') = (if l = [] then order_status (db w) else (order_status (db w))(n \<mapsto> last l)))
    \<and> (\<exists>old t c ms. amqp w' = amqp w @ ms \<and> announces cfg [cooking_update n old StatusOrderCooking name t c ctx] ms)"
proof -
  note k = pg_kitchen.process_err [OF assms(1) assms(2) [unfolded kitchen_deps_impl_def], folded assms(3,4)]
  have "\<exists>old t c ms. amqp w' = amqp w @ ms \<and> announces cfg [cooking_update n old StatusOrderCooking name t c ctx] ms"
    using k(4) told_announces by blast
  with k(1-3) show ?thesis by blast
qed

text \<open>
  C23. A failed order is never announced as ready: when the worker reports an error, the
  history of the order has grown by nothing, by cooking, or by cooking and ready (if the
  reply to the last update was lost), its status is the last of these, no other order has
  changed and no counter; at most the change to cooking was announced.
\<close>

theorem proccessOrder_failure:
  assumes "wf_db (db w)" "proccessOrder (kitchen_deps_impl cfg) s ctx (Some req) w = (Some e, w')"
    and "n = co_Number req" "name = wr_name (kw_worker s)"
  shows "wf_db (db w') \<and> orders_processed_by (db w') = orders_processed_by (db w)
    \<and> (\<exists>l \<in> {[], [StatusOrderCooking], [StatusOrderCooking, StatusOrderReady]}.
         order_history (db w') = (order_history (db w))(n := order_history (db w) n @ l)
         \<and> order_status (db w') = (if l = [] then order_status (db w) else (order_status (db w))(n \<mapsto> last l)))
    \<and> (\<exists>old t c ms. amqp w' = amqp w @ ms \<and> announces cfg [cooking_update n old StatusOrderCooking name t c ctx] ms)"
  using assms by (rule proccessOrder_failed)

section \<open>The context ends while the order cooks\<close>

lemma SetStatus_cancelled:
  assumes "ctx_err w \<noteq> None"
  shows "\<exists>e. SetStatus n wn st nt w = (Inl e, w)"
  using assms by (auto simp: SetStatus_def begin_tx_def call_def)

text \<open>
  A worker that is stopped while it cooks leaves the order in cooking: if the context is
  done when the waiting ends, the update to ready fails although the code means to complete
  the order, and the order stays in cooking.
\<close>

theorem interrupted_order_stays_cooking:
  assumes "wf_db (db w)" "n = co_Number req" "name = wr_name (kw_worker s)"
    and "SetStatus n name StatusOrderCooking [] w = (Inr old, w1)"
    and "u = cooking_update n old StatusOrderCooking name (clock w1)
           (clock w1 + GetSimulateCookingDuration (co_Type req)) ctx"
    and "ctx_err (snd (wait_or_done (GetSimulateCookingDuration (co_Type req))
           (snd (producer_StatusUpdate cfg u w1)))) \<noteq> None"
  shows "\<exists>e w'. proccessOrder (kitchen_deps_impl cfg) s ctx (Some req) w = (Some e, w')
    \<and> order_status (db w') n = Some StatusOrderCooking \<and> last (order_history (db w') n) = StatusOrderCooking"
proof -
  let ?d = "GetSimulateCookingDuration (co_Type req)"
  obtain r2 w2 where 2: "producer_StatusUpdate cfg u w1 = (r2, w2)" by fastforce
  obtain r3 w3 where 3: "wait_or_done ?d w2 = (r3, w3)" by fastforce
  have d: "db w3 = db w1" using producer_StatusUpdate_outcome(1) [OF 2] wait_net [OF 3] by (simp add: net_only_def)
  obtain e where "SetStatus n name StatusOrderReady [] w3 = (Inl e, w3)"
    using SetStatus_cancelled [of w3] assms(6) 2 3 by force
  then have "\<exists>e. proccessOrder (kitchen_deps_impl cfg) s ctx (Some req) w = (Some e, w3)"
    using assms(2-5) 2 3 by (simp add: proccessOrder_def kitchen_deps_impl_def Let_def)
  then show ?thesis using d pg_store.set_ok [OF assms(1,4)] by auto
qed

end
