(* ===== verification/Kitchen_Delivery.thy ===== *)
theory Kitchen_Delivery
  imports Cooking
begin

text \<open>
  Deliveries to the kitchen: the consumer of \<^verbatim>\<open>order-consumer.go\<close> with the worker's handler.
  A message is settled at most once and acknowledged only for an order that is ready; with
  the database and the broker up every known order is cooked, announced and acknowledged.
\<close>

section \<open>A live kitchen\<close>

lemma producer_StatusUpdate_live:
  assumes q: "quiet w" and c: "\<not> conn_closed w"
  shows "\<exists>w' m. producer_StatusUpdate cfg u w = (None, w') \<and> quiet w' \<and> \<not> conn_closed w'
    \<and> status_message cfg u m \<and> amqp w' = amqp w @ [m]"
proof -
  obtain w1 where w1: "raw_call w = (NoFault, w1)" "quiet w1" using quiet_raw_call [OF q] by blast
  then have c1: "\<not> conn_closed w1" using raw_call_eqD [OF w1(1)] c by simp
  obtain w2 where w2: "channel_send (Publish (rm_NotificationsExchange cfg) [] (status_publishing u (clock w1))) w1 = (None, w2)" "quiet w2"
    using quiet_channel_send [OF w1(2)] by blast
  show ?thesis
    using w1 w2 c c1 channel_send_eqD(2,4) [OF w2(1)] raw_call_eqD(2) [OF w1(1)]
    by (simp add: producer_StatusUpdate_def ensure_connected_def IsConnectionClosed_def PublishWithContext_def
        status_message_def) blast
qed

lemma wait_live:
  assumes "quiet w"
  shows "\<exists>w'. wait_or_done d w = (None, w') \<and> quiet w' \<and> conn_closed w' = conn_closed w \<and> clock w + d \<le> clock w'"
proof -
  obtain w1 where c: "call w = (NoFault, w1)" "quiet w1" using quiet_call [OF assms] by blast
  moreover have "ctx_err w = None" using assms by (simp add: quiet_def)
  ultimately show ?thesis
    using call_clock [OF c(1)] call_eqD(3) [OF c(1)] by (simp add: wait_or_done_def sleep_def quiet_def)
qed

lemma IncrOrdersProcessed_live:
  assumes "quiet w" "wf_db (db w)" "orders_processed_by (db w) name = Some k" "int4 (k + 1)"
  shows "\<exists>w'. IncrOrdersProcessed name w = (None, w') \<and> quiet w'"
proof -
  let ?f = "\<lambda>r. r\<lparr>w_orders_processed := w_orders_processed r + 1\<rparr>"
  obtain r where r: "find_worker (db w) name = Some r" "w_orders_processed r = k"
    using assms(3) by (auto simp: orders_processed_by_def)
  have d: "distinct (map w_name (workers (db w)))" using assms(2) by (simp add: wf_db_def)
  have "r \<in> set (workers (db w))" "w_name r = name" using r(1) by (auto simp: find_worker_def find_Some_iff)
  then have "\<forall>x \<in> set (workers (db w)). w_name x = name \<longrightarrow> x = r" using d by (auto simp: distinct_map dest: inj_onD)
  then have i: "increment_worker name (db w) = update_worker name ?f (db w)"
    using r(2) assms(4) by (auto simp: increment_worker_def list_all_iff)
  have "\<exists>j. fst (update_worker name ?f (db w)) = Inr (Suc j)"
    using \<open>r \<in> _\<close> \<open>w_name r = name\<close> by (auto simp: update_worker_def filter_empty_conv gr0_conv_Suc [symmetric])
  then show ?thesis
    using quiet_exec_auto [OF assms(1), of "increment_worker name"] i
    by (auto simp: IncrOrdersProcessed_def exec_update_def)
qed

lemma quiet_IncrOrdersProcessed: "quiet w \<Longrightarrow> IncrOrdersProcessed name w = (r, w') \<Longrightarrow> quiet w'"
  using quiet_exec_auto [of w "increment_worker name"]
  by (auto simp: IncrOrdersProcessed_def exec_update_def split: sum.splits prod.splits)

lemma proccessOrder_live:
  assumes q: "quiet w" and wf: "wf_db (db w)" and c: "\<not> conn_closed w"
    and n: "n = co_Number req" and name: "name = wr_name (kw_worker s)"
    and old: "order_status (db w) n = Some old"
  shows "\<exists>w' t t' cp m1 m2. proccessOrder (kitchen_deps_impl cfg) s ctx (Some req) w = (None, w') \<and> quiet w'
    \<and> amqp w' = amqp w @ [m1, m2]
    \<and> (\<forall>k. orders_processed_by (db w) name = Some k \<and> int4 (k + 1) \<longrightarrow> orders_processed_by (db w') name = Some (k + 1))
    \<and> status_message cfg (cooking_update n old StatusOrderCooking name t cp ctx) m1
    \<and> status_message cfg (cooking_update n StatusOrderCooking StatusOrderReady name t' cp ctx) m2
    \<and> clock w + GetSimulateCookingDuration (co_Type req) \<le> clock w'"
proof -
  let ?d = "GetSimulateCookingDuration (co_Type req)"
  have legal: "pg_text n" using known_number [OF wf, of n] old by simp
  obtain w1 where 1: "SetStatus n name StatusOrderCooking [] w = (Inr old, w1)" "quiet w1"
    using SetStatus_live [OF q legal, of name StatusOrderCooking "[]"] old by auto
  note v1 = pg_store.set_ok [OF wf 1(1)] db_only_SetStatus [OF 1(1), unfolded db_only_def] SetStatus_workers [OF 1(1)]
  let ?cp = "clock w1 + ?d"
  let ?u = "cooking_update n old StatusOrderCooking name (clock w1) ?cp ctx"
  obtain w2 m1 where 2: "producer_StatusUpdate cfg ?u w1 = (None, w2)" "quiet w2" "\<not> conn_closed w2"
    "status_message cfg ?u m1" "amqp w2 = amqp w1 @ [m1]"
    using producer_StatusUpdate_live [OF 1(2)] v1 c by metis
  obtain w3 where 3: "wait_or_done ?d w2 = (None, w3)" "quiet w3" "\<not> conn_closed w3" "clock w2 + ?d \<le> clock w3"
    using wait_live [OF 2(2)] 2(3) by metis
  have v3: "db w3 = db w1" "clock w1 \<le> clock w2" "amqp w3 = amqp w2"
    using producer_StatusUpdate_outcome(1) [OF 2(1)] wait_net [OF 3(1)] by (simp_all add: net_only_def)
  obtain w4 where 4: "SetStatus n name StatusOrderReady [] w3 = (Inr StatusOrderCooking, w4)" "quiet w4"
    using SetStatus_live [OF 3(2) legal, of name StatusOrderReady "[]"] v1 v3(1) by auto
  note v4 = pg_store.set_ok [OF _ 4(1), unfolded v3(1)] db_only_SetStatus [OF 4(1), unfolded db_only_def] SetStatus_workers [OF 4(1)]
  let ?v = "cooking_update n StatusOrderCooking StatusOrderReady name (clock w4) ?cp ctx"
  obtain w5 m2 where 5: "producer_StatusUpdate cfg ?v w4 = (None, w5)" "quiet w5"
    "status_message cfg ?v m2" "amqp w5 = amqp w4 @ [m2]"
    using producer_StatusUpdate_live [OF 4(2)] v4 3(3) by metis
  have v5: "db w5 = db w4" "clock w4 \<le> clock w5"
    using producer_StatusUpdate_outcome(1) [OF 5(1)] by (simp_all add: net_only_def)
  have k5: "orders_processed_by (db w5) = orders_processed_by (db w)" "wf_db (db w5)" using v1 v4 v5 v3(1) by simp_all
  obtain r6 w6 where 6: "IncrOrdersProcessed name w5 = (r6, w6)" by fastforce
  have q6: "quiet w6" by (rule quiet_IncrOrdersProcessed [OF 5(2) 6])
  have v6: "amqp w6 = amqp w5" "clock w5 \<le> clock w6"
    using exec_update_outcome(1) [OF 6 [unfolded IncrOrdersProcessed_def]] by (simp_all add: db_only_def)
  have "proccessOrder (kitchen_deps_impl cfg) s ctx (Some req) w = (None, w6)"
    using 1 2 3 4 5 6 n name by (simp add: proccessOrder_def kitchen_deps_impl_def Let_def)
  moreover have "amqp w6 = amqp w @ [m1, m2]" using v1 v3 v4 v6 2(5) 5(4) by simp
  moreover have "orders_processed_by (db w6) name = Some (k + 1)" if "orders_processed_by (db w) name = Some k" "int4 (k + 1)" for k
  proof -
    have "orders_processed_by (db w5) name = Some k" using that(1) k5(1) by simp
    from IncrOrdersProcessed_live [OF 5(2) k5(2) this that(2)] have "r6 = None" using 6 by auto
    with IncrOrdersProcessed_ok [of name w5 w6] 6 k5(1) that(1) show ?thesis by auto
  qed
  moreover have "clock w + ?d \<le> clock w6" using v1 v3 v4 v5 v6 3(4) by simp
  ultimately show ?thesis using q6 2(4) 5(3) by blast
qed

text \<open>
  C11. A processed order is cooked: when the worker reports success for an order that no worker has taken up before, the order was stored
  as received, its status is now ready, its history has grown by cooking and ready, in this order, and every
  other order is as before; the worker's counter has grown by one or, if that update failed,
  not; what reached the notification exchange are the announcements of
  this order, the change to cooking before the change to ready, each at most once, and both when nothing failed.
\<close>

theorem proccessOrder_success:
  assumes "wf_db (db w)" "proccessOrder (kitchen_deps_impl cfg) s ctx (Some req) w = (None, w')"
    and "n = co_Number req" "name = wr_name (kw_worker s)"
    and "order_status (db w) n \<in> {None, Some StatusOrderReceived}"
  shows "wf_db (db w') \<and> order_status (db w) n = Some StatusOrderReceived
    \<and> order_status (db w') = (order_status (db w))(n \<mapsto> StatusOrderReady)
    \<and> order_history (db w') = (order_history (db w))(n := order_history (db w) n @ [StatusOrderCooking, StatusOrderReady])
    \<and> (orders_processed_by (db w') = orders_processed_by (db w)
       \<or> (\<exists>k. orders_processed_by (db w) name = Some k
            \<and> orders_processed_by (db w') = (orders_processed_by (db w))(name \<mapsto> k + 1)))
    \<and> (\<exists>t t' c ms. amqp w' = amqp w @ ms
       \<and> announces cfg [cooking_update n StatusOrderReceived StatusOrderCooking name t c ctx,
                        cooking_update n StatusOrderCooking StatusOrderReady name t' c ctx] ms
       \<and> (quiet w \<and> \<not> conn_closed w \<longrightarrow> length ms = 2))"
proof -
  note k = proccessOrder_cooked [OF assms(1-4)]
  then obtain t t' c ms where ms: "amqp w' = amqp w @ ms" "order_status (db w) n = Some StatusOrderReceived"
    "announces cfg [cooking_update n StatusOrderReceived StatusOrderCooking name t c ctx,
                    cooking_update n StatusOrderCooking StatusOrderReady name t' c ctx] ms"
    using assms(5) by auto
  have "length ms = 2" if "quiet w" "\<not> conn_closed w"
    using proccessOrder_live [OF that(1) assms(1) that(2) assms(3,4) ms(2), of cfg ctx] assms(2) ms(1) by auto
  with k ms show ?thesis by blast
qed

section \<open>Deliveries\<close>

abbreviation kitchen_handler :: "RabbitMQ_cfg \<Rightarrow> string option \<Rightarrow> CreateOrder \<Rightarrow> KitchenWorker \<Rightarrow> world
    \<Rightarrow> err option \<times> KitchenWorker \<times> world" where
  "kitchen_handler cfg \<equiv> processOrderWrapper (kitchen_deps_impl cfg)"

lemma announces_settlements: "announces cfg us ms \<Longrightarrow> settlements ms = []"
  unfolding announces_def settlements_def
  by (auto simp: list_all2_conv_all_nth status_message_def in_set_conv_nth) (metis settled_tag.simps(6))

lemma wrapper_outcome:
  assumes wf: "wf_db (db w)" and p: "kitchen_handler cfg ctx req s w = (r, s', w')"
  shows "s' = s \<and> wf_db (db w') \<and> (\<exists>ms us. amqp w' = amqp w @ ms \<and> announces cfg us ms)
    \<and> (kw_stopping s \<longrightarrow> (\<exists>e. r = Some e \<and> \<not> isRecoverableError e) \<and> w' = w)
    \<and> (r = None \<longrightarrow> order_status (db w') (co_Number req) = Some StatusOrderReady
        \<and> order_history (db w') (co_Number req) = order_history (db w) (co_Number req) @ [StatusOrderCooking, StatusOrderReady])"
proof (cases "kw_stopping s")
  case True
  have "announces cfg [] []" by (simp add: announces_def)
  with True assms show ?thesis by (auto simp: processOrderWrapper_def isRecoverableError_def ErrNilOrder_def)
next
  case False
  let ?s = "s\<lparr>kw_activeOrders := kw_activeOrders s + 1\<rparr>"
  obtain r1 w1 where 1: "proccessOrder (kitchen_deps_impl cfg) ?s ctx (Some req) w = (r1, w1)" by fastforce
  have w: "s' = s" "r1 = r" "w1 = w'" using p 1 False by (simp_all add: processOrderWrapper_def Let_def)
  show ?thesis
  proof (cases r)
    case None
    then show ?thesis using proccessOrder_cooked [OF wf] 1 w False by fastforce
  next
    case (Some e)
    then show ?thesis using proccessOrder_failed [OF wf] 1 w False by fastforce
  qed
qed

lemma settle_messages:
  "\<exists>ms. amqp (settle c w) = amqp w @ ms \<and> set ms \<subseteq> {c} \<and> length ms \<le> 1"
  using settle_eqD(1) [of c w] by (auto intro: exI [of _ "[]"])

text \<open>
  C9. A message is acknowledged only for a cooked order: whatever happens, a delivery
  settles no other message and its own at most once; it is acknowledged only if its body
  decodes, the worker is not stopping, and the order is now ready, its history extended, and extended by exactly cooking and
  ready if the order had just been received; an undecodable body leaves the database as it
  was and at most rejects the message to the dead-letter queue; a stopping worker leaves the database as it was and
  acknowledges nothing.
\<close>

theorem delivery_acknowledged_when_ready:
  assumes "wf_db (db w)" "handle_delivery (processOrderWrapper (kitchen_deps_impl cfg)) tag body ctx s w = (ctx', s', w')"
  shows "s' = s \<and> wf_db (db w') \<and> (\<exists>ms. amqp w' = amqp w @ ms \<and> settlements ms \<in> {[], [tag]}
    \<and> (Ack tag \<in> set ms \<longrightarrow> (\<exists>req. ToInternalOrder body = Inr req \<and> \<not> kw_stopping s
         \<and> order_status (db w') (om_OrderNumber req) = Some StatusOrderReady
         \<and> strict_prefix (order_history (db w) (om_OrderNumber req)) (order_history (db w') (om_OrderNumber req))
         \<and> (order_status (db w) (om_OrderNumber req) = Some StatusOrderReceived \<longrightarrow>
              order_history (db w') (om_OrderNumber req)
                = order_history (db w) (om_OrderNumber req) @ [StatusOrderCooking, StatusOrderReady])))
    \<and> (\<not> (\<exists>req. ToInternalOrder body = Inr req) \<longrightarrow> db w' = db w \<and> set ms \<subseteq> {Nack tag False})
    \<and> (kw_stopping s \<longrightarrow> db w' = db w \<and> Ack tag \<notin> set ms))"
proof (cases "ToInternalOrder body")
  case (Inl e)
  obtain ms where "amqp (settle (Nack tag False) w) = amqp w @ ms" "set ms \<subseteq> {Nack tag False}" "length ms \<le> 1"
    using settle_messages by blast
  then show ?thesis
    using assms Inl settle_eqD(2) [of "Nack tag False" w] by (auto simp: handle_delivery_def settlements_def le_Suc_eq length_Suc_conv)
next
  case (Inr req)
  let ?ctx = "if om_RequestID req \<noteq> [] then Some (om_RequestID req) else ctx"
  obtain order where o: "FromPublishToInternalOrder (Some req) = Some order" "co_Number order = om_OrderNumber req"
    by (simp add: FromPublishToInternalOrder_def)
  obtain r s1 w1 where h: "kitchen_handler cfg ?ctx order s w = (r, s1, w1)" using prod_cases3 by blast
  note k = wrapper_outcome [OF assms(1) h]
  then obtain ms us where ms: "amqp w1 = amqp w @ ms" "announces cfg us ms" by blast
  let ?c = "case r of None \<Rightarrow> Ack tag | Some e \<Rightarrow> Nack tag (isRecoverableError e)"
  have w': "s' = s1" "w' = settle ?c w1"
    using assms(2) Inr o h by (auto simp: handle_delivery_def Let_def split: option.splits)
  obtain ms' where ms': "amqp w' = amqp w1 @ ms'" "set ms' \<subseteq> {?c}" "length ms' \<le> 1"
    using settle_messages w'(2) by blast
  have ack: "Ack tag \<notin> set ms" using ms(2) by (auto simp: announces_def status_message_def list_all2_conv_all_nth in_set_conv_nth)
  have set: "settlements (ms @ ms') \<in> {[], [tag]}"
    using announces_settlements [OF ms(2)] ms'(2,3) by (cases r) (auto simp: settlements_def le_Suc_eq length_Suc_conv)
  have "Ack tag \<in> set (ms @ ms') \<Longrightarrow> r = None" using ack ms'(2) by (cases r) auto
  moreover have "kw_stopping s \<Longrightarrow> db w' = db w \<and> set (ms @ ms') \<subseteq> {Nack tag False}"
    using k ms(1) ms'(2) w'(2) settle_eqD(2) by auto
  moreover have "wf_db (db w')" using k w'(2) settle_eqD(2) by simp
  ultimately show ?thesis
    using set k Inr o(2) w' ms(1) ms'(1) settle_eqD(2) by (intro conjI exI [of _ "ms @ ms'"]) (auto simp: strict_prefix_def)
qed

lemma subseq_keeps_distinct: "subseq xs ys \<Longrightarrow> distinct ys \<Longrightarrow> distinct xs"
  by (auto simp: subseq_conv_nths)

lemma kitchen_no_settling: "no_settling wf_db (kitchen_handler cfg)"
  unfolding no_settling_def
proof (intro allI impI)
  fix ctx req s w r s' w'
  assume "wf_db (db w)" "kitchen_handler cfg ctx req s w = (r, s', w')"
  from wrapper_outcome [OF this] obtain ms us where "wf_db (db w')" "amqp w' = amqp w @ ms" "announces cfg us ms" by blast
  then show "wf_db (db w') \<and> settlements (amqp w') = settlements (amqp w)" by (simp add: announces_settlements)
qed

text \<open>
  C13. The consumer settles in order and at most once: over any run of its select loop with
  the worker's handler the settled messages are delivered ones, in the order of their
  delivery and without repetition, and the tables stay consistent.
\<close>

theorem deliveries_settled_at_most_once:
  assumes "wf_db (db w)" "distinct (delivered evs)"
    and "consumer_loop (processOrderWrapper (kitchen_deps_impl cfg)) evs ctx s w = (b, ctx', s', w')"
  shows "wf_db (db w') \<and> (\<exists>ts. settlements (amqp w') = settlements (amqp w) @ ts \<and> subseq ts (delivered evs) \<and> distinct ts)"
  using consumer_loop_settles [OF kitchen_no_settling assms(1,3)] assms(2) subseq_keeps_distinct by blast

section \<open>Every known order is cooked\<close>

lemma delivery_live:
  assumes q: "quiet w" "wf_db (db w)" "\<not> conn_closed w" and run: "\<not> kw_stopping s"
    and body: "ToInternalOrder body = Inr req" and n: "n = om_OrderNumber req" and name: "name = wr_name (kw_worker s)"
    and old: "order_status (db w) n = Some old" and k: "orders_processed_by (db w) name = Some k" "int4 (k + 1)"
  shows "\<exists>ctx' w' t t' c m1 m2. handle_delivery (kitchen_handler cfg) tag body ctx s w = (ctx', s, w')
    \<and> quiet w' \<and> amqp w' = amqp w @ [m1, m2, Ack tag]
    \<and> order_status (db w') = (order_status (db w))(n \<mapsto> StatusOrderReady)
    \<and> order_history (db w') n = order_history (db w) n @ [StatusOrderCooking, StatusOrderReady]
    \<and> orders_processed_by (db w') name = Some (k + 1)
    \<and> status_message cfg (cooking_update n old StatusOrderCooking name t c ctx') m1
    \<and> status_message cfg (cooking_update n StatusOrderCooking StatusOrderReady name t' c ctx') m2
    \<and> clock w + GetSimulateCookingDuration (om_OrderType req) \<le> clock w'"
proof -
  let ?s = "s\<lparr>kw_activeOrders := kw_activeOrders s + 1\<rparr>"
  define ctx' where "ctx' = (if om_RequestID req \<noteq> [] then Some (om_RequestID req) else ctx)"
  obtain order where o: "FromPublishToInternalOrder (Some req) = Some order" "co_Number order = n" "co_Type order = om_OrderType req"
    using n by (simp add: FromPublishToInternalOrder_def)
  obtain w1 t t' c m1 m2 where 1: "proccessOrder (kitchen_deps_impl cfg) ?s ctx' (Some order) w = (None, w1)" "quiet w1"
    "amqp w1 = amqp w @ [m1, m2]" "orders_processed_by (db w1) name = Some (k + 1)"
    "status_message cfg (cooking_update n old StatusOrderCooking name t c ctx') m1"
    "status_message cfg (cooking_update n StatusOrderCooking StatusOrderReady name t' c ctx') m2"
    "clock w + GetSimulateCookingDuration (om_OrderType req) \<le> clock w1"
    using proccessOrder_live [OF q o(2) [symmetric], of name ?s old cfg ctx'] o(3) name old k by auto
  have h: "kitchen_handler cfg ctx' order s w = (None, s, w1)" using 1(1) run by (simp add: processOrderWrapper_def)
  have r: "order_status (db w1) = (order_status (db w))(n \<mapsto> StatusOrderReady)"
    "order_history (db w1) n = order_history (db w) n @ [StatusOrderCooking, StatusOrderReady]"
    using proccessOrder_cooked [OF q(2) 1(1)] o(2) by simp_all
  obtain w2 where w2: "channel_send (Ack tag) w1 = (None, w2)" "quiet w2" using quiet_channel_send [OF 1(2)] by blast
  have c: "clock w1 \<le> clock w2" using w2(1) by (auto simp: channel_send_def split: prod.splits fault.splits dest: raw_call_eqD)
  have "handle_delivery (kitchen_handler cfg) tag body ctx s w = (ctx', s, w2)"
    using body o(1) h w2(1) by (simp add: handle_delivery_def ctx'_def settle_def)
  then show ?thesis
    using 1 r w2(2) channel_send_eqD [OF w2(1)] c by fastforce
qed

text \<open>
  C22. A received order is cooked: with the database and the broker up, a worker that is
  registered and not stopping turns the message of an order that is stored as received into a ready order, not
  before its cooking time has passed, raises its counter by one, announces the change from received to
  cooking and the change from cooking to ready, in this order, and then acknowledges the message.
\<close>

theorem delivery_served:
  assumes "quiet w" "wf_db (db w)" "\<not> conn_closed w" "\<not> kw_stopping s"
    and "ToInternalOrder body = Inr req" "n = om_OrderNumber req" "name = wr_name (kw_worker s)"
    and "order_status (db w) n = Some StatusOrderReceived" "orders_processed_by (db w) name = Some k" "int4 (k + 1)"
  shows "\<exists>ctx' w' t t' c m1 m2. handle_delivery (processOrderWrapper (kitchen_deps_impl cfg)) tag body ctx s w = (ctx', s, w')
    \<and> quiet w' \<and> amqp w' = amqp w @ [m1, m2, Ack tag]
    \<and> order_status (db w') = (order_status (db w))(n \<mapsto> StatusOrderReady)
    \<and> order_history (db w') n = order_history (db w) n @ [StatusOrderCooking, StatusOrderReady]
    \<and> orders_processed_by (db w') name = Some (k + 1)
    \<and> status_message cfg (cooking_update n StatusOrderReceived StatusOrderCooking name t c ctx') m1
    \<and> status_message cfg (cooking_update n StatusOrderCooking StatusOrderReady name t' c ctx') m2
    \<and> clock w + GetSimulateCookingDuration (om_OrderType req) \<le> clock w'"
  using assms by (rule delivery_live)

text \<open>
  C36. Processing is not idempotent: with the database and the broker up, the message of an order that is already cooking
  or ready, delivered again, is not recognised: the order is set to cooking and to ready once more, both changes
  are logged and announced a second time, an order that was ready is announced as cooking again,
  and the worker counts it once more.
\<close>

theorem reprocessed_order_cooked_again:
  assumes "quiet w" "wf_db (db w)" "\<not> conn_closed w" "\<not> kw_stopping s"
    and "ToInternalOrder body = Inr req" "n = om_OrderNumber req" "name = wr_name (kw_worker s)"
    and "order_status (db w) n = Some old" "old \<in> {StatusOrderCooking, StatusOrderReady}"
    and "orders_processed_by (db w) name = Some k" "int4 (k + 1)"
  shows "\<exists>ctx' w' t t' c m1 m2. handle_delivery (processOrderWrapper (kitchen_deps_impl cfg)) tag body ctx s w = (ctx', s, w')
    \<and> amqp w' = amqp w @ [m1, m2, Ack tag]
    \<and> order_history (db w') n = order_history (db w) n @ [StatusOrderCooking, StatusOrderReady]
    \<and> orders_processed_by (db w') name = Some (k + 1)
    \<and> status_message cfg (cooking_update n old StatusOrderCooking name t c ctx') m1
    \<and> status_message cfg (cooking_update n StatusOrderCooking StatusOrderReady name t' c ctx') m2"
  using delivery_live [OF assms(1-8,10,11)] by blast

section \<open>Instances\<close>

definition kitchen_world :: world where
  "kitchen_world = example_world\<lparr>db := (db example_world)\<lparr>workers :=
     [\<lparr>w_id = 1, w_created_at = 0, w_name = ''chef'', w_type = ''dine_in'', w_status = WorkerOnline,
       w_last_seen = 0, w_orders_processed = 4\<rparr>]\<rparr>\<rparr>"

definition received_world :: world where
  "received_world = kitchen_world\<lparr>db := (db kitchen_world)\<lparr>orders := [example_row\<lparr>o_status := StatusOrderReceived,
     o_processed_by := None\<rparr>], order_status_log := [hd example_logs]\<rparr>\<rparr>"

definition example_consumer :: OrderConsumer where
  "example_consumer = \<lparr>oc_closed = False, oc_prefetchCount = 1, oc_exchangeOrder = ''orders_topic'',
     oc_orderTypes = AllOrderTypes, oc_cfg = example_rabbit\<rparr>"

definition example_kitchen :: KitchenWorker where
  "example_kitchen = NewWorker example_consumer ''chef'' AllOrderTypes (30 * nanos_per_second)"

definition kitchen_order :: CreateOrder where
  "kitchen_order = example_order\<lparr>co_Number := ''ORD_20250101_001''\<rparr>"

lemma kitchen_world_facts:
  "quiet kitchen_world" "wf_db (db kitchen_world)" "\<not> conn_closed kitchen_world"
  "order_status (db kitchen_world) ''ORD_20250101_001'' = Some StatusOrderCooking"
  "order_status (db kitchen_world) ''none'' = None"
  "orders_processed_by (db kitchen_world) ''chef'' = Some 4" "amqp kitchen_world = []"
  by (simp_all add: kitchen_world_def wf_db_def example_world_def example_row_def example_logs_def order_status_def
      empty_db_def start_world_def logs_of_def find_order_def quiet_def orders_processed_by_def find_worker_def)

lemma received_world_facts:
  "quiet received_world" "wf_db (db received_world)" "\<not> conn_closed received_world"
  "order_status (db received_world) ''ORD_20250101_001'' = Some StatusOrderReceived"
  "order_history (db received_world) ''ORD_20250101_001'' = [StatusOrderReceived]"
  "orders_processed_by (db received_world) ''chef'' = Some 4" "amqp received_world = []"
  by (simp_all add: received_world_def kitchen_world_def wf_db_def example_world_def example_row_def example_logs_def order_status_def
      order_history_def empty_db_def start_world_def logs_of_def find_order_def quiet_def orders_processed_by_def find_worker_def)

lemma example_kitchen_facts [simp]:
  "wr_name (kw_worker example_kitchen) = ''chef''" "\<not> kw_stopping example_kitchen"
  "co_Number kitchen_order = ''ORD_20250101_001''" "co_Type kitchen_order = ''dine_in''"
  by (simp_all add: example_kitchen_def NewWorker_def kitchen_order_def example_order_def)

theorem proccessOrder_success_witness:
  "\<exists>w'. proccessOrder (kitchen_deps_impl example_rabbit) example_kitchen None (Some kitchen_order) received_world = (None, w')
     \<and> order_status (db w') ''ORD_20250101_001'' = Some StatusOrderReady \<and> length (amqp w') = 2"
proof -
  obtain w' where p: "proccessOrder (kitchen_deps_impl example_rabbit) example_kitchen None (Some kitchen_order) received_world = (None, w')"
    using proccessOrder_live [OF received_world_facts(1-3) _ _ received_world_facts(4), where req = kitchen_order
        and s = example_kitchen and cfg = example_rabbit and ctx = None] by auto
  show ?thesis
    using proccessOrder_success [OF received_world_facts(2) p refl refl] p received_world_facts(1,3,4,7) by auto
qed

theorem proccessOrder_failure_witness:
  "\<exists>e w'. proccessOrder (kitchen_deps_impl example_rabbit) example_kitchen None
       (Some (kitchen_order\<lparr>co_Number := ''none''\<rparr>)) kitchen_world = (Some e, w') \<and> wf_db (db w')"
proof -
  obtain e w1 where "SetStatus ''none'' ''chef'' StatusOrderCooking [] kitchen_world = (Inl e, w1)"
    using SetStatus_live [OF kitchen_world_facts(1), of "''none''" "''chef''" StatusOrderCooking "[]"] kitchen_world_facts(5) by auto
  then obtain e w' where p: "proccessOrder (kitchen_deps_impl example_rabbit) example_kitchen None
       (Some (kitchen_order\<lparr>co_Number := ''none''\<rparr>)) kitchen_world = (Some e, w')"
    by (auto simp: proccessOrder_def kitchen_deps_impl_def)
  show ?thesis using proccessOrder_failure [OF kitchen_world_facts(2) p refl refl] p by blast
qed

text \<open>The context ends at the seventh call, which is the wait: four calls of the transaction and two of the producer precede it.\<close>

definition interrupted_world :: world where
  "interrupted_world = kitchen_world\<lparr>script := replicate 6 \<lparr>ev_fault = NoFault, ev_dt = 1\<rparr>
     @ [\<lparr>ev_fault = Fail context_Canceled, ev_dt = 1\<rparr>]\<rparr>"

theorem interrupted_order_stays_cooking_witness:
  "\<exists>e w'. proccessOrder (kitchen_deps_impl example_rabbit) example_kitchen None (Some kitchen_order) interrupted_world = (Some e, w')
     \<and> order_status (db w') ''ORD_20250101_001'' = Some StatusOrderCooking"
proof -
  let ?s = "SetStatus ''ORD_20250101_001'' ''chef'' StatusOrderCooking [] interrupted_world"
  let ?d = "GetSimulateCookingDuration (co_Type kitchen_order)"
  let ?u = "cooking_update ''ORD_20250101_001'' StatusOrderCooking StatusOrderCooking ''chef'' (clock (snd ?s)) (clock (snd ?s) + ?d) None"
  have s: "?s = (Inr StatusOrderCooking, snd ?s)" by (rule prod_eqI) (simp_all, code_simp)
  have c: "ctx_err (snd (wait_or_done ?d (snd (producer_StatusUpdate example_rabbit ?u (snd ?s))))) \<noteq> None" by code_simp
  have wf: "wf_db (db interrupted_world)" using kitchen_world_facts(2) by (simp add: interrupted_world_def)
  show ?thesis
    using interrupted_order_stays_cooking [OF wf example_kitchen_facts(3) [symmetric] example_kitchen_facts(1) [symmetric] s refl c] by auto
qed

definition example_body :: json where
  "example_body = the (Option.bind (FromInternalToPublishOrder (Some ''r1'') (Some kitchen_order)) marshal_order)"

lemma example_body: "\<exists>req. ToInternalOrder (Some example_body) = Inr req \<and> om_OrderNumber req = ''ORD_20250101_001''"
proof -
  obtain msg where m: "FromInternalToPublishOrder (Some ''r1'') (Some kitchen_order) = Some msg"
    by (simp add: FromInternalToPublishOrder_def)
  then have "go_order msg" "om_OrderNumber msg = ''ORD_20250101_001''"
    using example_floats by (auto simp: FromInternalToPublishOrder_def kitchen_order_def example_order_def go_order_def
        go_item_def int64_range_def)
  with ToInternalOrder_marshal [of msg] m show ?thesis by (auto simp: example_body_def)
qed

theorem delivery_served_witness:
  "\<exists>ctx' w' m1 m2. handle_delivery (processOrderWrapper (kitchen_deps_impl example_rabbit)) 1 (Some example_body) None
       example_kitchen received_world = (ctx', example_kitchen, w') \<and> amqp w' = [m1, m2, Ack 1]
     \<and> order_history (db w') ''ORD_20250101_001'' = [StatusOrderReceived, StatusOrderCooking, StatusOrderReady]"
proof -
  obtain req where r: "ToInternalOrder (Some example_body) = Inr req" "om_OrderNumber req = ''ORD_20250101_001''"
    using example_body by blast
  show ?thesis
    using delivery_served [OF received_world_facts(1-3) example_kitchen_facts(2) r(1) r(2) [symmetric] example_kitchen_facts(1) [symmetric]
        received_world_facts(4,6), where cfg = example_rabbit and tag = 1 and ctx = None] received_world_facts(5,7) by (auto simp: int4_def)
qed

theorem reprocessed_order_cooked_again_witness:
  "\<exists>ctx' w'. handle_delivery (processOrderWrapper (kitchen_deps_impl example_rabbit)) 1 (Some example_body) None
       example_kitchen kitchen_world = (ctx', example_kitchen, w')
     \<and> order_history (db w') ''ORD_20250101_001'' = [StatusOrderReceived, StatusOrderCooking, StatusOrderCooking, StatusOrderReady]"
proof -
  obtain req where r: "ToInternalOrder (Some example_body) = Inr req" "om_OrderNumber req = ''ORD_20250101_001''"
    using example_body by blast
  have h: "order_history (db kitchen_world) ''ORD_20250101_001'' = [StatusOrderReceived, StatusOrderCooking]"
    by (simp add: kitchen_world_def order_history_def example_world_def example_row_def example_logs_def start_world_def
        find_order_def logs_of_def)
  show ?thesis
    using reprocessed_order_cooked_again [OF kitchen_world_facts(1-3) example_kitchen_facts(2) r(1) r(2) [symmetric]
        example_kitchen_facts(1) [symmetric] kitchen_world_facts(4) _ kitchen_world_facts(6), where cfg = example_rabbit and tag = 1
        and ctx = None] h by (auto simp: int4_def)
qed

theorem delivery_acknowledged_when_ready_witness:
  "\<exists>ctx' w'. handle_delivery (processOrderWrapper (kitchen_deps_impl example_rabbit)) 1 (Some example_body) None
       example_kitchen received_world = (ctx', example_kitchen, w') \<and> Ack 1 \<in> set (amqp w')
     \<and> order_status (db w') ''ORD_20250101_001'' = Some StatusOrderReady"
proof -
  obtain req where r: "ToInternalOrder (Some example_body) = Inr req" "om_OrderNumber req = ''ORD_20250101_001''"
    using example_body by blast
  obtain ctx' w' m1 m2 where d: "handle_delivery (processOrderWrapper (kitchen_deps_impl example_rabbit)) 1 (Some example_body) None
       example_kitchen received_world = (ctx', example_kitchen, w')" "amqp w' = [m1, m2, Ack 1]"
    using delivery_live [OF received_world_facts(1-3) example_kitchen_facts(2) r(1) r(2) [symmetric] example_kitchen_facts(1) [symmetric]
        received_world_facts(4,6), where cfg = example_rabbit and tag = 1 and ctx = None] received_world_facts(7) by (auto simp: int4_def)
  show ?thesis
    using delivery_acknowledged_when_ready [OF received_world_facts(2) d(1)] d r received_world_facts(7) by auto
qed

theorem deliveries_settled_at_most_once_witness:
  "\<exists>b ctx' s' w' ts. consumer_loop (processOrderWrapper (kitchen_deps_impl example_rabbit))
       [Delivery 1 (Some example_body), Delivery 2 None, MsgsClosed] None example_kitchen kitchen_world = (b, ctx', s', w')
     \<and> settlements (amqp w') = ts \<and> subseq ts [1, 2]"
proof -
  obtain b ctx' s' w' where l: "consumer_loop (processOrderWrapper (kitchen_deps_impl example_rabbit))
       [Delivery 1 (Some example_body), Delivery 2 None, MsgsClosed] None example_kitchen kitchen_world = (b, ctx', s', w')"
    using prod_cases4 by blast
  show ?thesis
    using deliveries_settled_at_most_once [OF kitchen_world_facts(2) _ l] l kitchen_world_facts(7)
    by (auto simp: settlements_def)
qed

end
