(* ===== verification/Durations.thy ===== *)
theory Durations
  imports Float64 Go_Errors
begin

text \<open>
  Durations as text: \<^verbatim>\<open>time.ParseDuration\<close> of Go's standard library, which reads the durations of
  the configuration, and \<^verbatim>\<open>pkg/utils\<close>'s \<^verbatim>\<open>PrettyDuration\<close>, which prints them for the log. The
  errors of the parser only differ in their text and are one error here.
\<close>

section \<open>time.ParseDuration\<close>

definition is_digit :: "char \<Rightarrow> bool" where
  "is_digit c \<longleftrightarrow> 48 \<le> (of_char c :: nat) \<and> of_char c \<le> (57 :: nat)"

definition digit_value :: "char \<Rightarrow> nat" where
  "digit_value c = of_char c - 48"

fun leading_int :: "nat \<Rightarrow> string \<Rightarrow> (nat \<times> string) option" where
  "leading_int x [] = Some (x, [])"
| "leading_int x (c # s) =
     (if \<not> is_digit c then Some (x, c # s)
      else if x > 2 ^ 63 div 10 then None
      else let y = 10 * x + digit_value c in if y > 2 ^ 63 then None else leading_int y s)"

fun leading_fraction :: "bool \<Rightarrow> nat \<Rightarrow> float64 \<Rightarrow> string \<Rightarrow> nat \<times> float64 \<times> string" where
  "leading_fraction overflow x scale [] = (x, scale, [])"
| "leading_fraction overflow x scale (c # s) =
     (if \<not> is_digit c then (x, scale, c # s)
      else if overflow \<or> x > (2 ^ 63 - 1) div 10 then leading_fraction True x scale s
      else let y = 10 * x + digit_value c in
           if y > 2 ^ 63 then leading_fraction True x scale s
           else leading_fraction False y (fmul scale (Fin 10)) s)"

definition unit_map :: "(string \<times> nat) list" where
  "unit_map = [(''ns'', 1), (''us'', 1000), (bytes [194, 181, 115], 1000), (bytes [206, 188, 115], 1000),
     (''ms'', 1000000), (''s'', 1000000000), (''m'', 60000000000), (''h'', 3600000000000)]"

definition fraction_units :: "nat \<Rightarrow> nat \<Rightarrow> float64 \<Rightarrow> nat" where
  "fraction_units f unit scale =
     nat (int64_of_float (fmul (float_of_int (int f))
       (case scale of Fin q \<Rightarrow> fl (of_nat unit / q) | _ \<Rightarrow> Fin 0)))"

text \<open>One number with its unit: its value in nanoseconds and the rest of the text.\<close>

definition duration_term :: "string \<Rightarrow> (nat \<times> string) option" where
  "duration_term s =
     (case leading_int 0 s of None \<Rightarrow> None
      | Some (v, s1) \<Rightarrow>
          (let (f, scale, s2) = (if s1 \<noteq> [] \<and> hd s1 = CHR ''.'' then leading_fraction False 0 (Fin 1) (tl s1)
                                 else (0, Fin 1, s1));
               pre = length s1 \<noteq> length s;
               post = s1 \<noteq> [] \<and> hd s1 = CHR ''.'' \<and> length s2 \<noteq> length (tl s1);
               u = takeWhile (\<lambda>c. \<not> (c = CHR ''.'' \<or> is_digit c)) s2
           in if \<not> pre \<and> \<not> post \<or> u = [] then None
              else case map_of unit_map u of None \<Rightarrow> None
                | Some unit \<Rightarrow>
                    if v > 2 ^ 63 div unit then None
                    else let v1 = (if f > 0 then v * unit + fraction_units f unit scale else v * unit) in
                         if v1 > 2 ^ 63 then None else Some (v1, drop (length u) s2)))"

lemma leading_int_length: "leading_int x s = Some (v, r) \<Longrightarrow> length r \<le> length s"
  by (induction x s rule: leading_int.induct) (auto simp: Let_def split: if_splits)

lemma leading_fraction_length: "leading_fraction b x sc s = (f, sc', r) \<Longrightarrow> length r \<le> length s"
  by (induction b x sc s rule: leading_fraction.induct) (auto simp: Let_def split: if_splits)

lemma duration_term_shorter:
  assumes "duration_term s = Some (v, r)"
  shows "length r < length s"
proof -
  obtain v0 s1 where 1: "leading_int 0 s = Some (v0, s1)" using assms by (auto simp: duration_term_def split: option.splits)
  define s2 where "s2 = snd (snd (if s1 \<noteq> [] \<and> hd s1 = CHR ''.'' then leading_fraction False 0 (Fin 1) (tl s1)
      else (0, Fin 1, s1)))"
  let ?u = "takeWhile (\<lambda>c. \<not> (c = CHR ''.'' \<or> is_digit c)) s2"
  have "?u \<noteq> [] \<and> r = drop (length ?u) s2"
    using assms 1 by (auto simp: duration_term_def s2_def Let_def split: option.splits if_splits prod.splits)
  then have "length r < length s2" by (cases s2) (auto split: if_splits)
  also have "length s2 \<le> length s1"
  proof (cases "s1 \<noteq> [] \<and> hd s1 = CHR ''.''")
    case True
    obtain f sc q where q: "leading_fraction False 0 (Fin 1) (tl s1) = (f, sc, q)" using prod_cases3 by blast
    show ?thesis using True q leading_fraction_length [OF q] by (simp add: s2_def)
  qed (auto simp: s2_def)
  finally show ?thesis using leading_int_length [OF 1] by simp
qed

text \<open>The sum is an unsigned 64-bit addition.\<close>

function duration_terms :: "nat \<Rightarrow> string \<Rightarrow> nat option" where
  "duration_terms d s =
     (if s = [] then Some d
      else if \<not> (hd s = CHR ''.'' \<or> is_digit (hd s)) then None
      else case duration_term s of None \<Rightarrow> None
        | Some (v, r) \<Rightarrow> let d1 = (d + v) mod 2 ^ 64 in if d1 > 2 ^ 63 then None else duration_terms d1 r)"
  by pat_completeness auto
termination by (relation "measure (\<lambda>(d, s). length s)") (auto dest: duration_term_shorter)

declare duration_terms.simps [simp del]

definition invalid_duration :: err where
  "invalid_duration = Opaque ''time: invalid duration''"

definition ParseDuration :: "string \<Rightarrow> duration result" where
  "ParseDuration s =
     (let neg = (s \<noteq> [] \<and> hd s = CHR ''-'');
          t = (if s \<noteq> [] \<and> hd s \<in> {CHR ''-'', CHR ''+''} then tl s else s)
      in if t = ''0'' then Inr 0
         else if t = [] then Inl invalid_duration
         else case duration_terms 0 t of
                None \<Rightarrow> Inl invalid_duration
              | Some d \<Rightarrow> if neg then Inr (- int d)
                          else if d > 2 ^ 63 - 1 then Inl invalid_duration else Inr (int d))"

lemma leading_int_digits:
  assumes "\<forall>c \<in> set ds. is_digit c" "\<not> is_digit c" "foldl (\<lambda>a c. 10 * a + digit_value c) x ds \<le> 2 ^ 63"
  shows "leading_int x (ds @ c # s) = Some (foldl (\<lambda>a c. 10 * a + digit_value c) x ds, c # s)"
  using assms
proof (induction ds arbitrary: x)
  case (Cons e ds)
  have ge: "a \<le> foldl (\<lambda>a c. 10 * a + digit_value c) a es" for a es
  proof (induction es arbitrary: a)
    case (Cons e es)
    have "a \<le> 10 * a + digit_value e" by simp
    also have "\<dots> \<le> foldl (\<lambda>a c. 10 * a + digit_value c) (10 * a + digit_value e) es" by (rule Cons.IH)
    finally show ?case by simp
  qed simp
  have "10 * x + digit_value e \<le> 2 ^ 63" using ge [of "10 * x + digit_value e" ds] Cons.prems(3) by simp
  then have "x \<le> 2 ^ 63 div 10" by simp
  with Cons \<open>10 * x + digit_value e \<le> 2 ^ 63\<close> show ?case by (simp add: Let_def)
qed simp

lemma dec_nat_is_digit: "\<forall>c \<in> set (dec_nat n). is_digit c"
  using dec_nat_digits by (fastforce simp: is_digit_def)

lemma dec_nat_not_Nil [simp]: "dec_nat n \<noteq> []"
  by (simp add: dec_nat.simps [of n])

lemma ParseDuration_whole:
  assumes "n \<le> 9223372036"
  shows "ParseDuration (fmt_d (int n) @ ''s'') = Inr (int n * nanos_per_second)"
proof -
  have v: "foldl (\<lambda>a c. 10 * a + digit_value c) 0 (dec_nat n) = n"
    using dec_value_dec_nat [of n] by (simp add: dec_value_def digit_value_def)
  have sd: "\<not> is_digit (CHR ''s'')" by (simp add: is_digit_def)
  have l: "leading_int 0 (dec_nat n @ ''s'') = Some (n, ''s'')"
    using leading_int_digits [OF dec_nat_is_digit sd, of 0 n "[]"] v assms by simp
  have t: "duration_term (dec_nat n @ ''s'') = Some (n * 1000000000, [])"
    using l sd assms by (simp add: duration_term_def Let_def unit_map_def bytes_def)
  obtain c cs where c: "dec_nat n = c # cs" by (cases "dec_nat n") simp
  then have d: "is_digit c" using dec_nat_is_digit [of n] by simp
  then have "c \<noteq> CHR ''-''" "c \<noteq> CHR ''+''" by (auto simp: is_digit_def)
  moreover have "duration_terms 0 (dec_nat n @ ''s'') = Some (n * 1000000000)"
    using t d c assms by (subst duration_terms.simps) (simp add: duration_terms.simps [of _ "[]"] Let_def)
  ultimately show ?thesis using c assms by (simp add: ParseDuration_def fmt_d_def Let_def)
qed

text \<open>
  Whole seconds are read back: the text of a non-negative number of seconds with the
  unit s denotes that many seconds, up to the largest duration an int64 of nanoseconds holds.
\<close>

theorem ParseDuration_seconds:
  assumes "n \<le> 9223372036"
  shows "ParseDuration (fmt_d (int n) @ ''s'') = Inr (int n * nanos_per_second)"
  using assms by (rule ParseDuration_whole)

theorem ParseDuration_seconds_witness: "ParseDuration (fmt_d 5 @ ''s'') = Inr (5 * nanos_per_second)"
  using ParseDuration_seconds [of 5] by simp

section \<open>pkg/utils\<close>

fun joinParts :: "string list \<Rightarrow> string" where
  "joinParts [] = []"
| "joinParts [a] = a"
| "joinParts [a, b] = a @ '' '' @ b"
| "joinParts (a # b # c # _) = a @ '' '' @ b @ '' '' @ c"

definition unit_part :: "int \<Rightarrow> string \<Rightarrow> bool \<Rightarrow> string list" where
  "unit_part n unit plural = [fmt_d n @ '' '' @ unit @ (if plural then ''s'' else [])]"

definition PrettyDuration :: "duration \<Rightarrow> string" where
  "PrettyDuration d =
     (let hours = int64_of_float (duration_units (3600 * nanos_per_second) d);
          minutes = rem_trunc (int64_of_float (duration_units (60 * nanos_per_second) d)) 60;
          seconds = rem_trunc (int64_of_float (Duration_Seconds d)) 60;
          parts1 = (if hours > 0 then unit_part hours ''hour'' (hours > 1) else []);
          parts2 = parts1 @ (if minutes > 0 then unit_part minutes ''minute'' (minutes > 1) else []);
          parts3 = parts2 @ (if seconds > 0 \<or> parts2 = [] then unit_part seconds ''second'' (seconds \<noteq> 1) else [])
      in joinParts parts3)"

text \<open>The floating-point detour is exact for whole seconds.\<close>

lemma duration_units_whole_seconds:
  assumes "0 \<le> t" "t < 2 ^ 40" "u \<in> {1, 60, 3600}"
  shows "int64_of_float (duration_units (u * nanos_per_second) (t * nanos_per_second)) = t div u"
proof -
  have u: "0 < u" "u \<le> 3600" using assms(3) by auto
  define q r where "q = t div u" and "r = t mod u"
  have q: "0 \<le> q" "q < 2 ^ 40" and r: "0 \<le> r" "r \<le> u - 1"
    using assms(1,2) u zdiv_mono2 [of t 1 u] by (auto simp: q_def r_def pos_imp_zdiv_nonneg_iff)
  have d: "t = q * u + r" by (simp add: q_def r_def)
  have quot: "quot_trunc (t * nanos_per_second) (u * nanos_per_second) = q"
    using assms(1) u by (simp add: quot_trunc_nonneg q_def)
  have rem: "rem_trunc (t * nanos_per_second) (u * nanos_per_second) = r * nanos_per_second"
    using assms(1) u by (simp add: rem_trunc_nonneg r_def mod_mult_mult2)
  show ?thesis
  proof (cases "r = 0")
    case True
    then have e: "t * nanos_per_second = q * (u * nanos_per_second)" using d by simp
    have "int64_of_float (duration_units (u * nanos_per_second) (q * (u * nanos_per_second))) = q"
      by (rule int64_of_whole_units) (use u q in simp_all)
    then show ?thesis by (simp only: e q_def [symmetric])
  next
    case False
    define f where "f = (of_int r / of_int u :: rat)"
    have r1: "1 \<le> r" using False r(1) by simp
    have U: "0 < (of_int u :: rat)" "(of_int u :: rat) \<le> 3600" using u by simp_all
    have R: "1 \<le> (of_int r :: rat)" "(of_int r :: rat) \<le> of_int u - 1" using r1 r(2)
      by simp (metis of_int_1 of_int_diff of_int_le_iff r(2))
    have lo: "1 / 3600 \<le> f" using U R(1) by (simp add: f_def pos_le_divide_eq)
    have hi: "f \<le> 1 - 1 / 3600" using U R(2) by (simp add: f_def pos_divide_le_eq)
    have f0: "\<bar>f\<bar> \<le> 2 ^ 0" using lo hi by simp
    obtain p where p: "fl f = Fin p" "\<bar>p - f\<bar> \<le> 2 ^ 0 * 2 powi (- 53)" using fl_small [OF f0] by auto
    have pe: "\<bar>p - f\<bar> \<le> 1 / 9007199254740992" using p(2) by (simp add: power_int_minus)
    have Q: "0 \<le> (of_int q :: rat)" "(of_int q :: rat) \<le> 2 ^ 40"
      using q by simp (metis less_imp_le of_int_le_iff of_int_numeral of_int_power q(2))
    have P: "0 \<le> p" "p \<le> 1" using pe lo hi unfolding abs_le_iff by simp_all
    have "\<bar>of_int q + p\<bar> \<le> 2 ^ 41" using Q P by simp
    then obtain s where s: "fl (of_int q + p) = Fin s" "\<bar>s - (of_int q + p)\<bar> \<le> 2 ^ 41 * 2 powi (- 53)"
      using fl_small [of "of_int q + p" 41] by auto
    have se: "\<bar>s - (of_int q + p)\<bar> \<le> 1 / 4096" using s(2) by (simp add: power_int_minus)
    have "of_int q \<le> s" "s < of_int q + 1" using se pe lo hi unfolding abs_le_iff by simp_all
    then have fl: "\<lfloor>s\<rfloor> = q" by (simp add: floor_eq_iff)
    have "float_of_int q = Fin (of_int q)" "float_of_int (r * nanos_per_second) = Fin (of_int r * 1000000000)"
      using float_of_int_exact [of q] float_of_int_exact [of "r * nanos_per_second"] q r u by simp_all
    then have "duration_units (u * nanos_per_second) (t * nanos_per_second) = Fin s"
      using quot rem p(1) s(1) u by (simp add: duration_units_def fdiv_fin_def f_def)
    moreover have "0 \<le> s" using \<open>of_int q \<le> s\<close> q(1) by (metis of_int_0_le_iff order_trans)
    ultimately show ?thesis using fl by (simp add: q_def)
  qed
qed

definition plural_part :: "int \<Rightarrow> string \<Rightarrow> string" where
  "plural_part n unit = fmt_d n @ '' '' @ unit @ (if n = 1 then [] else ''s'')"

lemma pretty_parts:
  assumes "0 \<le> h" "0 \<le> m" "0 \<le> n"
    and "parts1 = (if h > 0 then unit_part h ''hour'' (h > 1) else [])"
    and "parts2 = parts1 @ (if m > 0 then unit_part m ''minute'' (m > 1) else [])"
    and "parts3 = parts2 @ (if n > 0 \<or> parts2 = [] then unit_part n ''second'' (n \<noteq> 1) else [])"
  shows "joinParts parts3 =
    (if h = 0 \<and> m = 0 \<and> n = 0 then plural_part 0 ''second''
     else join_with '' '' ((if h = 0 then [] else [plural_part h ''hour'']) @ (if m = 0 then [] else [plural_part m ''minute''])
        @ (if n = 0 then [] else [plural_part n ''second''])))"
  using assms by (cases "h = 0"; cases "m = 0"; cases "n = 0") (simp_all add: unit_part_def plural_part_def)

text \<open>
  Durations are printed as documented: for a whole number of seconds, the hours, minutes
  and seconds that are not zero, each with its unit in the singular for one and in the
  plural otherwise, separated by blanks, and 0 seconds for the zero duration.
\<close>

theorem PrettyDuration_correct:
  assumes "0 \<le> t" "t < 2 ^ 40"
  shows "PrettyDuration (t * nanos_per_second) =
    (if t = 0 then ''0 seconds''
     else join_with '' ''
       ((if t div 3600 = 0 then [] else [plural_part (t div 3600) ''hour''])
        @ (if t div 60 mod 60 = 0 then [] else [plural_part (t div 60 mod 60) ''minute''])
        @ (if t mod 60 = 0 then [] else [plural_part (t mod 60) ''second''])))"
proof -
  have u: "int64_of_float (duration_units (3600 * nanos_per_second) (t * nanos_per_second)) = t div 3600"
    "int64_of_float (duration_units (60 * nanos_per_second) (t * nanos_per_second)) = t div 60"
    "int64_of_float (Duration_Seconds (t * nanos_per_second)) = t"
    using duration_units_whole_seconds [OF assms, of 3600] duration_units_whole_seconds [OF assms, of 60]
      duration_units_whole_seconds [OF assms, of 1] by simp_all
  have m: "rem_trunc (t div 60) 60 = t div 60 mod 60" "rem_trunc t 60 = t mod 60"
    using assms(1) by (simp_all add: rem_trunc_nonneg)
  have n: "0 \<le> t div 3600" "0 \<le> t div 60 mod 60" "0 \<le> t mod 60" using assms(1) by simp_all
  have z: "t = 0 \<longleftrightarrow> t div 3600 = 0 \<and> t div 60 mod 60 = 0 \<and> t mod 60 = 0"
  proof -
    have "t div 3600 = t div 60 div 60" by (simp add: zdiv_zmult2_eq [symmetric])
    moreover have z: "x = 0" if "x div 60 = 0" "x mod 60 = 0" for x :: int using div_mult_mod_eq [of x 60] that by linarith
    ultimately show ?thesis using z [of t] z [of "t div 60"] by (metis div_0 mod_0)
  qed
  have zero: "fmt_d 0 = ''0''" by code_simp
  show ?thesis
    unfolding PrettyDuration_def Let_def u m z
    by (subst pretty_parts [OF n refl refl refl])
      (simp add: plural_part_def zero)
qed

theorem PrettyDuration_correct_witness: "PrettyDuration (4872 * nanos_per_second) = ''1 hour 21 minutes 12 seconds''"
proof -
  have "fmt_d 1 = ''1''" "fmt_d 21 = ''21''" "fmt_d 12 = ''12''" by code_simp+
  then show ?thesis using PrettyDuration_correct [of 4872] by (simp add: plural_part_def)
qed

end
