(* ===== verification/Configparser.thy ===== *)
theory Configparser
  imports Config Durations
begin

text \<open>
  \<^verbatim>\<open>pkg/configparser\<close> and \<^verbatim>\<open>config.New\<close>: the YAML file is read line by line into environment
  variables, and the structure is filled from the variables its \<^verbatim>\<open>env\<close> tags name, with the
  \<^verbatim>\<open>default\<close> tags as fallback. The environment is a map; the file is its content or the error of
  opening it. A structure walked by reflection is the tree of its fields, in order. Letters outside ASCII are left alone by the conversion to upper case.
\<close>

section \<open>Text\<close>

definition ascii_upper :: "char \<Rightarrow> char" where
  "ascii_upper c = (if 97 \<le> (of_char c :: nat) \<and> of_char c \<le> (122 :: nat) then char_of (of_char c - 32 :: nat) else c)"

definition ToUpper :: "string \<Rightarrow> string" where
  "ToUpper s = map ascii_upper s"

definition trim_chars :: "char set \<Rightarrow> string \<Rightarrow> string" where
  "trim_chars cs s = rev (dropWhile (\<lambda>c. c \<in> cs) (rev (dropWhile (\<lambda>c. c \<in> cs) s)))"

definition TrimRight_space :: "string \<Rightarrow> string" where
  "TrimRight_space s = rev (dropWhile (\<lambda>c. c = CHR '' '') (rev s))"

text \<open>\<^verbatim>\<open>SplitN\<close> at the first colon, if there is one.\<close>

definition split_colon :: "string \<Rightarrow> (string \<times> string) option" where
  "split_colon s = (if CHR '':'' \<in> set s
     then Some (takeWhile (\<lambda>c. c \<noteq> CHR '':'') s, tl (dropWhile (\<lambda>c. c \<noteq> CHR '':'') s)) else None)"

type_synonym environ = "string \<rightharpoonup> string"

definition Setenv :: "string \<Rightarrow> string \<Rightarrow> environ \<Rightarrow> environ result" where
  "Setenv key value env =
     (if key = [] \<or> CHR ''='' \<in> set key \<or> CHR 0x00 \<in> set key \<or> CHR 0x00 \<in> set value
      then Inl (Opaque ''setenv: invalid argument'') else Inr (env(key \<mapsto> value)))"

text \<open>\<^verbatim>\<open>bufio.Scanner\<close>: the lines without their end, an unfinished last line included, up to a line that is too long.\<close>

definition drop_cr :: "string \<Rightarrow> string" where
  "drop_cr s = (if s \<noteq> [] \<and> last s = CHR 0x0D then butlast s else s)"

definition scan_lines :: "string \<Rightarrow> string list" where
  "scan_lines content = (let ls = split_on (CHR 0x0A) content in if last ls = [] then butlast ls else ls)"

section \<open>load.go\<close>

text \<open>The stack of section names, innermost first.\<close>

fun pop_prefixes :: "int \<Rightarrow> int \<Rightarrow> string list \<Rightarrow> string list" where
  "pop_prefixes indent current [] = []"
| "pop_prefixes indent current (p # ps) =
     (if indent < current then pop_prefixes indent (current - 2) ps else p # ps)"

definition yaml_value :: "string \<Rightarrow> string" where
  "yaml_value raw = (let value = trim_chars {CHR 0x22, CHR 0x27} (TrimSpace raw)
     in if value = [] then ''true'' else value)"

definition yaml_line :: "string \<Rightarrow> int \<times> string list \<times> environ \<Rightarrow> (int \<times> string list \<times> environ) result" where
  "yaml_line text st =
     (let (current, prefixes, env) = st; line = TrimRight_space text in
      if line = [] \<or> starts_with ''#'' line then Inr st
      else let indent = int (length (takeWhile (\<lambda>c. c = CHR '' '') line));
               stack = pop_prefixes indent current prefixes;
               content = TrimSpace line
           in if content \<noteq> [] \<and> last content = CHR '':''
              then Inr (indent + 2, butlast content # stack, env)
              else case split_colon content of
                     None \<Rightarrow> Inr (indent, stack, env)
                   | Some (k, v) \<Rightarrow>
                       (let fullKey = ToUpper (join_with ''_'' (rev stack @ [TrimSpace k])) in
                        case Setenv fullKey (yaml_value v) env of
                          Inl e \<Rightarrow> Inl (errorf_w (''could not set env var '' @ fullKey @ '': '') e)
                        | Inr env' \<Rightarrow> Inr (indent, stack, env')))"

fun yaml_lines :: "string list \<Rightarrow> int \<times> string list \<times> environ \<Rightarrow> environ result" where
  "yaml_lines [] st = Inr (snd (snd st))"
| "yaml_lines (l # ls) st =
     (if 65536 \<le> length l
      then Inl (errorf_w ''error reading YAML file: '' (Opaque ''bufio.Scanner: token too long''))
      else case yaml_line (drop_cr l) st of Inl e \<Rightarrow> Inl e | Inr st' \<Rightarrow> yaml_lines ls st')"

definition LoadYamlFile :: "string result \<Rightarrow> environ \<Rightarrow> environ result" where
  "LoadYamlFile file env =
     (case file of
        Inl e \<Rightarrow> Inl (errorf_w ''could not open YAML file: '' e)
      | Inr content \<Rightarrow> yaml_lines (scan_lines content) (0, [], env))"

section \<open>strconv\<close>

text \<open>
  \<^verbatim>\<open>strconv.Quote\<close> and the verb \<^verbatim>\<open>%q\<close> on printable text: quotes and backslashes are escaped. Escapes of
  control characters are left out.
\<close>

definition go_quote :: "string \<Rightarrow> string" where
  "go_quote s = [CHR 0x22] @ concat (map (\<lambda>c. if c \<in> {CHR 0x22, CHR 0x5C} then [CHR 0x5C, c] else [c]) s) @ [CHR 0x22]"

datatype num_error = ErrSyntax | ErrRange

definition num_text :: "string \<Rightarrow> string \<Rightarrow> num_error \<Rightarrow> err" where
  "num_text fn s e = Opaque (''strconv.'' @ fn @ '': parsing '' @ go_quote s @ '': ''
     @ (case e of ErrSyntax \<Rightarrow> ''invalid syntax'' | ErrRange \<Rightarrow> ''value out of range''))"

text \<open>The digits are read from the left; the first one that does not fit ends the reading.\<close>

fun uint_digits :: "nat \<Rightarrow> string \<Rightarrow> num_error + nat" where
  "uint_digits n [] = Inr n"
| "uint_digits n (c # cs) =
     (if \<not> is_digit c then Inl ErrSyntax
      else if n \<ge> (2 ^ 64 - 1) div 10 + 1 \<or> 10 * n + (of_char c - 48) \<ge> 2 ^ 64 then Inl ErrRange
      else uint_digits (10 * n + (of_char c - 48)) cs)"

definition read_uint :: "string \<Rightarrow> num_error + nat" where
  "read_uint s = (if s = [] then Inl ErrSyntax else uint_digits 0 s)"

definition ParseUint :: "string \<Rightarrow> nat result" where
  "ParseUint s = (case read_uint s of Inl e \<Rightarrow> Inl (num_text ''ParseUint'' s e) | Inr n \<Rightarrow> Inr n)"

definition ParseInt :: "string \<Rightarrow> int result" where
  "ParseInt s =
     (let neg = (s \<noteq> [] \<and> hd s = CHR ''-'');
          t = (if s \<noteq> [] \<and> hd s \<in> {CHR ''-'', CHR ''+''} then tl s else s)
      in case read_uint t of
           Inl e \<Rightarrow> Inl (num_text ''ParseInt'' s e)
         | Inr n \<Rightarrow>
             if (if neg then n > 2 ^ 63 else n \<ge> 2 ^ 63) then Inl (num_text ''ParseInt'' s ErrRange)
             else Inr (if neg then - int n else int n))"

definition ParseBool :: "string \<Rightarrow> bool result" where
  "ParseBool s =
     (if s \<in> {''1'', ''t'', ''T'', ''true'', ''TRUE'', ''True''} then Inr True
      else if s \<in> {''0'', ''f'', ''F'', ''false'', ''FALSE'', ''False''} then Inr False
      else Inl (num_text ''ParseBool'' s ErrSyntax))"

section \<open>parser.go\<close>

text \<open>
  A structure is the list of its fields: fields without a tag, nested structures without a tag, and
  tagged fields, given by their name, tags and kind with the assignment to the field. \<open>KOther\<close> is a
  kind the parser does not support, a tagged structure among them.
\<close>

datatype 'c field_kind =
    KString "string \<Rightarrow> 'c \<Rightarrow> 'c"
  | KInt nat "int \<Rightarrow> 'c \<Rightarrow> 'c"
  | KUint nat "nat \<Rightarrow> 'c \<Rightarrow> 'c"
  | KBool "bool \<Rightarrow> 'c \<Rightarrow> 'c"
  | KDuration "duration \<Rightarrow> 'c \<Rightarrow> 'c"
  | KOther string

record 'c tagged_field =
  tf_name :: string
  tf_env :: string
  tf_default :: string
  tf_settable :: bool
  tf_kind :: "'c field_kind"

datatype 'c struct_field = Untagged string | Nested string "'c struct_field list" | Tagged "'c tagged_field"

text \<open>\<^verbatim>\<open>SetInt\<close> and \<^verbatim>\<open>SetUint\<close> on a field of \<open>w\<close> bits keep the low bits.\<close>

definition set_field :: "'c tagged_field \<Rightarrow> string \<Rightarrow> 'c \<Rightarrow> 'c result" where
  "set_field f val cfg =
     (if \<not> tf_settable f then Inl (Opaque (''cannot set field '' @ tf_name f))
      else case tf_kind f of
        KDuration put \<Rightarrow>
          (case ParseDuration val of
             Inl e \<Rightarrow> Inl (errorf_v (''failed to parse duration for '' @ tf_env f @ '': '') e)
           | Inr d \<Rightarrow> Inr (put d cfg))
      | KString put \<Rightarrow> Inr (put val cfg)
      | KInt w put \<Rightarrow>
          (case ParseInt val of
             Inl e \<Rightarrow> Inl (errorf_v (''failed to parse int for '' @ tf_env f @ '': '') e)
           | Inr n \<Rightarrow> Inr (put (signed_take_bit (w - 1) n) cfg))
      | KUint w put \<Rightarrow>
          (case ParseUint val of
             Inl e \<Rightarrow> Inl (errorf_v (''failed to parse uint for '' @ tf_env f @ '': '') e)
           | Inr n \<Rightarrow> Inr (put (take_bit w n) cfg))
      | KBool put \<Rightarrow>
          (case ParseBool val of
             Inl e \<Rightarrow> Inl (errorf_v (''failed to parse bool for '' @ tf_env f @ '': '') e)
           | Inr b \<Rightarrow> Inr (put b cfg))
      | KOther kind \<Rightarrow> Inl (Opaque (''unsupported kind '' @ kind @ '' for field '' @ tf_name f)))"

definition field_value :: "environ \<Rightarrow> 'c tagged_field \<Rightarrow> string" where
  "field_value env f =
     (case env (tf_env f) of None \<Rightarrow> tf_default f | Some v \<Rightarrow> if v = [] then tf_default f else v)"

definition parse_field :: "environ \<Rightarrow> 'c tagged_field \<Rightarrow> 'c \<Rightarrow> 'c result" where
  "parse_field env f cfg = (let val = field_value env f in if val = [] then Inr cfg else set_field f val cfg)"

fun parseStruct :: "environ \<Rightarrow> 'c struct_field list \<Rightarrow> 'c \<Rightarrow> 'c result" where
  "parseStruct env [] cfg = Inr cfg"
| "parseStruct env (Nested _ gs # fs) cfg =
     (case parseStruct env gs cfg of Inl e \<Rightarrow> Inl e | Inr cfg' \<Rightarrow> parseStruct env fs cfg')"
| "parseStruct env (Untagged _ # fs) cfg = parseStruct env fs cfg"
| "parseStruct env (Tagged f # fs) cfg =
     (case parse_field env f cfg of Inl e \<Rightarrow> Inl e | Inr cfg' \<Rightarrow> parseStruct env fs cfg')"

text \<open>\<^const>\<open>None\<close>: a value that is not a pointer to a structure.\<close>

definition Parse :: "environ \<Rightarrow> 'c struct_field list option \<Rightarrow> 'c \<Rightarrow> 'c result" where
  "Parse env v cfg = (case v of None \<Rightarrow> Inl (Opaque ''expected pointer to struct'') | Some fs \<Rightarrow> parseStruct env fs cfg)"

section \<open>The tagged fields of the configuration\<close>

abbreviation tagged :: "string \<Rightarrow> string \<Rightarrow> string \<Rightarrow> 'c field_kind \<Rightarrow> 'c struct_field" where
  "tagged name env dflt kind \<equiv>
     Tagged \<lparr>tf_name = name, tf_env = env, tf_default = dflt, tf_settable = True, tf_kind = kind\<rparr>"

definition order_fields :: "Config struct_field list" where
  "order_fields =
     [Untagged ''MaxConcurrent'',
      tagged ''SemWait'' ''ORDER_SEMWAIT'' ''1s'' (KDuration (\<lambda>d c. c\<lparr>cf_Order := (cf_Order c)\<lparr>oc_SemWait := d\<rparr>\<rparr>))]"

definition kitchen_fields :: "Config struct_field list" where
  "kitchen_fields =
     [Untagged ''WorkerName'', Untagged ''OrderTypes'', Untagged ''Prefetch'', Untagged ''HeartbeatInterval'',
      tagged ''ReconnectAttempt'' ''KITCHEN_RECONNECT_ATTEMPT'' ''5'' (KInt 64 (\<lambda>n c. c\<lparr>cf_Kitchen := (cf_Kitchen c)\<lparr>kc_ReconnectAttempt := n\<rparr>\<rparr>)),
      tagged ''ReconnectDelay'' ''KITCHEN_RECONNECT_DELAY'' ''1s'' (KDuration (\<lambda>d c. c\<lparr>cf_Kitchen := (cf_Kitchen c)\<lparr>kc_ReconnectDelay := d\<rparr>\<rparr>))]"

definition postgres_fields :: "Config struct_field list" where
  "postgres_fields =
     [tagged ''Host'' ''POSTGRES_HOST'' [] (KString (\<lambda>v c. c\<lparr>cf_Postgres := (cf_Postgres c)\<lparr>pc_Host := v\<rparr>\<rparr>)),
      tagged ''Port'' ''POSTGRES_PORT'' [] (KString (\<lambda>v c. c\<lparr>cf_Postgres := (cf_Postgres c)\<lparr>pc_Port := v\<rparr>\<rparr>)),
      tagged ''User'' ''POSTGRES_USER'' [] (KString (\<lambda>v c. c\<lparr>cf_Postgres := (cf_Postgres c)\<lparr>pc_User := v\<rparr>\<rparr>)),
      tagged ''Password'' ''POSTGRES_PASSWORD'' [] (KString (\<lambda>v c. c\<lparr>cf_Postgres := (cf_Postgres c)\<lparr>pc_Password := v\<rparr>\<rparr>)),
      tagged ''DBName'' ''POSTGRES_DATABASE'' [] (KString (\<lambda>v c. c\<lparr>cf_Postgres := (cf_Postgres c)\<lparr>pc_DBName := v\<rparr>\<rparr>)),
      tagged ''MaxOpenConns'' ''POSTGRES_MAX_OPEN_CONN'' ''25'' (KInt 32 (\<lambda>n c. c\<lparr>cf_Postgres := (cf_Postgres c)\<lparr>pc_MaxOpenConns := n\<rparr>\<rparr>)),
      tagged ''MaxIdleTime'' ''POSTGRES_MAX_IDLE_TIME'' ''15m'' (KString (\<lambda>v c. c\<lparr>cf_Postgres := (cf_Postgres c)\<lparr>pc_MaxIdleTime := v\<rparr>\<rparr>))]"

definition put_conn :: "(rabbit_Config \<Rightarrow> rabbit_Config) \<Rightarrow> Config \<Rightarrow> Config" where
  "put_conn f c = c\<lparr>cf_RabbitMQ := (cf_RabbitMQ c)\<lparr>rm_Conn := f (rm_Conn (cf_RabbitMQ c))\<rparr>\<rparr>"

definition conn_fields :: "Config struct_field list" where
  "conn_fields =
     [tagged ''Host'' ''RABBITMQ_HOST'' ''localhost'' (KString (\<lambda>v. put_conn (\<lambda>x. x\<lparr>rc_Host := v\<rparr>))),
      tagged ''Port'' ''RABBITMQ_PORT'' ''5672'' (KString (\<lambda>v. put_conn (\<lambda>x. x\<lparr>rc_Port := v\<rparr>))),
      tagged ''User'' ''RABBITMQ_USER'' ''guest'' (KString (\<lambda>v. put_conn (\<lambda>x. x\<lparr>rc_User := v\<rparr>))),
      tagged ''Password'' ''RABBITMQ_PASSWORD'' ''guest'' (KString (\<lambda>v. put_conn (\<lambda>x. x\<lparr>rc_Password := v\<rparr>)))]"

definition rabbit_fields :: "Config struct_field list" where
  "rabbit_fields =
     [Nested ''Conn'' conn_fields,
      tagged ''OrderExchange'' ''RABBITMQ_ORDER_EXCHANGE'' ''orders_topic''
        (KString (\<lambda>v c. c\<lparr>cf_RabbitMQ := (cf_RabbitMQ c)\<lparr>rm_OrderExchange := v\<rparr>\<rparr>)),
      tagged ''NotificationsExchange'' ''RABBITMQ_NOTIFICATIONS_EXCHANGE'' ''notifications_fanout''
        (KString (\<lambda>v c. c\<lparr>cf_RabbitMQ := (cf_RabbitMQ c)\<lparr>rm_NotificationsExchange := v\<rparr>\<rparr>)),
      tagged ''ReconnectAttempt'' ''RABBITMQ_RECONNECT_ATTEMPT'' ''5''
        (KInt 64 (\<lambda>n c. c\<lparr>cf_RabbitMQ := (cf_RabbitMQ c)\<lparr>rm_ReconnectAttempt := n\<rparr>\<rparr>)),
      tagged ''ReconnectDelay'' ''RABBITMQ_RECONNECT_DELAY'' ''1s''
        (KDuration (\<lambda>d c. c\<lparr>cf_RabbitMQ := (cf_RabbitMQ c)\<lparr>rm_ReconnectDelay := d\<rparr>\<rparr>))]"

definition config_fields :: "Config struct_field list" where
  "config_fields =
     [Untagged ''Mode'',
      Nested ''Services''
        [Nested ''Order'' order_fields, Nested ''Kitchen'' kitchen_fields, Nested ''Tracking'' [Untagged ''HeartbeatInterval'']],
      Nested ''HTTPServer'' [Untagged ''Port''],
      Nested ''Postgres'' postgres_fields,
      Nested ''RabbitMQ'' rabbit_fields,
      Untagged ''LogLevel'']"

definition LoadAndParseYaml :: "string result \<Rightarrow> environ \<Rightarrow> Config \<Rightarrow> (Config \<times> environ) result" where
  "LoadAndParseYaml file env cfg =
     (case LoadYamlFile file env of
        Inl e \<Rightarrow> Inl e
      | Inr env' \<Rightarrow> (case Parse env' (Some config_fields) cfg of Inl e \<Rightarrow> Inl e | Inr cfg' \<Rightarrow> Inr (cfg', env')))"

definition config_New :: "string result \<Rightarrow> flags \<Rightarrow> environ \<Rightarrow> Config result" where
  "config_New file f env =
     (case LoadAndParseYaml file env zero_Config of
        Inl e \<Rightarrow> Inl e
      | Inr (cfg, _) \<Rightarrow> parseFlags f cfg)"

end
