(* ===== verification/Startup.thy ===== *)
theory Startup
  imports Http Kitchen_Delivery Configparser
begin

text \<open>
  \<^verbatim>\<open>internal/app\<close> and \<^verbatim>\<open>internal/app/services\<close>, first part: the checks and connections made when a
  service is created, and the life of the services with an HTTP server. The parameter
  \<open>parse_dsn\<close> is the driver's \<^verbatim>\<open>pgxpool.ParseConfig\<close>, which only matters by its error. The pool of
  database connections shows by whether it was closed.
\<close>

section \<open>pkg/postgres\<close>

text \<open>Creating the pool and the ping leave the process.\<close>

definition postgres_New :: "(string \<Rightarrow> err option) \<Rightarrow> postgres_Config \<Rightarrow> world \<Rightarrow> err option \<times> world" where
  "postgres_New parse_dsn config w =
     (case parse_dsn (GetDsn config) of
        Some e \<Rightarrow> (Some e, w)
      | None \<Rightarrow>
          (case ParseDuration (pc_MaxIdleTime config) of
             Inl e \<Rightarrow> (Some e, w)
           | Inr _ \<Rightarrow>
               (case call w of
                  (Fail e, w1) \<Rightarrow> (Some e, w1)
                | (FailApplied e, w1) \<Rightarrow> (Some e, w1)
                | (NoFault, w1) \<Rightarrow>
                    (case call w1 of
                       (NoFault, w2) \<Rightarrow> (None, w2)
                     | (Fail e, w2) \<Rightarrow> (Some e, w2)
                     | (FailApplied e, w2) \<Rightarrow> (Some e, w2)))))"

section \<open>Checks of the kitchen worker's flags\<close>

definition ErrEmptyOrderTypes :: err where
  "ErrEmptyOrderTypes = Sentinel ''services.ErrEmptyOrderTypes'' ''order types cannot be empty''"

definition ErrDuplicateOrderType :: err where
  "ErrDuplicateOrderType = Sentinel ''services.ErrDuplicateOrderType'' ''duplicate order type found''"

definition ErrInvalidOrderType :: err where
  "ErrInvalidOrderType = Sentinel ''services.ErrInvalidOrderType''
     (''invalid order type. must be Comma-separated list of order types the worker can handle ''
      @ ''(e.g., dine_in,takeout)'')"

definition ErrInvalidHeartbeatInterval :: err where
  "ErrInvalidHeartbeatInterval =
     Sentinel ''services.ErrInvalidHeartbeatInterval'' ''heartbeat interval must be at least 5 seconds''"

fun clean_order_types :: "string list \<Rightarrow> string list \<Rightarrow> string list \<Rightarrow> string list result" where
  "clean_order_types [] seen orderTypes =
     (if orderTypes = [] then Inl ErrEmptyOrderTypes else Inr orderTypes)"
| "clean_order_types (rawType # rest) seen orderTypes =
     (let trimmed = TrimSpace rawType in
      if trimmed = [] then clean_order_types rest seen orderTypes
      else if List.member seen trimmed then Inl (Wrapped (go_quote trimmed @ '': '') ErrDuplicateOrderType [])
      else if \<not> IsValidOrderType trimmed
      then Inl (Wrapped (go_quote trimmed @ '': '') ErrInvalidOrderType
                 ('' (available: ['' @ join_with '' '' AllOrderTypes @ ''])''))
      else clean_order_types rest (trimmed # seen) (orderTypes @ [trimmed]))"

definition ValidateOrderTypes :: "string \<Rightarrow> string list result" where
  "ValidateOrderTypes input =
     (if input = [] then Inr AllOrderTypes else clean_order_types (split_on (CHR '','') input) [] [])"

definition validateWorkerName :: "string \<Rightarrow> err option" where
  "validateWorkerName name =
     (if RuneCountInString name < 1 \<or> RuneCountInString name > 100
      then Some (Opaque ''worker name length must be between 1-100 characters'') else None)"

definition heartbeat_duration :: "int \<Rightarrow> duration" where
  "heartbeat_duration secs = wrap64 (secs * nanos_per_second)"

lemma clean_order_types_Inr:
  assumes "set seen = set acc" "distinct acc" "set acc \<subseteq> set AllOrderTypes"
  shows "clean_order_types raws seen acc = Inr ts \<longleftrightarrow>
    ts = acc @ filter (\<lambda>t. t \<noteq> []) (map TrimSpace raws) \<and> ts \<noteq> [] \<and> distinct ts \<and> set ts \<subseteq> set AllOrderTypes"
  using assms
proof (induction raws arbitrary: seen acc)
  case (Cons raw raws)
  let ?t = "TrimSpace raw"
  show ?case
  proof (cases "?t = [] \<or> ?t \<in> set acc \<or> ?t \<notin> set AllOrderTypes")
    case True
    with Cons show ?thesis by (auto simp: Let_def IsValidOrderType_def)
  next
    case False
    with Cons.IH [of "?t # seen" "acc @ [?t]"] Cons.prems show ?thesis by (simp add: Let_def IsValidOrderType_def)
  qed
qed auto

text \<open>
  C35. The order types a worker accepts: the empty flag means all three types; any other
  value is accepted exactly when its non-empty trimmed entries are valid, pairwise
  different and at least one, and then they are the worker's types, in the given order.
\<close>

theorem ValidateOrderTypes_iff:
  "ValidateOrderTypes input = Inr ts \<longleftrightarrow>
     (if input = [] then ts = AllOrderTypes
      else ts = filter (\<lambda>t. t \<noteq> []) (map TrimSpace (split_on (CHR '','') input))
        \<and> ts \<noteq> [] \<and> distinct ts \<and> set ts \<subseteq> set AllOrderTypes)"
  using clean_order_types_Inr [of "[]" "[]"] by (auto simp: ValidateOrderTypes_def)

section \<open>Waiting for the end\<close>

text \<open>
  What becomes of a service: it returns, waits for ever, or the process panics.
  \<^verbatim>\<open>Start\<close> of every service ends in a select over the error channel and the shutdown signals: nothing
  may ever come, a signal may find an error waiting or none, or be taken first.
\<close>

datatype 'a service_outcome = Done 'a | Blocked | Crash

datatype signal = No_Signal | Signal_Later | Signal_First

fun select_end :: "signal \<Rightarrow> err list \<Rightarrow> err option service_outcome" where
  "select_end Signal_First es = Done None"
| "select_end sig (e # es) = Done (Some e)"
| "select_end Signal_Later [] = Done None"
| "select_end No_Signal [] = Blocked"

section \<open>The order and the tracking service\<close>

record order_app =
  oa_api :: API
  oa_service :: order_service
  oa_pool_closed :: bool

text \<open>\<^const>\<open>None\<close>: the panic of making a channel of negative size.\<close>

definition NewOrder :: "(string \<Rightarrow> err option) \<Rightarrow> Config \<Rightarrow> world \<Rightarrow> order_app result option \<times> world" where
  "NewOrder parse_dsn cfg w =
     (case postgres_New parse_dsn (cf_Postgres cfg) w of
        (Some e, w1) \<Rightarrow> (Some (Inl (errorf_v ''failed to connect postgres: '' e)), w1)
      | (None, w1) \<Rightarrow>
          (case NewOrderProducer (cf_RabbitMQ cfg) w1 of
             (Some e, w2) \<Rightarrow> (Some (Inl (errorf_v ''failed to connect rabbitmq: '' e)), w2)
           | (None, w2) \<Rightarrow>
               (case NewSemaphore (oc_MaxConcurrent (cf_Order cfg)) of
                  None \<Rightarrow> (None, w2)
                | Some sem \<Rightarrow>
                    (Some (Inr \<lparr>oa_api = API_New cfg, oa_service = NewService cfg sem nanos_per_second,
                                oa_pool_closed = False\<rparr>), w2))))"

text \<open>
  \<^verbatim>\<open>Start\<close> runs the server, waits for its error or a signal, and then closes; without either it waits on.
  \<open>fault\<close> is the error of listening; \<^verbatim>\<open>close\<close> gives up on a busy server after a timeout.
\<close>

definition order_close :: "bool \<Rightarrow> order_app \<Rightarrow> world \<Rightarrow> order_app \<times> world" where
  "order_close busy s w =
     (s\<lparr>oa_api := snd (API_Stop busy (oa_api s)), oa_pool_closed := True\<rparr>, snd (CloseWithContext w))"

definition order_Start :: "err option \<Rightarrow> signal \<Rightarrow> bool \<Rightarrow> order_app \<Rightarrow> world
    \<Rightarrow> (err option \<times> order_app \<times> world) service_outcome" where
  "order_Start fault sig busy s w =
     (case API_Run fault (oa_api s) of
        (es, api) \<Rightarrow>
          (case select_end sig es of
             Done r \<Rightarrow> Done (r, order_close busy (s\<lparr>oa_api := api\<rparr>) w)
           | Blocked \<Rightarrow> Blocked
           | Crash \<Rightarrow> Crash))"

record tracking_app =
  ta_api :: API
  ta_heartbeat :: int
  ta_pool_closed :: bool

definition NewTracking :: "(string \<Rightarrow> err option) \<Rightarrow> Config \<Rightarrow> world \<Rightarrow> tracking_app result \<times> world" where
  "NewTracking parse_dsn cfg w =
     (case postgres_New parse_dsn (cf_Postgres cfg) w of
        (Some e, w1) \<Rightarrow> (Inl (errorf_v ''failed to connect postgres: '' e), w1)
      | (None, w1) \<Rightarrow>
          (Inr \<lparr>ta_api = API_New cfg, ta_heartbeat = cf_TrackingHeartbeat cfg, ta_pool_closed = False\<rparr>, w1))"

definition tracking_close :: "bool \<Rightarrow> tracking_app \<Rightarrow> tracking_app" where
  "tracking_close busy s = s\<lparr>ta_api := snd (API_Stop busy (ta_api s)), ta_pool_closed := True\<rparr>"

definition tracking_Start :: "err option \<Rightarrow> signal \<Rightarrow> bool \<Rightarrow> tracking_app \<Rightarrow> (err option \<times> tracking_app) service_outcome" where
  "tracking_Start fault sig busy s =
     (case API_Run fault (ta_api s) of
        (es, api) \<Rightarrow>
          (case select_end sig es of
             Done r \<Rightarrow> Done (r, tracking_close busy (s\<lparr>ta_api := api\<rparr>))
           | Blocked \<Rightarrow> Blocked
           | Crash \<Rightarrow> Crash))"

end
