(* ===== verification/Kitchen_Service.thy ===== *)
theory Kitchen_Service
  imports Startup
begin

text \<open>
  \<^verbatim>\<open>internal/app/services/kitchen-worker.go\<close>: creating the kitchen service, running it, closing it
  and recreating it when its worker has stopped. The service runs under the background
  context, so \<^verbatim>\<open>close\<close> acts under a context that is live until its timeout, whatever happened
  to the context of the worker. \<open>conn_closed\<close> of the world is the producer of the service in
  use; a service that is not yet installed keeps the flag of its own producer.
\<close>

record KitchenService =
  ks_worker :: KitchenWorker
  ks_producer_closed :: bool
  ks_pool_closed :: bool
  ks_cfg :: Config

definition NewKitchen :: "(string \<Rightarrow> err option) \<Rightarrow> Config \<Rightarrow> world \<Rightarrow> KitchenService result \<times> world" where
  "NewKitchen parse_dsn cfg w =
     (case validateWorkerName (kc_WorkerName (cf_Kitchen cfg)) of
        Some e \<Rightarrow> (Inl (errorf_w ''failed to validate worker name: '' e), w)
      | None \<Rightarrow>
        case ValidateOrderTypes (kc_OrderTypes (cf_Kitchen cfg)) of
          Inl e \<Rightarrow> (Inl (errorf_w ''failed to vailidate provided order types: '' e), w)
        | Inr validOrderTypes \<Rightarrow>
          let heartbeatDuration = heartbeat_duration (kc_HeartbeatInterval (cf_Kitchen cfg)) in
          if heartbeatDuration \<le> 5 * nanos_per_second then (Inl ErrInvalidHeartbeatInterval, w)
          else case postgres_New parse_dsn (cf_Postgres cfg) w of
            (Some e, w1) \<Rightarrow> (Inl (errorf_v ''failed to connect postgres: '' e), w1)
          | (None, w1) \<Rightarrow>
            case NewOrderConsumer (cf_RabbitMQ cfg) (kc_Prefetch (cf_Kitchen cfg)) validOrderTypes w1 of
              (Inl e, w2) \<Rightarrow> (Inl (errorf_w ''failed to create order consumer: '' e), w2)
            | (Inr consumer, w2) \<Rightarrow>
              case on_client (NewProducerNotify (cf_RabbitMQ cfg)) True w2 of
                (Some e, shut, w3) \<Rightarrow> (Inl (errorf_w ''failed to create notification producer: '' e), w3)
              | (None, shut, w3) \<Rightarrow>
                  (Inr \<lparr>ks_worker = NewWorker consumer (kc_WorkerName (cf_Kitchen cfg)) validOrderTypes heartbeatDuration,
                        ks_producer_closed = shut, ks_pool_closed = False, ks_cfg = cfg\<rparr>, w3))"

text \<open>The producer and the consumer are closed with their errors logged only.\<close>

definition kitchen_close :: "kitchen_deps \<Rightarrow> KitchenService \<Rightarrow> world \<Rightarrow> (KitchenService \<times> world) service_outcome" where
  "kitchen_close deps s w =
     (case Stop deps False (ks_worker s) (w\<lparr>ctx_err := None\<rparr>) of
        Panics \<Rightarrow> Crash
      | Waits \<Rightarrow> Blocked
      | Returns k w1 \<Rightarrow>
          (case order_consumer_Close (kw_consumer k) w1 of
             (_, c, w2) \<Rightarrow>
               (case CloseWithContext w2 of
                  (_, w3) \<Rightarrow> Done (s\<lparr>ks_worker := k\<lparr>kw_consumer := c\<rparr>, ks_producer_closed := True,
                                     ks_pool_closed := True\<rparr>, w3\<lparr>ctx_err := None\<rparr>))))"

text \<open>The worker and the world as the service finds them when it acts on a report of the worker.\<close>

fun after_work :: "KitchenService \<Rightarrow> work_outcome \<Rightarrow> (KitchenService \<times> world) service_outcome" where
  "after_work s (Working k w) = Done (s\<lparr>ks_worker := k\<rparr>, w)"
| "after_work s (Finished (Returns k w)) = Done (s\<lparr>ks_worker := k\<rparr>, w)"
| "after_work s (Finished Waits) = Blocked"
| "after_work s (Finished Panics) = Crash"

text \<open>
  \<open>signals\<close> tells, for each failed attempt, whether a shutdown signal was waiting. The loop counter
  runs from 1, so a configured count of zero or less makes no attempt and returns nil. The new
  worker runs over \<open>evs'\<close> and reports into a channel nobody reads.
\<close>

fun kitchen_reconnect :: "(string \<Rightarrow> err option) \<Rightarrow> kitchen_deps \<Rightarrow> work_event list \<Rightarrow> nat \<Rightarrow> err option \<Rightarrow> bool list
    \<Rightarrow> KitchenService \<Rightarrow> world \<Rightarrow> (err option \<times> KitchenService \<times> world) service_outcome" where
  "kitchen_reconnect parse_dsn deps evs' 0 lastErr signals s w = Done (lastErr, s, w)"
| "kitchen_reconnect parse_dsn deps evs' (Suc n) lastErr signals s w =
     (case NewKitchen parse_dsn (ks_cfg s) w of
        (Inr newSvc, w1) \<Rightarrow>
          (case kitchen_close deps s w1 of
             Blocked \<Rightarrow> Blocked
           | Crash \<Rightarrow> Crash
           | Done (_, w2) \<Rightarrow>
               (case after_work newSvc (snd (Work deps None 1 evs' (ks_worker newSvc)
                       (w2\<lparr>conn_closed := ks_producer_closed newSvc\<rparr>))) of
                  Done (s3, w3) \<Rightarrow> Done (None, s3, w3)
                | Blocked \<Rightarrow> Blocked
                | Crash \<Rightarrow> Crash))
      | (Inl e, w1) \<Rightarrow>
          (if signals \<noteq> [] \<and> hd signals then Done (Some (Opaque ''reconnect stopped externally''), s, w1)
           else kitchen_reconnect parse_dsn deps evs' n (Some e) (tl signals) s
                  (sleep (kc_ReconnectDelay (cf_Kitchen (ks_cfg s))) w1)))"

definition close_and_return :: "kitchen_deps \<Rightarrow> err option \<Rightarrow> KitchenService \<Rightarrow> world
    \<Rightarrow> (err option \<times> KitchenService \<times> world) service_outcome" where
  "close_and_return deps r s w =
     (case kitchen_close deps s w of Done (s', w') \<Rightarrow> Done (r, s', w') | Blocked \<Rightarrow> Blocked | Crash \<Rightarrow> Crash)"

text \<open>
  \<^verbatim>\<open>Start\<close>: the worker runs over \<open>evs\<close>; its first report reaches the select. A report of
  \<^verbatim>\<open>ErrWorkerStopped\<close> makes the service recreate itself and wait on, any other ends it; without a
  further report a signal ends it. A deferred \<^verbatim>\<open>close\<close> follows in all cases.
\<close>

definition kitchen_Start :: "(string \<Rightarrow> err option) \<Rightarrow> kitchen_deps \<Rightarrow> work_event list \<Rightarrow> bool list \<Rightarrow> work_event list
    \<Rightarrow> KitchenService \<Rightarrow> world \<Rightarrow> (err option \<times> KitchenService \<times> world) service_outcome" where
  "kitchen_Start parse_dsn deps evs signals evs' s w =
     (case Work deps None 1 evs (ks_worker s) w of
        (es, outcome) \<Rightarrow>
          (case after_work s outcome of
             Blocked \<Rightarrow> Blocked
           | Crash \<Rightarrow> Crash
           | Done (s1, w1) \<Rightarrow>
               (case es of
                  [] \<Rightarrow> close_and_return deps None s1 w1
                | e # _ \<Rightarrow>
                    if \<not> errors_is e ErrWorkerStopped then close_and_return deps (Some e) s1 w1
                    else case kitchen_reconnect parse_dsn deps evs' (nat (kc_ReconnectAttempt (cf_Kitchen (ks_cfg s1)))) None
                                signals s1 (w1\<lparr>ctx_err := None\<rparr>) of
                           Done (r, s2, w2) \<Rightarrow> close_and_return deps r s2 w2
                         | Blocked \<Rightarrow> Blocked
                         | Crash \<Rightarrow> Crash)))"

section \<open>The worker keeps its own state while it works\<close>

lemma wrapper_keeps: "processOrderWrapper deps ctx req s w = (r, s', w') \<Longrightarrow> s' = s"
  by (auto simp: processOrderWrapper_def Let_def split: if_splits prod.splits)

lemma handle_delivery_keeps:
  assumes "handle_delivery (processOrderWrapper deps) tag body ctx s w = (ctx', s', w')"
  shows "s' = s"
proof (cases "ToInternalOrder body")
  case (Inl e)
  then show ?thesis using assms by (simp add: handle_delivery_def)
next
  case (Inr req)
  let ?ctx = "if om_RequestID req \<noteq> [] then Some (om_RequestID req) else ctx"
  obtain order where o: "FromPublishToInternalOrder (Some req) = Some order" by (simp add: FromPublishToInternalOrder_def)
  obtain r s1 w1 where h: "processOrderWrapper deps ?ctx order s w = (r, s1, w1)" using prod_cases3 by blast
  with assms Inr o have "s' = s1" by (cases r) (simp_all add: handle_delivery_def Let_def split: if_splits)
  then show ?thesis using wrapper_keeps [OF h] by simp
qed

lemma consumer_step_keeps:
  "consumer_step (processOrderWrapper deps) ev ctx s w = (b, ctx', s', w') \<Longrightarrow> s' = s"
  by (cases ev) (auto dest: handle_delivery_keeps)

lemma work_loop_keeps: "work_loop deps active evs s w = (b, s', w') \<Longrightarrow> s' = s"
proof (induction deps active evs s w rule: work_loop.induct)
  case (4 deps a as ot ev evs s w)
  show ?case
  proof (cases "map_of (a # as) ot")
    case None
    with 4 show ?thesis by simp
  next
    case (Some ctx)
    obtain ended ctx1 s1 w1 where st: "consumer_step (processOrderWrapper deps) ev ctx s w = (ended, ctx1, s1, w1)"
      using prod_cases4 by blast
    with 4 Some consumer_step_keeps [OF st] show ?thesis by auto
  qed
qed simp_all

section \<open>A lost connection\<close>

lemma MarkOffline_cancelled: "ctx_err w \<noteq> None \<Longrightarrow> \<exists>e. MarkOffline n w = (Some e, w)"
  by (auto simp: MarkOffline_def exec_update_def exec_auto_def call_def)

text \<open>The stop under the worker's own context never marks the worker offline.\<close>

lemma own_stop:
  assumes "Stop (kitchen_deps_impl cfg) True s w = Returns s' w'" "kw_isWorking s"
  shows "kw_isWorking s' \<and> kw_stopping s' \<and> db w' = db w"
proof -
  have "ctx_err (cancel_ctx True w) \<noteq> None" "db (cancel_ctx True w) = db w" by (auto simp: cancel_ctx_def)
  then show ?thesis
    using assms MarkOffline_cancelled [of "cancel_ctx True w" "wr_name (kw_worker s)"]
    by (auto simp: Stop_def kitchen_deps_impl_def Let_def split: if_splits)
qed

lemma work_stopped:
  assumes "Work (kitchen_deps_impl cfg) ctx room evs s w = ([ErrWorkerStopped], Finished (Returns k w'))"
  shows "kw_isWorking k \<and> kw_stopping k"
proof -
  let ?deps = "kitchen_deps_impl cfg"
  obtain r s1 w1 where m: "markOnline ?deps s w = (r, s1, w1)" using prod_cases3 by blast
  show ?thesis
  proof (cases r)
    case (Some e)
    with assms m show ?thesis by (auto simp: Work_def deferred_stop_def split: stop_outcome.splits)
  next
    case None
    then have on: "kw_isWorking s1" using m by (auto simp: markOnline_def split: if_splits prod.splits option.splits)
    obtain es active c w2 where st: "start_consumers (wr_orderTypes (kw_worker s1)) room (kw_consumer s1) w1 = (es, active, c, w2)"
      using prod_cases4 by blast
    obtain b s3 w3 where l: "work_loop ?deps (map (\<lambda>ot. (ot, ctx)) active) evs (s1\<lparr>kw_consumer := c\<rparr>) w2 = (b, s3, w3)"
      using prod_cases3 by blast
    have "kw_isWorking s3" using work_loop_keeps [OF l] on by simp
    moreover have "Stop ?deps True s3 w3 = Returns k w'"
      using assms m None st l by (cases b) (auto simp: Work_def deferred_stop_def split: stop_outcome.splits)
    ultimately show ?thesis using own_stop by blast
  qed
qed

text \<open>
  C39. A kitchen worker that loses its connection brings the process down: when the message
  channels of a worker are closed it stops by itself, without marking itself offline, since
  its own context is cancelled first; the service then recreates itself as soon as the
  broker and the database are back, and in closing the old worker it closes a channel
  that is already closed, which panics.
\<close>

theorem lost_connection_crashes:
  assumes "Work (kitchen_deps_impl cfg) None 1 evs (ks_worker s) w = ([ErrWorkerStopped], Finished (Returns k w1))"
    and "NewKitchen parse_dsn (ks_cfg s) (w1\<lparr>ctx_err := None\<rparr>) = (Inr newSvc, w2)"
    and "0 < kc_ReconnectAttempt (cf_Kitchen (ks_cfg s))"
  shows "kitchen_Start parse_dsn (kitchen_deps_impl cfg) evs signals evs' s w = Crash"
proof -
  obtain n where n: "nat (kc_ReconnectAttempt (cf_Kitchen (ks_cfg s))) = Suc n" using assms(3) gr0_implies_Suc by fastforce
  have "kw_isWorking k" "kw_stopping k" using work_stopped [OF assms(1)] by simp_all
  then have "kitchen_close (kitchen_deps_impl cfg) (s\<lparr>ks_worker := k\<rparr>) w2 = Crash"
    by (simp add: kitchen_close_def Stop_def)
  then show ?thesis using assms(1,2) n by (simp add: kitchen_Start_def)
qed

section \<open>A graceful shutdown\<close>

lemma MarkOffline_live:
  assumes "quiet w" "find_worker (db w) n \<noteq> None"
  shows "\<exists>w'. MarkOffline n w = (None, w') \<and> quiet w'"
proof -
  obtain w1 where c: "call w = (NoFault, w1)" "quiet w1" using quiet_call [OF assms(1)] by blast
  let ?f = "\<lambda>r. r\<lparr>w_status := WorkerOffline, w_last_seen := clock w1\<rparr>"
  have "\<exists>j. fst (update_worker n ?f (db w)) = Inr (Suc j)"
    using assms(2) update_worker_rows [of n ?f "db w"]
    by (auto simp: update_worker_def find_worker_def gr0_conv_Suc [symmetric])
  then show ?thesis
    using quiet_exec_auto [OF assms(1), of "update_worker n ?f"] c by (auto simp: MarkOffline_def exec_update_def)
qed

lemma CloseWithContext_db: "CloseWithContext w = (r, w') \<Longrightarrow> db w' = db w"
proof -
  assume c: "CloseWithContext w = (r, w')"
  have a: "db (snd (await_close u)) = db u" for u
    by (auto simp: await_close_def split: prod.splits fault.splits dest: raw_call_eqD)
  obtain b w1 where 1: "IsConnectionClosed w = (b, w1)" by fastforce
  have d: "db w1 = db w" using IsConnectionClosed_net [OF 1] by (simp add: net_only_def)
  obtain r2 w2 where 2: "await_close (snd (await_close w1)) = (r2, w2)" by fastforce
  have "db w2 = db w" using a [of "snd (await_close w1)"] a [of w1] 2 d by simp
  with c 1 2 d show ?thesis by (cases b; cases r2) (auto simp: CloseWithContext_def)
qed

lemma order_consumer_Close_db: "order_consumer_Close c w = (r, c', w') \<Longrightarrow> db w' = db w"
proof -
  assume c: "order_consumer_Close c w = (r, c', w')"
  let ?w = "w\<lparr>conn_closed := oc_closed c\<rparr>"
  obtain b w1 where 1: "IsConnectionClosed ?w = (b, w1)" by fastforce
  have d: "db w1 = db w" using IsConnectionClosed_net [OF 1] by (simp add: net_only_def)
  obtain r2 w2 where 2: "CloseWithContext w1 = (r2, w2)" by fastforce
  have "db w2 = db w" using CloseWithContext_db [OF 2] d by simp
  with c 1 2 d show ?thesis by (cases b) (auto simp: order_consumer_Close_def on_client_def)
qed

text \<open>
  A graceful shutdown signs the worker off: when a signal arrives while the worker is
  working and no order is being processed, and the database answers, the service closes, its
  worker is offline in the registry, the counters of all workers are as before, and the
  pool is closed.
\<close>

theorem graceful_shutdown:
  assumes "Work (kitchen_deps_impl cfg) None 1 evs (ks_worker s) w = ([], Working k w1)"
    and "kw_isWorking k" "\<not> kw_stopping k" "kw_activeOrders k = 0" "quiet (w1\<lparr>ctx_err := None\<rparr>)"
    and "name = wr_name (kw_worker k)" "find_worker (db w1) name \<noteq> None"
  shows "\<exists>s' w'. kitchen_Start parse_dsn (kitchen_deps_impl cfg) evs signals evs' s w = Done (None, s', w')
    \<and> \<not> worker_online (db w') name \<and> orders_processed_by (db w') = orders_processed_by (db w1)
    \<and> ks_pool_closed s' \<and> \<not> kw_isWorking (ks_worker s')"
proof -
  obtain w2 where m: "MarkOffline name (w1\<lparr>ctx_err := None\<rparr>) = (None, w2)"
    using MarkOffline_live [OF assms(5)] assms(7) by auto
  let ?k = "k\<lparr>kw_stopping := True, kw_cancelled := True, kw_isWorking := False\<rparr>"
  have st: "Stop (kitchen_deps_impl cfg) False k (w1\<lparr>ctx_err := None\<rparr>) = Returns ?k w2"
    using m assms(2-4,6) by (simp add: Stop_def kitchen_deps_impl_def cancel_ctx_def Let_def)
  obtain r c w3 where 3: "order_consumer_Close (kw_consumer ?k) w2 = (r, c, w3)" using prod_cases3 by blast
  obtain r' w4 where 4: "CloseWithContext w3 = (r', w4)" by fastforce
  have d: "db w4 = db w2" using order_consumer_Close_db [OF 3] CloseWithContext_db [OF 4] by simp
  let ?s = "s\<lparr>ks_worker := ?k\<lparr>kw_consumer := c\<rparr>, ks_producer_closed := True, ks_pool_closed := True\<rparr>"
  have "kitchen_Start parse_dsn (kitchen_deps_impl cfg) evs signals evs' s w = Done (None, ?s, w4\<lparr>ctx_err := None\<rparr>)"
    using assms(1) st 3 4 by (simp add: kitchen_Start_def close_and_return_def kitchen_close_def)
  then show ?thesis using MarkOffline_ok(2,3) [OF m] d by simp
qed

section \<open>A live system\<close>

lemma quiet_rabbit_New: "quiet w \<Longrightarrow> \<exists>w'. rabbit_New w = (None, w') \<and> quiet w' \<and> db w' = db w \<and> \<not> conn_closed w'"
proof -
  assume q: "quiet w"
  obtain w1 where 1: "raw_call w = (NoFault, w1)" "quiet w1" using quiet_raw_call [OF q] by blast
  obtain w2 where 2: "raw_call w1 = (NoFault, w2)" "quiet w2" using quiet_raw_call [OF 1(2)] by blast
  obtain w3 where 3: "raw_call w2 = (NoFault, w3)" "quiet w3" using quiet_raw_call [OF 2(2)] by blast
  show ?thesis
    using 1 2 3 raw_call_eqD(1) [OF 1(1)] raw_call_eqD(1) [OF 2(1)] raw_call_eqD(1) [OF 3(1)] by (simp add: rabbit_New_def)
qed

lemma quiet_send:
  "quiet w \<Longrightarrow> \<exists>w'. channel_send c w = (None, w') \<and> quiet w' \<and> db w' = db w \<and> conn_closed w' = conn_closed w"
  using quiet_channel_send [of w c] channel_send_eqD(1,2) [of c w] by blast

lemma quiet_send_all:
  "quiet w \<Longrightarrow> \<exists>w'. send_all cs w = (None, w') \<and> quiet w' \<and> db w' = db w \<and> conn_closed w' = conn_closed w"
proof (induction cs arbitrary: w)
  case (Cons c cs)
  obtain w1 where "channel_send (snd c) w = (None, w1)" "quiet w1" "db w1 = db w" "conn_closed w1 = conn_closed w"
    using quiet_send [OF Cons.prems] by blast
  with Cons.IH [of w1] show ?case by (cases c) auto
qed simp

lemma quiet_NewOrderConsumer:
  assumes "quiet w" "ots \<noteq> []"
  shows "\<exists>c w'. NewOrderConsumer cfg p ots w = (Inr c, w') \<and> quiet w' \<and> \<not> oc_closed c"
proof -
  obtain w1 where 1: "rabbit_New (w\<lparr>conn_closed := True\<rparr>) = (None, w1)" "quiet w1" "\<not> conn_closed w1"
    using quiet_rabbit_New [of "w\<lparr>conn_closed := True\<rparr>"] assms(1) by auto
  obtain w2 where 2: "channel_send (ExchangeDeclare (rm_OrderExchange cfg) ''topic'') w1 = (None, w2)" "quiet w2" "\<not> conn_closed w2"
    using quiet_send [OF 1(2)] 1(3) by metis
  obtain w3 where 3: "InitQueuesForOrderTypes (rm_OrderExchange cfg) ots w2 = (None, w3)" "quiet w3" "\<not> conn_closed w3"
    using quiet_send_all [OF 2(2)] 2(3) unfolding InitQueuesForOrderTypes_def by metis
  show ?thesis using assms(2) 1 2 3 by (simp add: NewOrderConsumer_def on_client_def open_order_client_def)
qed

lemma quiet_NewProducerNotify:
  assumes "quiet w" "rm_NotificationsExchange cfg \<noteq> []"
  shows "\<exists>w'. NewProducerNotify cfg w = (None, w') \<and> quiet w'"
proof -
  obtain w1 where 1: "rabbit_New w = (None, w1)" "quiet w1" using quiet_rabbit_New [OF assms(1)] by blast
  obtain w2 where "channel_send (ExchangeDeclare (rm_NotificationsExchange cfg) ''fanout'') w1 = (None, w2)" "quiet w2"
    using quiet_send [OF 1(2)] by blast
  with 1 assms(2) show ?thesis by (simp add: NewProducerNotify_def)
qed

lemma quiet_NewKitchen:
  assumes "quiet w" "validateWorkerName (kc_WorkerName (cf_Kitchen cfg)) = None"
    and "ValidateOrderTypes (kc_OrderTypes (cf_Kitchen cfg)) = Inr ots" "ots \<noteq> []"
    and "5 * nanos_per_second < heartbeat_duration (kc_HeartbeatInterval (cf_Kitchen cfg))"
    and "parse_dsn (GetDsn (cf_Postgres cfg)) = None" "ParseDuration (pc_MaxIdleTime (cf_Postgres cfg)) = Inr d"
    and "rm_NotificationsExchange (cf_RabbitMQ cfg) \<noteq> []"
  shows "\<exists>s w'. NewKitchen parse_dsn cfg w = (Inr s, w')"
proof -
  obtain w1 where 1: "call w = (NoFault, w1)" "quiet w1" using quiet_call [OF assms(1)] by blast
  obtain w2 where 2: "call w1 = (NoFault, w2)" "quiet w2" using quiet_call [OF 1(2)] by blast
  have p: "postgres_New parse_dsn (cf_Postgres cfg) w = (None, w2)" using 1 2 assms(6,7) by (simp add: postgres_New_def)
  obtain c w3 where 3: "NewOrderConsumer (cf_RabbitMQ cfg) (kc_Prefetch (cf_Kitchen cfg)) ots w2 = (Inr c, w3)" "quiet w3"
    using quiet_NewOrderConsumer [OF 2(2) assms(4)] by blast
  obtain w4 where "NewProducerNotify (cf_RabbitMQ cfg) (w3\<lparr>conn_closed := True\<rparr>) = (None, w4)"
    using quiet_NewProducerNotify [of "w3\<lparr>conn_closed := True\<rparr>"] 3(2) assms(8) by auto
  then show ?thesis using assms(2,3,5) p 3(1) by (simp add: NewKitchen_def on_client_def Let_def)
qed

lemma quiet_start_consumers:
  assumes "quiet w" "\<not> oc_closed c"
  shows "\<exists>w'. start_consumers ots room c w = ([], ots, c, w') \<and> quiet w' \<and> db w' = db w"
  using assms(1)
proof (induction ots arbitrary: w)
  case (Cons ot ots)
  let ?w = "w\<lparr>conn_closed := False\<rparr>"
  obtain w1 where 1: "raw_call ?w = (NoFault, w1)" "quiet w1" using quiet_raw_call [of ?w] Cons.prems by auto
  have c1: "\<not> conn_closed w1" "db w1 = db w" using raw_call_eqD [OF 1(1)] by simp_all
  obtain w2 where 2: "channel_send (Qos (oc_prefetchCount c)) w1 = (None, w2)" "quiet w2" "db w2 = db w1" "\<not> conn_closed w2"
    using quiet_send [OF 1(2)] c1(1) by metis
  obtain w3 where 3: "channel_send (amqp_cmd.Consume (getQueueByOrderType ot)) w2 = (None, w3)" "quiet w3" "db w3 = db w2" "\<not> conn_closed w3"
    using quiet_send [OF 2(2)] 2(4) by metis
  have "on_client (start_consuming c ot) (oc_closed c) w = (None, False, w3\<lparr>conn_closed := conn_closed w\<rparr>)"
    using assms(2) 1 2 3 c1 by (simp add: on_client_def start_consuming_def ensure_connected_def IsConnectionClosed_def channel_command_def)
  moreover have "c\<lparr>oc_closed := False\<rparr> = c" using assms(2) by simp
  ultimately show ?case
    using Cons.IH [of "w3\<lparr>conn_closed := conn_closed w\<rparr>"] 3 2(3) c1(2) by auto
qed simp

lemma MarkOnline_new:
  assumes "quiet w" "find_worker (db w) n = None"
  shows "\<exists>w'. MarkOnline n ts hb w = (None, w') \<and> quiet w' \<and> find_worker (db w') n \<noteq> None"
proof -
  obtain w1 where c: "call w = (NoFault, w1)" "quiet w1" using quiet_call [OF assms(1)] by blast
  have d: "db w1 = db w" using call_eqD [OF c(1)] by simp
  obtain d' where u: "upsert_worker (clock w1) n ts (takeover_seconds hb) (db w1) = (Inr 1, d')"
    using assms(2) d by (simp add: upsert_worker_def Let_def)
  then have "find_worker d' n \<noteq> None" using find_upsert_worker(3) [OF u] by auto
  with c u show ?thesis by (simp add: MarkOnline_def)
qed

lemma Work_starts:
  assumes "quiet w" "\<not> kw_isWorking s" "\<not> oc_closed (kw_consumer s)" "find_worker (db w) (wr_name (kw_worker s)) = None"
  shows "\<exists>w'. Work (kitchen_deps_impl cfg) ctx room evs s w =
      (case work_loop (kitchen_deps_impl cfg) (map (\<lambda>ot. (ot, ctx)) (wr_orderTypes (kw_worker s))) evs
              (s\<lparr>kw_isWorking := True\<rparr>) w' of
         (False, s3, w3) \<Rightarrow> ([], Working s3 w3)
       | (True, s3, w3) \<Rightarrow> deferred_stop (kitchen_deps_impl cfg) [] s3 w3)
    \<and> quiet w' \<and> find_worker (db w') (wr_name (kw_worker s)) \<noteq> None"
proof -
  obtain w1 where 1: "MarkOnline (wr_name (kw_worker s)) (join_with '','' (wr_orderTypes (kw_worker s))) (wr_heartbeat (kw_worker s)) w = (None, w1)"
    "quiet w1" "find_worker (db w1) (wr_name (kw_worker s)) \<noteq> None"
    using MarkOnline_new [OF assms(1,4)] by blast
  obtain w2 where 2: "start_consumers (wr_orderTypes (kw_worker s)) room (kw_consumer s) w1
      = ([], wr_orderTypes (kw_worker s), kw_consumer s, w2)" "quiet w2" "db w2 = db w1"
    using quiet_start_consumers [OF 1(2) assms(3)] by blast
  have "markOnline (kitchen_deps_impl cfg) s w = (None, s\<lparr>kw_isWorking := True\<rparr>, w1)"
    using assms(2) 1(1) by (simp add: markOnline_def kitchen_deps_impl_def)
  moreover have "s\<lparr>kw_isWorking := True, kw_consumer := kw_consumer s\<rparr> = s\<lparr>kw_isWorking := True\<rparr>" by simp
  ultimately show ?thesis using 1 2 by (intro exI [of _ w2]) (simp add: Work_def)
qed

section \<open>Instances\<close>

definition kitchen_config :: Config where
  "kitchen_config = zero_Config
     \<lparr>cf_Kitchen := \<lparr>kc_WorkerName = ''chef'', kc_OrderTypes = [], kc_Prefetch = 1, kc_HeartbeatInterval = 30,
                     kc_ReconnectAttempt = 5, kc_ReconnectDelay = nanos_per_second\<rparr>,
      cf_Postgres := (cf_Postgres zero_Config)\<lparr>pc_MaxIdleTime := ''900s''\<rparr>, cf_RabbitMQ := example_rabbit\<rparr>"

definition example_kitchen_service :: KitchenService where
  "example_kitchen_service = \<lparr>ks_worker = example_kitchen, ks_producer_closed = False, ks_pool_closed = False,
     ks_cfg = kitchen_config\<rparr>"

definition all_closed :: "work_event list" where
  "all_closed = map (\<lambda>ot. At ot MsgsClosed) AllOrderTypes"

lemma example_kitchen_config:
  "validateWorkerName (kc_WorkerName (cf_Kitchen kitchen_config)) = None"
  "ValidateOrderTypes (kc_OrderTypes (cf_Kitchen kitchen_config)) = Inr AllOrderTypes" "AllOrderTypes \<noteq> []"
  "5 * nanos_per_second < heartbeat_duration (kc_HeartbeatInterval (cf_Kitchen kitchen_config))"
  "ParseDuration (pc_MaxIdleTime (cf_Postgres kitchen_config)) = Inr 900000000000"
  "rm_NotificationsExchange (cf_RabbitMQ kitchen_config) \<noteq> []"
proof -
  show "validateWorkerName (kc_WorkerName (cf_Kitchen kitchen_config)) = None"
    by (simp add: validateWorkerName_def kitchen_config_def RuneCountInString_ascii)
  have "fmt_d (int 900) = ''900''" by code_simp
  then have "ParseDuration ''900s'' = Inr 900000000000" using ParseDuration_whole [of 900] by simp
  then show "ParseDuration (pc_MaxIdleTime (cf_Postgres kitchen_config)) = Inr 900000000000" by (simp add: kitchen_config_def)
qed (simp_all add: kitchen_config_def ValidateOrderTypes_def heartbeat_duration_def AllOrderTypes_def example_rabbit_def)

lemma example_start:
  "quiet (start_world [])" "\<not> kw_isWorking example_kitchen" "\<not> oc_closed (kw_consumer example_kitchen)"
  "find_worker (db (start_world [])) (wr_name (kw_worker example_kitchen)) = None"
  "wr_orderTypes (kw_worker example_kitchen) = AllOrderTypes" "kw_activeOrders example_kitchen = 0"
  by (simp_all add: quiet_def start_world_def example_kitchen_def NewWorker_def example_consumer_def find_worker_def empty_db_def)

theorem lost_connection_crashes_witness:
  "kitchen_Start (\<lambda>_. None) (kitchen_deps_impl example_rabbit) all_closed [] [] example_kitchen_service (start_world []) = Crash"
proof -
  let ?deps = "kitchen_deps_impl example_rabbit" and ?k = "example_kitchen\<lparr>kw_isWorking := True\<rparr>"
  obtain w1 where w1: "Work ?deps None 1 all_closed example_kitchen (start_world []) =
      (case work_loop ?deps (map (\<lambda>ot. (ot, None)) AllOrderTypes) all_closed ?k w1 of
         (False, s3, w3) \<Rightarrow> ([], Working s3 w3) | (True, s3, w3) \<Rightarrow> deferred_stop ?deps [] s3 w3)" "quiet w1"
    using Work_starts [OF example_start(1-4), of example_rabbit None 1 all_closed] example_start(5) by auto
  have l: "work_loop ?deps (map (\<lambda>ot. (ot, None)) AllOrderTypes) all_closed ?k w1 = (True, ?k, w1)"
    by (simp add: all_closed_def AllOrderTypes_def order_type_defs)
  have "ctx_err (cancel_ctx True w1) \<noteq> None" by (auto simp: cancel_ctx_def)
  then obtain e where "MarkOffline ''chef'' (cancel_ctx True w1) = (Some e, cancel_ctx True w1)"
    using MarkOffline_cancelled by blast
  then obtain k where w: "Work ?deps None 1 all_closed (ks_worker example_kitchen_service) (start_world [])
      = ([ErrWorkerStopped], Finished (Returns k (cancel_ctx True w1)))"
    using w1(1) l example_start(6) example_kitchen_facts(2)
    by (simp add: deferred_stop_def Stop_def Let_def kitchen_deps_impl_def example_kitchen_service_def)
  have "quiet (cancel_ctx True w1\<lparr>ctx_err := None\<rparr>)" using w1(2) by (simp add: quiet_def cancel_ctx_def)
  then obtain s' w' where n: "NewKitchen (\<lambda>_. None) (ks_cfg example_kitchen_service) (cancel_ctx True w1\<lparr>ctx_err := None\<rparr>) = (Inr s', w')"
    using quiet_NewKitchen [OF _ example_kitchen_config(1-4) _ example_kitchen_config(5,6), where parse_dsn = "\<lambda>_. None"]
    by (fastforce simp: example_kitchen_service_def)
  show ?thesis
    using lost_connection_crashes [OF w n] by (simp add: example_kitchen_service_def kitchen_config_def)
qed

theorem graceful_shutdown_witness:
  "\<exists>s' w'. kitchen_Start (\<lambda>_. None) (kitchen_deps_impl example_rabbit) [] [] [] example_kitchen_service (start_world [])
     = Done (None, s', w') \<and> \<not> worker_online (db w') ''chef''"
proof -
  let ?k = "example_kitchen\<lparr>kw_isWorking := True\<rparr>"
  obtain w1 where w1: "Work (kitchen_deps_impl example_rabbit) None 1 [] (ks_worker example_kitchen_service) (start_world []) = ([], Working ?k w1)"
    "quiet w1" "find_worker (db w1) ''chef'' \<noteq> None"
    using Work_starts [OF example_start(1-4), of example_rabbit None 1 "[]"] example_start(5)
    by (auto simp: AllOrderTypes_def example_kitchen_service_def)
  have "quiet (w1\<lparr>ctx_err := None\<rparr>)" using w1(2) by (simp add: quiet_def)
  then show ?thesis
    using graceful_shutdown [OF w1(1) _ _ _ _ _ w1(3), where parse_dsn = "\<lambda>_. None" and signals = "[]" and evs' = "[]"]
      example_kitchen_facts(1,2) example_start(6) by auto
qed

end
