(* ===== verification/Logging.thy ===== *)
theory Logging
  imports Json Config "HOL-Library.Sublist"
begin

text \<open>
  \<^verbatim>\<open>pkg/logger\<close>: the logger over \<^verbatim>\<open>log/slog\<close> with its JSON handler. An entry is the object it
  prints, its members in the order they are printed. The clock, the host name and the text of
  \<^verbatim>\<open>runtime.Stack\<close> are parameters. A context is the request identifier it carries, if any.
\<close>

section \<open>Attributes\<close>

text \<open>
  An argument after the message: \<^verbatim>\<open>slog\<close> takes a string for a key and pairs it with the next
  argument; an argument without a key gets the key \<^verbatim>\<open>!BADKEY\<close>.
\<close>

datatype log_arg = Text string | Val json

fun arg_value :: "log_arg \<Rightarrow> json" where
  "arg_value (Text s) = JStr s"
| "arg_value (Val v) = v"

definition badKey :: string where
  "badKey = ''!BADKEY''"

fun args_to_attrs :: "log_arg list \<Rightarrow> (string \<times> json) list" where
  "args_to_attrs [] = []"
| "args_to_attrs [Text s] = [(badKey, JStr s)]"
| "args_to_attrs (Text k # v # rest) = (k, arg_value v) # args_to_attrs rest"
| "args_to_attrs (Val v # rest) = (badKey, v) # args_to_attrs rest"

text \<open>
  The handler's \<^verbatim>\<open>ReplaceAttr\<close>: \<^verbatim>\<open>msg\<close> is renamed on every level, a \<^verbatim>\<open>time\<close> that holds an instant is
  renamed and printed to the second. It sees the members of a group, not the group.
\<close>

definition RFC3339 :: "instant \<Rightarrow> json" where
  "RFC3339 t = JTime (t - t mod nanos_per_second)"

fun ReplaceAttr :: "string \<times> json \<Rightarrow> string \<times> json" where
  "ReplaceAttr (k, v) =
     (if k = ''msg'' then (''message'', v)
      else case v of
             JTime t \<Rightarrow> if k = ''time'' then (''timestamp'', RFC3339 t) else (k, v)
           | _ \<Rightarrow> (k, v))"

text \<open>A group of attributes as \<^verbatim>\<open>slog.GroupValue\<close> makes it, to tell it from a printed structure.\<close>

datatype attr = Attr string json | Group string "(string \<times> json) list"

fun print_attr :: "attr \<Rightarrow> string \<times> json" where
  "print_attr (Attr k v) = ReplaceAttr (k, v)"
| "print_attr (Group k as) = (k, JObj (map ReplaceAttr as))"

section \<open>The logger\<close>

record logger =
  lg_level :: int
  lg_service :: string
  lg_hostname :: string

definition slog_level :: "string \<Rightarrow> int" where
  "slog_level lvl =
     (if lvl = LevelDebug then - 4 else if lvl = LevelInfo then 0
      else if lvl = LevelWarn then 4 else if lvl = LevelError then 8 else 0)"

definition level_name :: "int \<Rightarrow> string" where
  "level_name n = (if n = - 4 then ''DEBUG'' else if n = 0 then ''INFO'' else if n = 4 then ''WARN'' else ''ERROR'')"

definition InitLogger :: "string \<Rightarrow> string \<Rightarrow> string result \<Rightarrow> logger" where
  "InitLogger serviceName logLevel hostname =
     \<lparr>lg_level = slog_level logLevel, lg_service = serviceName,
      lg_hostname = (case hostname of Inl _ \<Rightarrow> ''unknown'' | Inr h \<Rightarrow> h)\<rparr>"

definition Enabled :: "logger \<Rightarrow> int \<Rightarrow> bool" where
  "Enabled l lvl \<longleftrightarrow> lg_level l \<le> lvl"

text \<open>
  \<^verbatim>\<open>Handle\<close> of the context handler adds the identifier at the end; the JSON handler prints
  instant, level and message, then the attributes of the logger, then those of the record.
\<close>

definition Handle :: "logger \<Rightarrow> string option \<Rightarrow> instant \<Rightarrow> int \<Rightarrow> string \<Rightarrow> attr list \<Rightarrow> json" where
  "Handle l ctx now lvl msg attrs =
     (let attrs' = attrs @ (case ctx of None \<Rightarrow> [] | Some reqID \<Rightarrow> [Attr ''request_id'' (JStr reqID)]) in
      JObj (map print_attr
        ([Attr ''time'' (JTime now), Attr ''level'' (JStr (level_name lvl)), Attr ''msg'' (JStr msg),
          Attr ''service'' (JStr (lg_service l)), Attr ''hostname'' (JStr (lg_hostname l))] @ attrs')))"

definition log_at :: "int \<Rightarrow> logger \<Rightarrow> string option \<Rightarrow> instant \<Rightarrow> string \<Rightarrow> attr list \<Rightarrow> json list" where
  "log_at lvl l ctx now msg attrs = (if Enabled l lvl then [Handle l ctx now lvl msg attrs] else [])"

definition log_plain :: "int \<Rightarrow> logger \<Rightarrow> string option \<Rightarrow> instant \<Rightarrow> string \<Rightarrow> string \<Rightarrow> log_arg list \<Rightarrow> json list" where
  "log_plain lvl l ctx now action msg args =
     log_at lvl l ctx now msg (map (\<lambda>(k, v). Attr k v) (args_to_attrs (args @ [Text ''action'', Text action])))"

definition Debug :: "logger \<Rightarrow> string option \<Rightarrow> instant \<Rightarrow> string \<Rightarrow> string \<Rightarrow> log_arg list \<Rightarrow> json list" where
  "Debug = log_plain (- 4)"

definition Info :: "logger \<Rightarrow> string option \<Rightarrow> instant \<Rightarrow> string \<Rightarrow> string \<Rightarrow> log_arg list \<Rightarrow> json list" where
  "Info = log_plain 0"

definition Warn :: "logger \<Rightarrow> string option \<Rightarrow> instant \<Rightarrow> string \<Rightarrow> string \<Rightarrow> log_arg list \<Rightarrow> json list" where
  "Warn = log_plain 4"

text \<open>The first frame of the stack that is neither of the runtime nor of the logger, as file and line.\<close>

definition frame_name :: "string \<Rightarrow> string" where
  "frame_name line =
     (let base = (if CHR ''/'' \<in> set (tl line) then rev (takeWhile (\<lambda>c. c \<noteq> CHR ''/'') (rev line)) else line);
          trimmed = TrimSpace (if starts_with [CHR 0x09] base then tl base else base);
          file = takeWhile (\<lambda>c. c \<noteq> CHR '':'') trimmed
      in if file \<noteq> [] \<and> file \<noteq> trimmed
         then file @ '':'' @ takeWhile (\<lambda>c. c \<noteq> CHR '' '') (drop (length file + 1) trimmed)
         else trimmed)"

fun first_frame :: "string list \<Rightarrow> string" where
  "first_frame [] = []"
| "first_frame (line # rest) =
     (if CHR 0x09 \<in> set line \<and> \<not> sublist ''runtime/'' line \<and> \<not> sublist ''pkg/logger'' line
      then frame_name line else first_frame rest)"

definition getStack :: "string \<Rightarrow> string" where
  "getStack stack = first_frame (split_on (CHR 0x0A) (take 4096 stack))"

text \<open>\<^const>\<open>None\<close>: the panic of reading the text of a nil error.\<close>

definition Error :: "logger \<Rightarrow> string option \<Rightarrow> instant \<Rightarrow> string \<Rightarrow> string \<Rightarrow> string \<Rightarrow> err option \<Rightarrow> log_arg list \<Rightarrow> json list option" where
  "Error l ctx now stack action msg e args =
     (case e of
        None \<Rightarrow> None
      | Some e \<Rightarrow> Some (log_at 8 l ctx now msg
          ([Attr ''action'' (JStr action),
            Group ''error'' [(''msg'', JStr (ErrorText e)), (''stack'', JStr (getStack stack))]]
           @ map (\<lambda>(k, v). Attr k v) (args_to_attrs args))))"

section \<open>What an entry holds\<close>

fun members :: "json \<Rightarrow> (string \<times> json) list" where
  "members (JObj ms) = ms"
| "members _ = []"

end
