(* ===== verification/Notification.thy ===== *)
theory Notification
  imports Startup Logging
begin

text \<open>
  The notification subscriber: \<^verbatim>\<open>internal/adapter/rabbit/notification-consumer.go\<close>,
  \<^verbatim>\<open>internal/services/notification\<close> and \<^verbatim>\<open>internal/app/services/notification-subscriber.go\<close>. The
  branches its select loop takes are a list of events. The name of the queue is chosen by
  the broker and is a parameter. Printing is the list of lines written.
\<close>

section \<open>Status updates as JSON\<close>

definition zero_time :: instant where
  "zero_time = - 62135596800 * nanos_per_second"

definition zero_StatusUpdate :: StatusUpdate where
  "zero_StatusUpdate = \<lparr>su_OrderNumber = [], su_OldStatus = [], su_NewStatus = [], su_ChangedBy = [],
     su_Timestamp = zero_time, su_Completion = zero_time, su_RequestID = []\<rparr>"

definition update_names :: "string list" where
  "update_names = [''order_number'', ''old_status'', ''new_status'', ''changed_by'', ''timestamp'',
     ''estimated_completion'', ''request_id'']"

definition update_setter :: "string \<Rightarrow> json \<Rightarrow> StatusUpdate decoding \<Rightarrow> StatusUpdate decoding" where
  "update_setter f =
     (if f = ''order_number'' then dec_string f (\<lambda>x s. s\<lparr>su_OrderNumber := x\<rparr>)
      else if f = ''old_status'' then dec_string f (\<lambda>x s. s\<lparr>su_OldStatus := x\<rparr>)
      else if f = ''new_status'' then dec_string f (\<lambda>x s. s\<lparr>su_NewStatus := x\<rparr>)
      else if f = ''changed_by'' then dec_string f (\<lambda>x s. s\<lparr>su_ChangedBy := x\<rparr>)
      else if f = ''timestamp'' then dec_time f (\<lambda>x s. s\<lparr>su_Timestamp := x\<rparr>)
      else if f = ''estimated_completion'' then dec_time f (\<lambda>x s. s\<lparr>su_Completion := x\<rparr>)
      else dec_string f (\<lambda>x s. s\<lparr>su_RequestID := x\<rparr>))"

definition decodeStatusUpdate :: "json option \<Rightarrow> StatusUpdate result" where
  "decodeStatusUpdate body =
     (case body of None \<Rightarrow> Inl syntax_error
      | Some v \<Rightarrow> decoded (dec_struct False update_names update_setter v (zero_StatusUpdate, None)))"

lemma decode_marshal_update: "decodeStatusUpdate (Some (marshal_status_update u)) = Inr u"
proof -
  have m: "set [''order_number'', ''old_status'', ''new_status'', ''changed_by'', ''timestamp'',
     ''estimated_completion'', ''request_id''] \<subseteq> set update_names" by (simp add: update_names_def)
  show ?thesis
    using m by (simp add: decodeStatusUpdate_def marshal_status_update_def update_setter_def put_def decoded_def
        zero_StatusUpdate_def)
qed

section \<open>notification-consumer.go\<close>

record NotificationSubscriber =
  ns_cfg :: RabbitMQ_cfg
  ns_queueName :: string
  ns_stop :: bool

definition NewNotificationSubscriber :: "RabbitMQ_cfg \<Rightarrow> NotificationSubscriber" where
  "NewNotificationSubscriber cfg = \<lparr>ns_cfg = cfg, ns_queueName = [], ns_stop = False\<rparr>"

definition declareAndBindQueue :: "string \<Rightarrow> NotificationSubscriber \<Rightarrow> world
    \<Rightarrow> err option \<times> NotificationSubscriber \<times> world" where
  "declareAndBindQueue name s w =
     (let exchange = rm_NotificationsExchange (ns_cfg s) in
      case channel_command (ExchangeDeclare exchange ''fanout'') w of
        (Some e, w1) \<Rightarrow> (Some (errorf_w ''failed to declare exchange: '' e), s, w1)
      | (None, w1) \<Rightarrow>
          (case channel_command (QueueDeclare [] []) w1 of
             (Some e, w2) \<Rightarrow> (Some (errorf_w ''failed to declare queue: '' e), s, w2)
           | (None, w2) \<Rightarrow>
               (case channel_command (QueueBind name [] exchange) w2 of
                  (Some e, w3) \<Rightarrow> (Some (errorf_w ''failed to bind queue: '' e), s, w3)
                | (None, w3) \<Rightarrow> (None, s\<lparr>ns_queueName := name\<rparr>, w3))))"

text \<open>
  Five attempts, the pause growing with the attempt; \<open>left\<close> attempts remain. \<open>stops\<close> tells for
  each failed attempt whether the stop signal came during the pause.
\<close>

fun subscriber_reconnect :: "nat \<Rightarrow> bool list \<Rightarrow> err option \<Rightarrow> world \<Rightarrow> err option \<times> world" where
  "subscriber_reconnect 0 stops lastErr w =
     (Some (case lastErr of None \<Rightarrow> Opaque ''failed to reconnect after 5 attempts: %!w(<nil>)''
            | Some e \<Rightarrow> errorf_w ''failed to reconnect after 5 attempts: '' e), w)"
| "subscriber_reconnect (Suc left) stops lastErr w =
     (case rabbit_New w of
        (None, w1) \<Rightarrow> (None, w1)
      | (Some e, w1) \<Rightarrow>
          (if stops \<noteq> [] \<and> hd stops then (Some (Opaque ''reconnect stopped externally''), w1)
           else subscriber_reconnect left (tl stops) (Some e)
                  (sleep (2 * nanos_per_second) (sleep (int (5 - left) * nanos_per_second) w1))))"

text \<open>
  A message; a receive on the closed message channel, which yields a zero delivery whose
  body does not decode and whose rejection fails; the health check found the connection
  closed; the stop signal.
\<close>

datatype note_event = NMsg nat "json option" | NZero | NConnClosed "bool list" | NStop

text \<open>
  The nested loops over the events. The result: whether \<^verbatim>\<open>startConsuming\<close> returned, which closes
  the channel of updates, the updates it sent, and the world.
\<close>

fun consume_updates :: "string \<Rightarrow> note_event list \<Rightarrow> string option \<Rightarrow> world
    \<Rightarrow> bool \<times> StatusUpdate list \<times> world" where
  "consume_updates queue [] ctx w = (False, [], w)"
| "consume_updates queue (NStop # evs) ctx w = (True, [], w)"
| "consume_updates queue (NZero # evs) ctx w = consume_updates queue evs ctx w"
| "consume_updates queue (NConnClosed stops # evs) ctx w =
     (case subscriber_reconnect 5 stops None w of
        (Some e, w1) \<Rightarrow> (True, [], w1)
      | (None, w1) \<Rightarrow>
          (case channel_command (amqp_cmd.Consume queue) w1 of
             (Some e, w2) \<Rightarrow> (True, [], w2)
           | (None, w2) \<Rightarrow> consume_updates queue evs ctx w2))"
| "consume_updates queue (NMsg tag body # evs) ctx w =
     (case decodeStatusUpdate body of
        Inl e \<Rightarrow> consume_updates queue evs ctx (settle (Nack tag False) w)
      | Inr update \<Rightarrow>
          (let ctx' = if su_RequestID update \<noteq> [] then Some (su_RequestID update) else ctx in
           case consume_updates queue evs ctx' (settle (Ack tag) w) of
             (ended, us, w') \<Rightarrow> (ended, update # us, w')))"

definition startConsuming :: "NotificationSubscriber \<Rightarrow> note_event list \<Rightarrow> string option \<Rightarrow> world
    \<Rightarrow> bool \<times> StatusUpdate list \<times> world" where
  "startConsuming s evs ctx w =
     (case channel_command (amqp_cmd.Consume (ns_queueName s)) w of
        (Some e, w1) \<Rightarrow> (True, [], w1)
      | (None, w1) \<Rightarrow> consume_updates (ns_queueName s) evs ctx w1)"

text \<open>The stop channel holds one signal.\<close>

definition subscriber_Close :: "NotificationSubscriber \<Rightarrow> world \<Rightarrow> err option \<times> NotificationSubscriber \<times> world" where
  "subscriber_Close s w =
     (let w1 = snd (channel_command (QueueDelete (ns_queueName s)) w) in
      case CloseWithContext (w1\<lparr>ctx_err := None\<rparr>) of (r, w2) \<Rightarrow> (r, s\<lparr>ns_stop := True\<rparr>, w2\<lparr>ctx_err := ctx_err w\<rparr>))"

section \<open>services/notification\<close>

definition ErrNotificationStopped :: err where
  "ErrNotificationStopped = Sentinel ''notification.ErrNotificationStopped'' ''notification subscriber stopped''"

definition notify_line :: "StatusUpdate \<Rightarrow> string" where
  "notify_line u = ''Notification for order '' @ su_OrderNumber u @ '': Status changed from '' @ quoted (su_OldStatus u)
     @ '' to '' @ quoted (su_NewStatus u) @ '' by '' @ su_ChangedBy u"

text \<open>
  The log entry that goes with the line; the printer is called with the context of \<^verbatim>\<open>Notify\<close>, so the
  identifier of the update is an argument of the entry.
\<close>

definition ActionNotificationReceived :: string where
  "ActionNotificationReceived = ''notification_received''"

definition notify_log :: "logger \<Rightarrow> string option \<Rightarrow> instant \<Rightarrow> StatusUpdate \<Rightarrow> json list" where
  "notify_log l ctx now u =
     Info l ctx now ActionNotificationReceived (''Received status update for order '' @ su_OrderNumber u)
       [Text ''order_timestamp'', Val (JTime (su_Timestamp u)),
        Text ''request_id'', Text (su_RequestID u),
        Text ''details'', Val (JObj [(''order_number'', JStr (su_OrderNumber u)), (''new_status'', JStr (su_NewStatus u))])]"

lemma notify_log_members:
  assumes "Enabled l 0"
  shows "\<exists>ms. notify_log l None now u = [JObj ms] \<and> distinct (map fst ms)
    \<and> map_of ms ''request_id'' = Some (JStr (su_RequestID u)) \<and> map_of ms ''order_timestamp'' = Some (JTime (su_Timestamp u))
    \<and> map_of ms ''action'' = Some (JStr ActionNotificationReceived)"
  using assms by (simp add: notify_log_def Info_def log_plain_def log_at_def Handle_def)

text \<open>
  The reports sent to the error channel, the lines printed, and the subscriber and world afterwards, when
  every update has come through the channel. An update is acknowledged before it is sent into
  the channel, which holds one; so while the service runs, up to three acknowledged updates, the one being sent,
  the one in the channel and the one being printed, may still lack their line, and a process that exits then
  never prints them.
\<close>

definition Notify :: "string \<Rightarrow> note_event list \<Rightarrow> NotificationSubscriber \<Rightarrow> world
    \<Rightarrow> err list \<times> string list \<times> NotificationSubscriber \<times> world" where
  "Notify name evs s w =
     (case declareAndBindQueue name s w of
        (Some e, s1, w1) \<Rightarrow> ([e], [], s1, w1)
      | (None, s1, w1) \<Rightarrow>
          (case startConsuming s1 evs None w1 of
             (False, us, w2) \<Rightarrow> ([], map notify_line us, s1, w2)
           | (True, us, w2) \<Rightarrow>
               (case subscriber_Close s1 w2 of
                  (_, s3, w3) \<Rightarrow> ([ErrNotificationStopped], map notify_line us, s3, w3))))"

section \<open>app/services/notification-subscriber.go\<close>

definition app_NewNotificationSubscriber :: "Config \<Rightarrow> world \<Rightarrow> NotificationSubscriber result \<times> world" where
  "app_NewNotificationSubscriber cfg w =
     (case rabbit_New w of
        (Some e, w1) \<Rightarrow> (Inl (errorf_v ''failed to connect rabbitmq: '' e), w1)
      | (None, w1) \<Rightarrow> (Inr (NewNotificationSubscriber (cf_RabbitMQ cfg)), w1))"

text \<open>
  The first report or a signal ends the service, which is then closed; without either it waits on. The
  updates still on their way when the signal comes, at most three, are \<open>lost\<close>; a report comes only
  after the last of them is printed.
\<close>

definition notification_Start :: "string \<Rightarrow> note_event list \<Rightarrow> signal \<Rightarrow> nat \<Rightarrow> NotificationSubscriber \<Rightarrow> world
    \<Rightarrow> (err option \<times> string list \<times> NotificationSubscriber \<times> world) service_outcome" where
  "notification_Start name evs sig lost s w =
     (case Notify name evs s w of
        (es, lines, s1, w1) \<Rightarrow>
          (case select_end sig es of
             Done r \<Rightarrow>
               (case subscriber_Close s1 w1 of
                  (_, s2, w2) \<Rightarrow> Done (r, if r = None then take (length lines - min lost 3) lines else lines, s2, w2))
           | Blocked \<Rightarrow> Blocked
           | Crash \<Rightarrow> Crash))"

section \<open>What is printed\<close>

fun messages :: "note_event list \<Rightarrow> (nat \<times> json option) list" where
  "messages [] = []"
| "messages (NMsg t b # evs) = (t, b) # messages evs"
| "messages (_ # evs) = messages evs"

definition update_of :: "nat \<times> json option \<Rightarrow> StatusUpdate list" where
  "update_of m = (case decodeStatusUpdate (snd m) of Inr u \<Rightarrow> [u] | Inl _ \<Rightarrow> [])"

definition settlement_of :: "nat \<times> json option \<Rightarrow> amqp_cmd" where
  "settlement_of m = (case decodeStatusUpdate (snd m) of Inr _ \<Rightarrow> Ack (fst m) | Inl _ \<Rightarrow> Nack (fst m) False)"

abbreviation settling :: "amqp_cmd list \<Rightarrow> amqp_cmd list" where
  "settling \<equiv> filter (\<lambda>c. settled_tag c \<noteq> [])"

lemma subscriber_reconnect_amqp: "subscriber_reconnect n stops e w = (r, w') \<Longrightarrow> amqp w' = amqp w"
proof (induction n stops e w rule: subscriber_reconnect.induct)
  case (2 left stops lastErr w)
  obtain r1 w1 where 1: "rabbit_New w = (r1, w1)" by fastforce
  with rabbit_New_net [OF 1] 2 show ?case by (cases r1) (auto simp: sleep_def split: if_splits)
qed simp

lemma channel_command_amqp: "channel_command c w = (r, w') \<Longrightarrow> amqp w' = amqp w \<or> amqp w' = amqp w @ [c]"
  by (auto simp: channel_command_def split: if_splits dest: channel_send_eqD(5))

lemma settle_settling:
  "settled_tag c \<noteq> [] \<Longrightarrow> \<exists>ms. amqp (settle c w) = amqp w @ ms \<and> subseq (settling ms) [c]"
  using settle_eqD(1) [of c w] by (auto intro: exI [of _ "[]"] exI [of _ "[c]"])

text \<open>What a run has handled: a prefix of the messages, all of them while it has not ended.\<close>

definition note_run :: "note_event list \<Rightarrow> bool \<Rightarrow> StatusUpdate list \<Rightarrow> world \<Rightarrow> world \<Rightarrow> bool" where
  "note_run evs ended us w w' \<longleftrightarrow>
     (\<exists>hs ms. prefix hs (messages evs) \<and> (\<not> ended \<longrightarrow> hs = messages evs) \<and> us = concat (map update_of hs)
        \<and> amqp w' = amqp w @ ms \<and> subseq (settling ms) (map settlement_of hs))"

lemma note_run_end: "amqp w' = amqp w @ ms \<Longrightarrow> settling ms = [] \<Longrightarrow> note_run evs True [] w w'"
  unfolding note_run_def by (intro exI [of _ "[]"] exI [of _ ms]) simp

lemma note_run_silent:
  "note_run evs ended us w1 w' \<Longrightarrow> amqp w1 = amqp w @ ms \<Longrightarrow> settling ms = [] \<Longrightarrow> messages evs' = messages evs \<Longrightarrow>
     note_run evs' ended us w w'"
  unfolding note_run_def by auto

lemma note_run_msg:
  assumes "note_run evs ended us (settle (settlement_of m) w) w'"
  shows "note_run (NMsg (fst m) (snd m) # evs) ended (update_of m @ us) w w'"
proof -
  have "settled_tag (settlement_of m) \<noteq> []" by (simp add: settlement_of_def split: sum.split)
  then obtain ms0 where 0: "amqp (settle (settlement_of m) w) = amqp w @ ms0" "subseq (settling ms0) [settlement_of m]"
    using settle_settling by blast
  obtain hs ms where 1: "prefix hs (messages evs)" "\<not> ended \<longrightarrow> hs = messages evs" "us = concat (map update_of hs)"
    "amqp w' = (amqp w @ ms0) @ ms" "subseq (settling ms) (map settlement_of hs)"
    using assms 0(1) unfolding note_run_def by auto
  have "subseq (settling ms0 @ settling ms) ([settlement_of m] @ map settlement_of hs)"
    by (rule list_emb_append_mono [OF 0(2) 1(5)])
  then show ?thesis
    using 1(1-4) unfolding note_run_def by (intro exI [of _ "m # hs"] exI [of _ "ms0 @ ms"]) auto
qed

lemma consume_updates_run: "consume_updates q evs ctx w = (ended, us, w') \<Longrightarrow> note_run evs ended us w w'"
proof (induction q evs ctx w arbitrary: ended us w' rule: consume_updates.induct)
  case (1 queue ctx w)
  then show ?case by (auto simp: note_run_def)
next
  case (2 queue evs ctx w)
  then show ?case by (auto intro: note_run_end [of _ _ "[]"])
next
  case (3 queue evs ctx w)
  then show ?case by (auto intro: note_run_silent [of evs _ _ w _ w "[]"])
next
  case (4 queue stops evs ctx w)
  obtain r1 w1 where 1: "subscriber_reconnect 5 stops None w = (r1, w1)" by fastforce
  obtain r2 w2 where 2: "channel_command (amqp_cmd.Consume queue) w1 = (r2, w2)" by fastforce
  obtain ms where ms: "amqp w2 = amqp w @ ms" "settling ms = []"
    using subscriber_reconnect_amqp [OF 1] channel_command_amqp [OF 2] by auto
  show ?case
  proof (cases "r1 = None \<and> r2 = None")
    case True
    then have "note_run evs ended us w2 w'" using 4 1 2 by simp
    then show ?thesis by (rule note_run_silent [OF _ ms]) simp
  next
    case False
    then show ?thesis
      using 4(2) 1 2 ms subscriber_reconnect_amqp [OF 1] note_run_end [of w1 w "[]"] note_run_end [OF ms]
      by (cases r1; cases r2) auto
  qed
next
  case (5 queue tag body evs ctx w)
  show ?case
  proof (cases "decodeStatusUpdate body")
    case (Inl e)
    then have "note_run evs ended us (settle (settlement_of (tag, body)) w) w'" using 5 by (simp add: settlement_of_def)
    from note_run_msg [OF this] Inl show ?thesis by (simp add: update_of_def)
  next
    case (Inr u)
    let ?ctx = "if su_RequestID u \<noteq> [] then Some (su_RequestID u) else ctx"
    obtain b us1 w1 where c: "consume_updates queue evs ?ctx (settle (Ack tag) w) = (b, us1, w1)" using prod_cases3 by blast
    then have e: "ended = b" "us = u # us1" "w' = w1" using 5(3) Inr by (simp_all add: Let_def)
    have "note_run evs b us1 (settle (settlement_of (tag, body)) w) w1" using 5(2) Inr c by (simp add: settlement_of_def)
    from note_run_msg [OF this] Inr e show ?thesis by (simp add: update_of_def)
  qed
qed

lemma declare_silent:
  assumes "declareAndBindQueue name s w = (r, s1, w1)"
  shows "\<exists>ms. amqp w1 = amqp w @ ms \<and> settling ms = []"
proof -
  let ?ex = "rm_NotificationsExchange (ns_cfg s)"
  obtain r1 u1 where 1: "channel_command (ExchangeDeclare ?ex ''fanout'') w = (r1, u1)" by fastforce
  obtain r2 u2 where 2: "channel_command (QueueDeclare [] []) u1 = (r2, u2)" by fastforce
  obtain r3 u3 where 3: "channel_command (QueueBind name [] ?ex) u2 = (r3, u3)" by fastforce
  have "w1 \<in> {u1, u2, u3}" using assms 1 2 3 by (cases r1; cases r2; cases r3) (auto simp: declareAndBindQueue_def Let_def)
  then show ?thesis
    using channel_command_amqp [OF 1] channel_command_amqp [OF 2] channel_command_amqp [OF 3] by auto
qed

lemma CloseWithContext_amqp: "CloseWithContext w = (r, w') \<Longrightarrow> amqp w' = amqp w"
proof -
  assume c: "CloseWithContext w = (r, w')"
  have a: "amqp (snd (await_close u)) = amqp u" for u
    by (auto simp: await_close_def split: prod.splits fault.splits dest: raw_call_eqD)
  obtain b w1 where 1: "IsConnectionClosed w = (b, w1)" by fastforce
  have d: "amqp w1 = amqp w" using IsConnectionClosed_net [OF 1] by simp
  obtain r2 w2 where 2: "await_close (snd (await_close w1)) = (r2, w2)" by fastforce
  have "amqp w2 = amqp w" using a [of "snd (await_close w1)"] a [of w1] 2 d by simp
  with c 1 2 d show ?thesis by (cases b; cases r2) (auto simp: CloseWithContext_def)
qed

lemma subscriber_Close_silent:
  assumes "subscriber_Close s w = (r, s', w')"
  shows "\<exists>ms. amqp w' = amqp w @ ms \<and> settling ms = []"
proof -
  obtain r1 w1 where 1: "channel_command (QueueDelete (ns_queueName s)) w = (r1, w1)" by fastforce
  obtain r2 w2 where 2: "CloseWithContext (w1\<lparr>ctx_err := None\<rparr>) = (r2, w2)" by fastforce
  have "amqp w' = amqp w1" using assms 1 2 CloseWithContext_amqp [OF 2] by (auto simp: subscriber_Close_def)
  then show ?thesis using channel_command_amqp [OF 1] by auto
qed

lemma startConsuming_run: "startConsuming s evs ctx w = (ended, us, w') \<Longrightarrow> note_run evs ended us w w'"
proof -
  assume st: "startConsuming s evs ctx w = (ended, us, w')"
  obtain r1 w1 where 1: "channel_command (amqp_cmd.Consume (ns_queueName s)) w = (r1, w1)" by fastforce
  obtain ms where ms: "amqp w1 = amqp w @ ms" "settling ms = []" using channel_command_amqp [OF 1] by auto
  show ?thesis
  proof (cases r1)
    case None
    then have "note_run evs ended us w1 w'" using st 1 consume_updates_run by (simp add: startConsuming_def)
    then show ?thesis by (rule note_run_silent [OF _ ms]) simp
  next
    case (Some e)
    then show ?thesis using st 1 note_run_end [OF ms] by (simp add: startConsuming_def)
  qed
qed

text \<open>
  C25. Every notification is printed once and in order: in any run of the subscriber, once its printer
  has caught up, the lines printed are those of the decodable messages among the first messages delivered, in
  the order of delivery, and of all of them as long as the run has not ended; a message
  is acknowledged at most once and only if it was printed, an undecodable one is at most
  rejected without being requeued.
\<close>

theorem notifications_printed:
  assumes "Notify name evs s w = (es, lines, s', w')"
  shows "\<exists>hs ms. prefix hs (messages evs) \<and> (es = [] \<longrightarrow> hs = messages evs)
    \<and> lines = map notify_line (concat (map update_of hs))
    \<and> amqp w' = amqp w @ ms \<and> subseq (settling ms) (map settlement_of hs)"
proof -
  obtain r s1 w1 where 1: "declareAndBindQueue name s w = (r, s1, w1)" using prod_cases3 by blast
  obtain ms1 where ms1: "amqp w1 = amqp w @ ms1" "settling ms1 = []" using declare_silent [OF 1] by blast
  show ?thesis
  proof (cases r)
    case (Some e)
    then have "es \<noteq> []" "lines = []" "w' = w1" using assms 1 by (auto simp: Notify_def)
    with ms1 show ?thesis by (intro exI [of _ "[]"] exI [of _ ms1]) simp
  next
    case None
    obtain ended us w2 where 2: "startConsuming s1 evs None w1 = (ended, us, w2)" using prod_cases3 by blast
    obtain hs ms2 where hs: "prefix hs (messages evs)" "\<not> ended \<longrightarrow> hs = messages evs" "us = concat (map update_of hs)"
      "amqp w2 = amqp w1 @ ms2" "subseq (settling ms2) (map settlement_of hs)"
      using startConsuming_run [OF 2] unfolding note_run_def by blast
    obtain r3 s3 w3 where 3: "subscriber_Close s1 w2 = (r3, s3, w3)" using prod_cases3 by blast
    obtain ms3 where ms3: "amqp w3 = amqp w2 @ ms3" "settling ms3 = []" using subscriber_Close_silent [OF 3] by blast
    show ?thesis
      using assms 1 2 3 None hs ms1 ms3
      by (cases ended) (auto simp: Notify_def intro!: exI [of _ hs] exI [of _ "ms1 @ ms2 @ ms3"] exI [of _ "ms1 @ ms2"])
  qed
qed

text \<open>
  A status change reaches the console as the kitchen meant it: the body of a status
  message decodes to the very update that was published, so the subscriber acknowledges it
  and prints its line.
\<close>

theorem status_message_roundtrip:
  "decodeStatusUpdate (Some (p_Body (status_publishing u now))) = Inr u
   \<and> settlement_of (tag, Some (p_Body (status_publishing u now))) = Ack tag
   \<and> map notify_line (update_of (tag, Some (p_Body (status_publishing u now)))) = [notify_line u]"
  by (simp add: status_publishing_def decode_marshal_update settlement_of_def update_of_def)

definition example_update :: StatusUpdate where
  "example_update = \<lparr>su_OrderNumber = ''ORD_20250101_001'', su_OldStatus = StatusOrderReceived, su_NewStatus = StatusOrderCooking,
     su_ChangedBy = ''chef'', su_Timestamp = 0, su_Completion = 8 * nanos_per_second, su_RequestID = []\<rparr>"

theorem notifications_printed_witness:
  "\<exists>es s' w'. Notify ''q'' [NMsg 1 (Some (marshal_status_update example_update)), NMsg 2 None]
       \<lparr>ns_cfg = example_rabbit, ns_queueName = [], ns_stop = False\<rparr> (start_world []) = (es, [notify_line example_update], s', w')"
proof -
  let ?evs = "[NMsg 1 (Some (marshal_status_update example_update)), NMsg 2 None]"
  let ?s = "\<lparr>ns_cfg = example_rabbit, ns_queueName = [], ns_stop = False\<rparr>"
  obtain lines s' w' where n: "Notify ''q'' ?evs ?s (start_world []) = ([], lines, s', w')"
    by (simp add: Notify_def declareAndBindQueue_def channel_command_def channel_send_def raw_call_def start_world_def
        startConsuming_def decode_marshal_update decodeStatusUpdate_def [of None] example_update_def settle_def Let_def)
  then have "lines = map notify_line (concat (map update_of (messages ?evs)))" using notifications_printed [OF n] by blast
  then have "lines = [notify_line example_update]" by (simp add: update_of_def decode_marshal_update decodeStatusUpdate_def [of None])
  with n show ?thesis by blast
qed

section \<open>A live subscriber prints every message\<close>

lemma consume_messages:
  "consume_updates q (map (\<lambda>x. NMsg (fst x) (snd x)) ms) ctx w = (ended, us, w') \<Longrightarrow> \<not> ended \<and> us = concat (map update_of ms)"
proof (induction ms arbitrary: ctx w us)
  case (Cons m ms)
  obtain t b where m: "m = (t, b)" by fastforce
  show ?case
  proof (cases "decodeStatusUpdate b")
    case (Inl e)
    with m have u: "update_of m = []" by (simp add: update_of_def)
    from Cons.prems m Inl have "consume_updates q (map (\<lambda>x. NMsg (fst x) (snd x)) ms) ctx (settle (Nack t False) w) = (ended, us, w')"
      by simp
    from Cons.IH [OF this] u show ?thesis by simp
  next
    case (Inr u)
    with Cons.prems m obtain us' where "us = u # us'"
      "consume_updates q (map (\<lambda>x. NMsg (fst x) (snd x)) ms) (if su_RequestID u \<noteq> [] then Some (su_RequestID u) else ctx)
         (settle (Ack t) w) = (ended, us', w')"
      by (auto simp: Let_def split: prod.splits)
    moreover have "update_of m = [u]" using Inr m by (simp add: update_of_def)
    ultimately show ?thesis using Cons.IH by fastforce
  qed
qed simp

lemma quiet_command:
  "quiet w \<Longrightarrow> \<not> conn_closed w \<Longrightarrow> \<exists>w'. channel_command c w = (None, w') \<and> quiet w' \<and> \<not> conn_closed w'"
  using quiet_channel_send [of w c] channel_send_eqD(2) [of c w] by (auto simp: channel_command_def)

lemma Notify_live:
  assumes "quiet w" "\<not> conn_closed w"
  shows "\<exists>s' w'. Notify name (map (\<lambda>x. NMsg (fst x) (snd x)) ms) s w = ([], map notify_line (concat (map update_of ms)), s', w')"
proof -
  let ?ex = "rm_NotificationsExchange (ns_cfg s)"
  obtain w1 where 1: "channel_command (ExchangeDeclare ?ex ''fanout'') w = (None, w1)" "quiet w1" "\<not> conn_closed w1"
    using quiet_command [OF assms] by blast
  obtain w2 where 2: "channel_command (QueueDeclare [] []) w1 = (None, w2)" "quiet w2" "\<not> conn_closed w2"
    using quiet_command [OF 1(2,3)] by blast
  obtain w3 where 3: "channel_command (QueueBind name [] ?ex) w2 = (None, w3)" "quiet w3" "\<not> conn_closed w3"
    using quiet_command [OF 2(2,3)] by blast
  obtain w4 where 4: "channel_command (amqp_cmd.Consume name) w3 = (None, w4)" using quiet_command [OF 3(2,3)] by blast
  obtain ended us w5 where 5: "consume_updates name (map (\<lambda>x. NMsg (fst x) (snd x)) ms) None w4 = (ended, us, w5)"
    using prod_cases3 by blast
  show ?thesis
    using 1(1) 2(1) 3(1) 4 5 consume_messages [OF 5] by (simp add: Notify_def declareAndBindQueue_def startConsuming_def Let_def)
qed

end
