(* ===== verification/Config_Print.thy ===== *)
theory Config_Print
  imports Config "HOL-Library.Sublist"
begin

text \<open>
  \<^verbatim>\<open>internal/config/print.go\<close>: the configuration printed at startup. A value is given as
  reflection shows it: a structure with its exported fields, a nil or other pointer, or any
  other value with its text under the verb \<^verbatim>\<open>%v\<close>. The output is a list of lines.
\<close>

datatype printed = PLeaf string | PStruct "(string \<times> printed) list" | PNil | PPtr printed

definition indent_by :: "nat \<Rightarrow> string" where
  "indent_by depth = replicate (2 * depth) (CHR '' '')"

definition lower_char :: "char \<Rightarrow> char" where
  "lower_char c = (if 65 \<le> (of_char c :: nat) \<and> of_char c \<le> (90 :: nat) then char_of (of_char c + 32 :: nat) else c)"

definition sensitive :: "string \<Rightarrow> bool" where
  "sensitive name \<longleftrightarrow> (let nameLower = map lower_char name in
     sublist ''password'' nameLower \<or> sublist ''secret'' nameLower \<or> sublist ''key'' nameLower)"

text \<open>
  A pointer that is not nil is followed once. A field that is a pointer to something else than a
  structure is printed by its text, so it is a \<open>PLeaf\<close>.
\<close>

fun print_reflected :: "printed \<Rightarrow> string \<Rightarrow> nat \<Rightarrow> string list" where
  "print_reflected PNil fieldName depth = [indent_by depth @ fieldName @ '': <nil>'']"
| "print_reflected (PLeaf t) fieldName depth =
     [indent_by depth @ (if fieldName = [] then t else fieldName @ '': '' @ t)]"
| "print_reflected (PPtr v) fieldName depth = print_reflected v fieldName depth"
| "print_reflected (PStruct fs) fieldName depth =
     (if fieldName = [] then [] else [indent_by depth @ fieldName @ '':''])
     @ concat (map (\<lambda>(name, v).
         if sensitive name then [indent_by (depth + 1) @ name @ '': ******'']
         else case v of
                PLeaf t \<Rightarrow> [indent_by (depth + 1) @ name @ '': '' @ t]
              | PNil \<Rightarrow> [indent_by (depth + 1) @ name @ '': <nil>'']
              | PStruct gs \<Rightarrow> print_reflected (PStruct gs) name (depth + 1)
              | PPtr u \<Rightarrow> print_reflected u name (depth + 1)) fs)"

definition PrintConfig :: "printed \<Rightarrow> string list" where
  "PrintConfig cfg = [''Configuration:'', ''--------------''] @ print_reflected cfg [] 0"

text \<open>The configuration as reflection shows it; \<open>text\<close> prints a duration.\<close>

definition reflect_Config :: "(duration \<Rightarrow> string) \<Rightarrow> Config \<Rightarrow> printed" where
  "reflect_Config text c = PPtr (PStruct
     [(''Mode'', PLeaf (cf_Mode c)),
      (''Services'', PStruct
         [(''Order'', PStruct [(''MaxConcurrent'', PLeaf (fmt_d (oc_MaxConcurrent (cf_Order c)))),
                               (''SemWait'', PLeaf (text (oc_SemWait (cf_Order c))))]),
          (''Kitchen'', PStruct
             [(''WorkerName'', PLeaf (kc_WorkerName (cf_Kitchen c))), (''OrderTypes'', PLeaf (kc_OrderTypes (cf_Kitchen c))),
              (''Prefetch'', PLeaf (fmt_d (kc_Prefetch (cf_Kitchen c)))),
              (''HeartbeatInterval'', PLeaf (fmt_d (kc_HeartbeatInterval (cf_Kitchen c)))),
              (''ReconnectAttempt'', PLeaf (fmt_d (kc_ReconnectAttempt (cf_Kitchen c)))),
              (''ReconnectDelay'', PLeaf (text (kc_ReconnectDelay (cf_Kitchen c))))]),
          (''Tracking'', PStruct [(''HeartbeatInterval'', PLeaf (fmt_d (cf_TrackingHeartbeat c)))])]),
      (''HTTPServer'', PStruct [(''Port'', PLeaf (fmt_d (cf_Port c)))]),
      (''Postgres'', PStruct
         [(''Host'', PLeaf (pc_Host (cf_Postgres c))), (''Port'', PLeaf (pc_Port (cf_Postgres c))),
          (''User'', PLeaf (pc_User (cf_Postgres c))), (''Password'', PLeaf (pc_Password (cf_Postgres c))),
          (''DBName'', PLeaf (pc_DBName (cf_Postgres c))),
          (''MaxOpenConns'', PLeaf (fmt_d (pc_MaxOpenConns (cf_Postgres c)))),
          (''MaxIdleTime'', PLeaf (pc_MaxIdleTime (cf_Postgres c)))]),
      (''RabbitMQ'', PStruct
         [(''Conn'', PStruct
             [(''Host'', PLeaf (rc_Host (rm_Conn (cf_RabbitMQ c)))), (''Port'', PLeaf (rc_Port (rm_Conn (cf_RabbitMQ c)))),
              (''User'', PLeaf (rc_User (rm_Conn (cf_RabbitMQ c)))),
              (''Password'', PLeaf (rc_Password (rm_Conn (cf_RabbitMQ c))))]),
          (''OrderExchange'', PLeaf (rm_OrderExchange (cf_RabbitMQ c))),
          (''NotificationsExchange'', PLeaf (rm_NotificationsExchange (cf_RabbitMQ c))),
          (''ReconnectAttempt'', PLeaf (fmt_d (rm_ReconnectAttempt (cf_RabbitMQ c)))),
          (''ReconnectDelay'', PLeaf (text (rm_ReconnectDelay (cf_RabbitMQ c))))]),
      (''LogLevel'', PLeaf (cf_LogLevel c))])"

section \<open>Nothing secret is printed\<close>

text \<open>What is left of a value without the contents of its sensitive fields.\<close>

fun censored :: "printed \<Rightarrow> printed" where
  "censored (PStruct fs) = PStruct (map (\<lambda>(n, v). (n, if sensitive n then PNil else censored v)) fs)"
| "censored (PPtr v) = PPtr (censored v)"
| "censored v = v"

lemma print_censored: "print_reflected (censored v) name depth = print_reflected v name depth"
proof (induction v name depth rule: print_reflected.induct)
  case (4 fs fieldName depth)
  have "(case (if sensitive n then PNil else censored v) of
          PLeaf t \<Rightarrow> [indent_by (depth + 1) @ n @ '': '' @ t]
        | PNil \<Rightarrow> [indent_by (depth + 1) @ n @ '': <nil>'']
        | PStruct gs \<Rightarrow> print_reflected (PStruct gs) n (depth + 1)
        | PPtr u \<Rightarrow> print_reflected u n (depth + 1))
      = (case v of
          PLeaf t \<Rightarrow> [indent_by (depth + 1) @ n @ '': '' @ t]
        | PNil \<Rightarrow> [indent_by (depth + 1) @ n @ '': <nil>'']
        | PStruct gs \<Rightarrow> print_reflected (PStruct gs) n (depth + 1)
        | PPtr u \<Rightarrow> print_reflected u n (depth + 1))"
    if "(n, v) \<in> set fs" "\<not> sensitive n" for n v
    using that 4 [of "(n, v)" n v] by (cases v) auto
  then show ?case by (auto simp: comp_def intro!: arg_cong [where f = concat])
qed simp_all

text \<open>
  C34. No password is printed: the lines printed for a configuration do not depend on
  the passwords of the database and of the broker, nor on any other field whose name
  contains password, secret or key in any case.
\<close>

theorem PrintConfig_hides_secrets:
  "PrintConfig (reflect_Config text cfg) =
     PrintConfig (reflect_Config text
       (cfg\<lparr>cf_Postgres := (cf_Postgres cfg)\<lparr>pc_Password := []\<rparr>,
            cf_RabbitMQ := (cf_RabbitMQ cfg)\<lparr>rm_Conn := (rm_Conn (cf_RabbitMQ cfg))\<lparr>rc_Password := []\<rparr>\<rparr>\<rparr>))
   \<and> PrintConfig v = PrintConfig (censored v)"
proof -
  have "sensitive ''Password''" by code_simp
  then show ?thesis using print_censored [of v "[]" 0] by (simp add: PrintConfig_def reflect_Config_def)
qed

end
