(* ===== verification/Config_File.thy ===== *)
theory Config_File
  imports Configparser
begin

text \<open>
  What loading the configuration file gives: a tree of sections, printed with two blanks per
  level, is read back as the variables its keys name, whatever its depth; the program's
  defaults stand where the file and the environment are silent.
\<close>

section \<open>Trimming printable text\<close>

definition printable :: "char \<Rightarrow> bool" where
  "printable c \<longleftrightarrow> 33 \<le> (of_char c :: nat) \<and> of_char c \<le> (126 :: nat)"

lemma space_encoding_ends:
  assumes "e \<in> set space_encodings"
  shows "\<not> printable (hd e)" "\<not> printable (last e)" "e \<noteq> []"
proof -
  have "list_all (\<lambda>e. \<not> printable (hd e) \<and> \<not> printable (last e) \<and> e \<noteq> []) space_encodings" by code_simp
  with assms show "\<not> printable (hd e)" "\<not> printable (last e)" "e \<noteq> []" by (auto simp: list_all_iff)
qed

lemma starts_with_hd: "starts_with p s \<Longrightarrow> p \<noteq> [] \<Longrightarrow> s \<noteq> [] \<and> hd s = hd p"
  by (cases p; cases s) (auto simp: starts_with_def)

lemma trim_left_printable:
  assumes "s = [] \<or> printable (hd s)" "\<And>e. e \<in> set space_encodings \<Longrightarrow> f e \<noteq> [] \<and> \<not> printable (hd (f e))"
  shows "trim_left_by f s = s"
proof -
  have "find (\<lambda>e. starts_with (f e) s) space_encodings = None"
    using assms starts_with_hd by (auto simp: find_None_iff)
  then show ?thesis by (subst trim_left_by.simps) simp
qed

lemma find_unique:
  assumes "a \<in> set xs" "P a" "\<And>x. x \<in> set xs \<Longrightarrow> P x \<Longrightarrow> x = a"
  shows "find P xs = Some a"
proof (cases "find P xs")
  case None
  with assms(1,2) show ?thesis by (auto simp: find_None_iff)
next
  case (Some x)
  then have "x \<in> set xs" "P x" by (auto simp: find_Some_iff)
  with assms(3) Some show ?thesis by blast
qed

lemma find_blank: "find (\<lambda>e. starts_with e (CHR '' '' # s)) space_encodings = Some '' ''"
proof (rule find_unique)
  have b: "char_of (32 :: nat) = CHR '' ''" by code_simp
  then show "'' '' \<in> set space_encodings" by (simp add: space_encodings_def bytes_def)
  show "starts_with '' '' (CHR '' '' # s)" by (simp add: starts_with_def)
  fix e
  assume e: "e \<in> set space_encodings" "starts_with e (CHR '' '' # s)"
  have "list_all (\<lambda>e. (of_char (hd e) :: nat) = 32 \<longrightarrow> length e = 1) space_encodings" by code_simp
  moreover have "hd e = CHR '' ''" "e \<noteq> []" using starts_with_hd [OF e(2)] space_encoding_ends(3) [OF e(1)] by auto
  ultimately show "e = '' ''" using e(1) by (cases e) (auto simp: list_all_iff)
qed

lemma trim_left_blanks: "trim_left_by id (replicate n (CHR '' '') @ s) = trim_left_by id s"
proof (induction n)
  case (Suc n)
  have "trim_left_by id (CHR '' '' # t) = trim_left_by id t" for t
    using find_blank [of t] by (subst trim_left_by.simps) (simp add: id_def)
  with Suc show ?case by (simp only: replicate_Suc append_Cons)
qed simp

lemma TrimSpace_blanks:
  assumes "s \<noteq> []" "printable (hd s)" "printable (last s)"
  shows "TrimSpace (replicate n (CHR '' '') @ s) = s"
proof -
  have "trim_left_by id s = s" using assms space_encoding_ends by (intro trim_left_printable) auto
  moreover have "trim_left_by rev (rev s) = rev s"
    using assms space_encoding_ends by (intro trim_left_printable) (auto simp: hd_rev)
  ultimately show ?thesis by (simp add: TrimSpace_def trim_left_blanks)
qed

lemma TrimSpace_printable: "s \<noteq> [] \<Longrightarrow> printable (hd s) \<Longrightarrow> printable (last s) \<Longrightarrow> TrimSpace s = s"
  using TrimSpace_blanks [of s 0] by simp

section \<open>Trees\<close>

datatype yaml = YKey string string | YSection string "yaml list"

definition name_text :: "string \<Rightarrow> bool" where
  "name_text s \<longleftrightarrow> s \<noteq> [] \<and> list_all (\<lambda>c. is_digit c \<or> c = CHR ''_'' \<or> ascii_upper c \<noteq> c
     \<or> 65 \<le> (of_char c :: nat) \<and> of_char c \<le> (90 :: nat)) s"

definition value_text :: "string \<Rightarrow> bool" where
  "value_text v \<longleftrightarrow> v \<noteq> [] \<and> list_all printable v \<and> last v \<noteq> CHR '':''
     \<and> {hd v, last v} \<inter> {CHR 0x22, CHR 0x27} = {}"

fun yaml_ok :: "yaml \<Rightarrow> bool" where
  "yaml_ok (YKey k v) = (name_text k \<and> value_text v)"
| "yaml_ok (YSection s ts) = (name_text s \<and> list_all yaml_ok ts)"

fun yaml_print :: "nat \<Rightarrow> yaml \<Rightarrow> string list" where
  "yaml_print d (YKey k v) = [replicate (2 * d) (CHR '' '') @ k @ '': '' @ v]"
| "yaml_print d (YSection s ts) =
     (replicate (2 * d) (CHR '' '') @ s @ '':'') # concat (map (yaml_print (Suc d)) ts)"

fun yaml_vars :: "string list \<Rightarrow> yaml \<Rightarrow> (string \<times> string) list" where
  "yaml_vars path (YKey k v) = [(ToUpper (join_with ''_'' (rev path @ [k])), v)]"
| "yaml_vars path (YSection s ts) = concat (map (yaml_vars (s # path)) ts)"

definition set_vars :: "(string \<times> string) list \<Rightarrow> environ \<Rightarrow> environ" where
  "set_vars kvs env = foldl (\<lambda>e (k, v). e(k \<mapsto> v)) env kvs"

lemma name_char_printable:
  assumes "is_digit c \<or> c = CHR ''_'' \<or> ascii_upper c \<noteq> c \<or> 65 \<le> (of_char c :: nat) \<and> of_char c \<le> (90 :: nat)"
  shows "printable c" "c \<noteq> CHR '':''" "c \<noteq> CHR ''#''"
    "ascii_upper c \<noteq> CHR ''=''" "ascii_upper c \<noteq> CHR 0x00" "c \<noteq> CHR '' ''"
proof -
  define n where "n = (of_char c :: nat)"
  have c: "c = char_of n" by (simp add: n_def)
  have n: "48 \<le> n \<and> n \<le> 57 \<or> n = 95 \<or> 97 \<le> n \<and> n \<le> 122 \<or> 65 \<le> n \<and> n \<le> 90"
    using assms by (auto simp: is_digit_def ascii_upper_def n_def split: if_splits)
  then show "printable c" "c \<noteq> CHR '':''" "c \<noteq> CHR ''#''" "c \<noteq> CHR '' ''" by (auto simp: printable_def n_def)
  have u: "(of_char (ascii_upper c) :: nat) = (if 97 \<le> n \<and> n \<le> 122 then n - 32 else n)"
    using n by (auto simp: ascii_upper_def n_def)
  have "(of_char (ascii_upper c) :: nat) \<noteq> of_char (CHR ''='')" "(of_char (ascii_upper c) :: nat) \<noteq> of_char (CHR 0x00)"
    using u n by auto
  then show "ascii_upper c \<noteq> CHR ''=''" "ascii_upper c \<noteq> CHR 0x00" by auto
qed

section \<open>Lines\<close>

lemma name_textD:
  assumes "name_text s"
  shows "s \<noteq> []" "printable (hd s)" "printable (last s)" "CHR '':'' \<notin> set s" "hd s \<noteq> CHR ''#''" "CHR '' '' \<notin> set s"
    "CHR ''='' \<notin> set (ToUpper s)" "CHR 0x00 \<notin> set (ToUpper s)" "TrimSpace s = s"
proof -
  show "s \<noteq> []" using assms by (simp add: name_text_def)
  then have m: "hd s \<in> set s" "last s \<in> set s" by simp_all
  have c: "printable c \<and> c \<noteq> CHR '':'' \<and> c \<noteq> CHR ''#'' \<and> c \<noteq> CHR '' '' \<and> ascii_upper c \<noteq> CHR ''='' \<and> ascii_upper c \<noteq> CHR 0x00"
    if m: "c \<in> set s" for c
  proof -
    have "is_digit c \<or> c = CHR ''_'' \<or> ascii_upper c \<noteq> c \<or> 65 \<le> (of_char c :: nat) \<and> of_char c \<le> (90 :: nat)"
      using assms m by (simp add: name_text_def list_all_iff)
    from name_char_printable [OF this] show ?thesis by simp
  qed
  from c [OF m(1)] c [OF m(2)] show p: "printable (hd s)" "printable (last s)" "hd s \<noteq> CHR ''#''" by simp_all
  show "CHR '':'' \<notin> set s" "CHR '' '' \<notin> set s" using c by metis+
  show "CHR ''='' \<notin> set (ToUpper s)" "CHR 0x00 \<notin> set (ToUpper s)"
    using c unfolding ToUpper_def set_map by (metis imageE)+
  show "TrimSpace s = s" using \<open>s \<noteq> []\<close> p(1,2) by (rule TrimSpace_printable)
qed

lemma pop_prefixes_down:
  "length st = d \<Longrightarrow> pop_prefixes (2 * int d) (2 * int (length ex + d)) (ex @ st) = st"
proof (induction ex)
  case Nil
  then show ?case by (cases st) simp_all
next
  case (Cons e ex)
  have "2 * (1 + (int (length ex) + int d)) - 2 = 2 * int (length ex + d)" by simp
  with Cons show ?case by (simp add: algebra_simps)
qed

lemma TrimRight_printable: "s \<noteq> [] \<Longrightarrow> last s \<noteq> CHR '' '' \<Longrightarrow> TrimRight_space (p @ s) = p @ s"
  by (cases s rule: rev_cases) (simp_all add: TrimRight_space_def)

lemma takeWhile_blanks:
  "s \<noteq> [] \<Longrightarrow> hd s \<noteq> CHR '' '' \<Longrightarrow> takeWhile (\<lambda>c. c = CHR '' '') (replicate n (CHR '' '') @ s) = replicate n (CHR '' '')"
  by (induction n) (simp_all add: takeWhile_eq_Nil_iff)

lemma indented_not_comment: "s \<noteq> [] \<Longrightarrow> hd s \<noteq> CHR ''#'' \<Longrightarrow> \<not> starts_with ''#'' (replicate n (CHR '' '') @ s)"
  by (cases n; cases s) (auto simp: starts_with_def)

text \<open>A line of printable text without its indentation, at the depth of the stack.\<close>

lemma yaml_line_indented:
  assumes t: "t \<noteq> []" "printable (hd t)" "printable (last t)" "hd t \<noteq> CHR ''#''" and d: "length st = d"
  shows "yaml_line (replicate (2 * d) (CHR '' '') @ t) (2 * int (length ex + d), ex @ st, env) =
    (if last t = CHR '':'' then Inr (2 * int d + 2, butlast t # st, env)
     else case split_colon t of None \<Rightarrow> Inr (2 * int d, st, env)
       | Some (k, v) \<Rightarrow>
           (let fullKey = ToUpper (join_with ''_'' (rev st @ [TrimSpace k])) in
            case Setenv fullKey (yaml_value v) env of
              Inl e \<Rightarrow> Inl (errorf_w (''could not set env var '' @ fullKey @ '': '') e)
            | Inr env' \<Rightarrow> Inr (2 * int d, st, env')))"
proof -
  let ?l = "replicate (2 * d) (CHR '' '') @ t"
  have b: "last t \<noteq> CHR '' ''" "hd t \<noteq> CHR '' ''" using t(2,3) by (auto simp: printable_def)
  have 1: "TrimRight_space ?l = ?l" by (rule TrimRight_printable [OF t(1) b(1)])
  have 2: "int (length (takeWhile (\<lambda>c. c = CHR '' '') ?l)) = 2 * int d" using takeWhile_blanks [OF t(1) b(2)] by simp
  have 3: "TrimSpace ?l = t" by (rule TrimSpace_blanks [OF t(1-3)])
  have 5: "pop_prefixes (2 * int d) (2 * int (length ex) + 2 * int d) (ex @ st) = st"
    using pop_prefixes_down [OF d, of ex] by (simp add: distrib_left)
  have 4: "\<not> starts_with ''#'' ?l" by (rule indented_not_comment [OF t(1,4)])
  show ?thesis
    using t(1) 1 2 3 4 5 by (simp add: yaml_line_def Let_def split: option.split sum.split)
qed

lemma yaml_line_section:
  assumes "name_text s" "length st = d"
  shows "yaml_line (replicate (2 * d) (CHR '' '') @ s @ '':'') (2 * int (length ex + d), ex @ st, env) =
    Inr (2 * int (Suc d), s # st, env)"
proof -
  note n = name_textD [OF assms(1)]
  have "printable (CHR '':'')" by (simp add: printable_def)
  with yaml_line_indented [of "s @ '':''" st d ex env] n assms(2) show ?thesis by simp
qed

lemma ToUpper_join: "ToUpper (join_with ''_'' ws) = join_with ''_'' (map ToUpper ws)"
proof -
  have "ascii_upper (CHR ''_'') = CHR ''_''" by (simp add: ascii_upper_def)
  then show ?thesis by (induction "''_''" ws rule: join_with.induct) (simp_all add: ToUpper_def)
qed

lemma set_join: "set (join_with sep ws) \<subseteq> set sep \<union> (\<Union>w \<in> set ws. set w)"
  by (induction sep ws rule: join_with.induct) auto

lemma join_with_snoc: "join_with sep (ws @ [w]) = (if ws = [] then w else join_with sep ws @ sep @ w)"
  by (induction sep ws rule: join_with.induct) simp_all

lemma yaml_line_key:
  assumes k: "name_text k" and v: "value_text v" and st: "list_all name_text st" "length st = d"
  shows "yaml_line (replicate (2 * d) (CHR '' '') @ k @ '': '' @ v) (2 * int (length ex + d), ex @ st, env) =
    Inr (2 * int d, st, env(ToUpper (join_with ''_'' (rev st @ [k])) \<mapsto> v))"
proof -
  note n = name_textD [OF k]
  have v0: "v \<noteq> []" "printable (hd v)" "printable (last v)" "last v \<noteq> CHR '':''" "CHR 0x00 \<notin> set v"
    using v by (auto simp: value_text_def list_all_iff printable_def)
  have sc: "split_colon (k @ '': '' @ v) = Some (k, CHR '' '' # v)"
    using n(4) by (auto simp: split_colon_def takeWhile_append dropWhile_append)
  have "TrimSpace (CHR '' '' # v) = v" using TrimSpace_blanks [OF v0(1-3), of 1] by simp
  moreover have "trim_chars {CHR 0x22, CHR 0x27} v = v"
  proof -
    have "dropWhile (\<lambda>c. c \<in> {CHR 0x22, CHR 0x27}) v = v" "dropWhile (\<lambda>c. c \<in> {CHR 0x22, CHR 0x27}) (rev v) = rev v"
      using v by (auto simp: value_text_def dropWhile_eq_self_iff hd_rev)
    then show ?thesis by (simp only: trim_chars_def rev_rev_ident)
  qed
  ultimately have yv: "yaml_value (CHR '' '' # v) = v" using v0(1) by (simp add: yaml_value_def)
  let ?key = "ToUpper (join_with ''_'' (rev st @ [k]))"
  have "c \<notin> set ?key" if c: "c \<in> {CHR ''='', CHR 0x00}" for c
  proof -
    have "\<forall>w \<in> set (map ToUpper (rev st @ [k])). c \<notin> set w"
      using c n(7,8) st(1) name_textD(7,8) by (auto simp: list_all_iff)
    moreover have "c \<notin> set ''_''" using c by auto
    ultimately show ?thesis using set_join [of "''_''" "map ToUpper (rev st @ [k])"] unfolding ToUpper_join by blast
  qed
  moreover have "?key \<noteq> []" using n(1) join_with_snoc [of "''_''" "rev st" k] by (simp add: ToUpper_def)
  ultimately have "Setenv ?key v env = Inr (env(?key \<mapsto> v))" using v0(5) by (simp add: Setenv_def)
  then show ?thesis
    using yaml_line_indented [of "k @ '': '' @ v" st d ex env] n v0 sc yv st(2) by simp
qed

section \<open>Reading a tree back\<close>

lemma set_vars_append: "set_vars (a @ b) env = set_vars b (set_vars a env)"
  by (simp add: set_vars_def)

lemma yaml_lines_append:
  "list_all (\<lambda>l. length l < 65536) ls \<Longrightarrow>
     (\<And>l st. l \<in> set ls \<Longrightarrow> drop_cr l = l) \<Longrightarrow>
     foldl (\<lambda>r l. case r of Inl e \<Rightarrow> Inl e | Inr st \<Rightarrow> yaml_line l st) (Inr st0) ls = Inr st \<Longrightarrow>
     yaml_lines (ls @ rest) st0 = yaml_lines rest st"
proof (induction ls arbitrary: st0)
  case (Cons l ls)
  have stuck: "foldl (\<lambda>r l. case r of Inl e \<Rightarrow> Inl e | Inr st \<Rightarrow> yaml_line l st) (Inl e) ls = Inl e" for e :: err and ls
    by (induction ls) simp_all
  from Cons.prems(3) obtain st1 where 1: "yaml_line l st0 = Inr st1"
    by (cases "yaml_line l st0") (simp_all add: stuck)
  with Cons show ?case by simp
qed simp

text \<open>A fold over the lines of a tree, starting anywhere below the depth of its stack.\<close>

abbreviation yaml_fold :: "string list \<Rightarrow> int \<times> string list \<times> environ \<Rightarrow> (int \<times> string list \<times> environ) result" where
  "yaml_fold ls st \<equiv> foldl (\<lambda>r l. case r of Inl e \<Rightarrow> Inl e | Inr st \<Rightarrow> yaml_line l st) (Inr st) ls"

lemma yaml_fold_tree:
  assumes "yaml_ok t" "list_all name_text st" "length st = d"
  shows "\<exists>ex'. yaml_fold (yaml_print d t) (2 * int (length ex + d), ex @ st, env)
    = Inr (2 * int (length ex' + d), ex' @ st, set_vars (yaml_vars st t) env)"
  using assms
proof (induction t arbitrary: st d ex env)
  case (YKey k v)
  then show ?case using yaml_line_key [of k v st d ex env]
    by (intro exI [of _ "[]"]) (simp add: set_vars_def fun_upd_def)
next
  case (YSection s ts)
  have ts: "\<exists>ex'. yaml_fold (concat (map (yaml_print (Suc d)) us)) (2 * int (length ex + Suc d), ex @ s # st, env)
      = Inr (2 * int (length ex' + Suc d), ex' @ s # st, set_vars (concat (map (yaml_vars (s # st)) us)) env)"
    if "set us \<subseteq> set ts" for us ex env
    using that
  proof (induction us arbitrary: ex env)
    case Nil
    then show ?case by (auto simp: set_vars_def)
  next
    case (Cons u us)
    have u: "yaml_ok u" "list_all name_text (s # st)" "length (s # st) = Suc d"
      using YSection.prems Cons.prems by (auto simp: list_all_iff)
    obtain ex1 where "yaml_fold (yaml_print (Suc d) u) (2 * int (length ex + Suc d), ex @ s # st, env)
        = Inr (2 * int (length ex1 + Suc d), ex1 @ s # st, set_vars (yaml_vars (s # st) u) env)"
      using YSection.IH [OF _ u, of ex env] Cons.prems by auto
    with Cons.IH [of ex1 "set_vars (yaml_vars (s # st) u) env"] Cons.prems show ?case
      by (simp add: set_vars_append)
  qed
  have "yaml_line (replicate (2 * d) (CHR '' '') @ s @ '':'') (2 * int (length ex + d), ex @ st, env)
      = Inr (2 * int (length ([] :: string list) + Suc d), [] @ s # st, env)"
    using yaml_line_section [of s st d ex env] YSection.prems by simp
  with ts [OF subset_refl, of "[]" env] show ?case
    by (auto intro: exI [of _ "_ @ [s]"])
qed

lemma yaml_fold_forest:
  assumes "list_all yaml_ok ts" "list_all name_text st" "length st = d"
  shows "\<exists>ex'. yaml_fold (concat (map (yaml_print d) ts)) (2 * int (length ex + d), ex @ st, env)
    = Inr (2 * int (length ex' + d), ex' @ st, set_vars (concat (map (yaml_vars st) ts)) env)"
  using assms(1)
proof (induction ts arbitrary: ex env)
  case Nil
  then show ?case by (auto simp: set_vars_def)
next
  case (Cons t ts)
  then obtain ex1 where "yaml_fold (yaml_print d t) (2 * int (length ex + d), ex @ st, env)
      = Inr (2 * int (length ex1 + d), ex1 @ st, set_vars (yaml_vars st t) env)"
    using yaml_fold_tree [OF _ assms(2,3), of t ex env] by auto
  with Cons.IH [of ex1 "set_vars (yaml_vars st t) env"] Cons.prems show ?case by (simp add: set_vars_append)
qed

definition yaml_file :: "yaml list \<Rightarrow> string" where
  "yaml_file ts = concat (map (\<lambda>l. l @ [CHR 0x0A]) (concat (map (yaml_print 0) ts)))"

lemma scan_lines_file:
  assumes "\<forall>l \<in> set ls. CHR 0x0A \<notin> set l"
  shows "scan_lines (concat (map (\<lambda>l. l @ [CHR 0x0A]) ls)) = ls"
proof -
  have "split_on (CHR 0x0A) (concat (map (\<lambda>l. l @ [CHR 0x0A]) ls)) = ls @ [[]]"
    using assms by (induction ls) (auto simp: split_on_append)
  then show ?thesis by (simp add: scan_lines_def Let_def)
qed

text \<open>Printed lines are printable apart from blanks, and do not end in a blank.\<close>

lemma yaml_print_chars:
  assumes "yaml_ok t" "l \<in> set (yaml_print d t)"
  shows "(\<forall>c \<in> set l. printable c \<or> c = CHR '' '') \<and> l \<noteq> [] \<and> printable (last l)"
  using assms
proof (induction t arbitrary: d)
  case (YKey k v)
  have "\<forall>c \<in> set k. printable c" using YKey name_char_printable(1) by (auto simp: name_text_def list_all_iff)
  moreover have "printable (CHR '':'')" by (simp add: printable_def)
  ultimately show ?case using YKey by (auto simp: value_text_def list_all_iff)
next
  case (YSection s ts)
  have s: "\<forall>c \<in> set s. printable c" using YSection.prems name_char_printable(1) by (auto simp: name_text_def list_all_iff)
  have p: "printable (CHR '':'')" by (simp add: printable_def)
  from YSection show ?case
    using s p by (auto simp: list_all_iff)
qed

text \<open>
  C33. A configuration file is read back: a tree of sections and keys, of any depth, printed
  with two blanks per level, is loaded as exactly the variables whose names are the path
  of section names and the key, joined by underscores in upper case, each with its value.
\<close>

theorem LoadYamlFile_roundtrip:
  assumes "list_all yaml_ok ts" "\<forall>l \<in> set (concat (map (yaml_print 0) ts)). length l < 65536"
  shows "LoadYamlFile (Inr (yaml_file ts)) env = Inr (set_vars (concat (map (yaml_vars []) ts)) env)"
proof -
  let ?ls = "concat (map (yaml_print 0) ts)"
  have c: "(\<forall>c \<in> set l. printable c \<or> c = CHR '' '') \<and> l \<noteq> [] \<and> printable (last l)" if "l \<in> set ?ls" for l
    using that assms(1) yaml_print_chars by (fastforce simp: list_all_iff)
  have nl: "CHR 0x0A \<notin> set l" if "l \<in> set ?ls" for l
  proof
    assume "CHR 0x0A \<in> set l"
    with c [OF that] have "printable (CHR 0x0A) \<or> CHR 0x0A = CHR '' ''" by blast
    then show False by (simp add: printable_def)
  qed
  have cr: "drop_cr l = l" if "l \<in> set ?ls" for l
  proof -
    have "printable (last l)" using c [OF that] by blast
    then have "last l \<noteq> CHR 0x0D" by (auto simp: printable_def)
    then show ?thesis by (simp add: drop_cr_def)
  qed
  obtain ex' where f: "yaml_fold ?ls (0, [], env)
      = Inr (2 * int (length ex'), ex', set_vars (concat (map (yaml_vars []) ts)) env)"
    using yaml_fold_forest [OF assms(1), of "[]" 0 "[]" env] by auto
  have "yaml_lines (?ls @ []) (0, [], env) = yaml_lines [] (2 * int (length ex'), ex', set_vars (concat (map (yaml_vars []) ts)) env)"
    by (rule yaml_lines_append [OF _ _ f]) (use assms(2) cr in \<open>auto simp: list_all_iff\<close>)
  then show ?thesis using scan_lines_file [of ?ls] nl by (simp add: LoadYamlFile_def yaml_file_def)
qed

definition example_yaml :: "yaml list" where
  "example_yaml = [YSection ''rabbitmq'' [YKey ''host'' ''broker'',
     YSection ''reconnect'' [YKey ''attempt'' ''7'', YKey ''delay'' ''2s'']],
     YSection ''order'' [YKey ''semwait'' ''1s'']]"

theorem LoadYamlFile_roundtrip_witness:
  "LoadYamlFile (Inr (yaml_file example_yaml)) Map.empty = Inr [''RABBITMQ_HOST'' \<mapsto> ''broker'',
     ''RABBITMQ_RECONNECT_ATTEMPT'' \<mapsto> ''7'', ''RABBITMQ_RECONNECT_DELAY'' \<mapsto> ''2s'', ''ORDER_SEMWAIT'' \<mapsto> ''1s'']"
proof -
  have "list_all yaml_ok example_yaml" by code_simp
  moreover have "\<forall>l \<in> set (concat (map (yaml_print 0) example_yaml)). length l < 65536"
    by (simp add: example_yaml_def)
  moreover have "concat (map (yaml_vars []) example_yaml) =
    [(''RABBITMQ_HOST'', ''broker''), (''RABBITMQ_RECONNECT_ATTEMPT'', ''7''), (''RABBITMQ_RECONNECT_DELAY'', ''2s''), (''ORDER_SEMWAIT'', ''1s'')]"
    by code_simp
  ultimately show ?thesis using LoadYamlFile_roundtrip [of example_yaml Map.empty] by (simp add: set_vars_def fun_upd_def)
qed

section \<open>Defaults\<close>

definition default_config :: Config where
  "default_config = zero_Config
     \<lparr>cf_Order := \<lparr>oc_MaxConcurrent = 0, oc_SemWait = nanos_per_second\<rparr>,
      cf_Kitchen := (cf_Kitchen zero_Config)\<lparr>kc_ReconnectAttempt := 5, kc_ReconnectDelay := nanos_per_second\<rparr>,
      cf_Postgres := (cf_Postgres zero_Config)\<lparr>pc_MaxOpenConns := 25, pc_MaxIdleTime := ''15m''\<rparr>,
      cf_RabbitMQ := \<lparr>rm_Conn = \<lparr>rc_Host = ''localhost'', rc_Port = ''5672'', rc_User = ''guest'', rc_Password = ''guest''\<rparr>,
        rm_OrderExchange = ''orders_topic'', rm_NotificationsExchange = ''notifications_fanout'',
        rm_ReconnectAttempt = 5, rm_ReconnectDelay = nanos_per_second\<rparr>\<rparr>"

text \<open>Parsing follows the tree of structures, but amounts to the tagged fields one after the other.\<close>

fun tagged_fields :: "'c struct_field list \<Rightarrow> 'c tagged_field list" where
  "tagged_fields [] = []"
| "tagged_fields (Nested _ gs # fs) = tagged_fields gs @ tagged_fields fs"
| "tagged_fields (Untagged _ # fs) = tagged_fields fs"
| "tagged_fields (Tagged f # fs) = f # tagged_fields fs"

fun parse_fields :: "environ \<Rightarrow> 'c tagged_field list \<Rightarrow> 'c \<Rightarrow> 'c result" where
  "parse_fields env [] cfg = Inr cfg"
| "parse_fields env (f # fs) cfg = (case parse_field env f cfg of Inl e \<Rightarrow> Inl e | Inr cfg' \<Rightarrow> parse_fields env fs cfg')"

lemma parse_fields_append:
  "parse_fields env (fs @ gs) cfg = (case parse_fields env fs cfg of Inl e \<Rightarrow> Inl e | Inr cfg' \<Rightarrow> parse_fields env gs cfg')"
  by (induction fs arbitrary: cfg) (auto split: sum.split)

lemma parseStruct_tagged_fields: "parseStruct env fs cfg = parse_fields env (tagged_fields fs) cfg"
  by (induction env fs cfg rule: parseStruct.induct) (auto simp: parse_fields_append split: sum.split)

text \<open>Reading back a printed integer.\<close>

lemma uint_digits_value:
  "list_all is_digit s \<Longrightarrow> n < 2 ^ 64 \<Longrightarrow>
     uint_digits n s = (let v = foldl (\<lambda>a c. 10 * a + (of_char c - 48)) n s in if v < 2 ^ 64 then Inr v else Inl ErrRange)"
proof (induction s arbitrary: n)
  case (Cons c s)
  let ?f = "\<lambda>a c. 10 * a + (of_char c - 48) :: nat"
  have mono: "m \<le> foldl ?f m s" for m s 
  proof (induction s arbitrary: m)
    case (Cons c s)
    from Cons [of "?f m c"] show ?case by simp
  qed simp
  show ?case
  proof (cases "?f n c < 2 ^ 64")
    case True
    with Cons show ?thesis by (simp add: Let_def)
  next
    case False
    with Cons.prems mono [of "?f n c" s] show ?thesis by (auto simp: Let_def)
  qed
qed (simp add: Let_def)

lemma read_uint_dec_nat: "read_uint (dec_nat n) = (if n < 2 ^ 64 then Inr n else Inl ErrRange)"
proof -
  have "list_all is_digit (dec_nat n)" using dec_nat_is_digit by (simp add: list_all_iff)
  from uint_digits_value [OF this, of 0] show ?thesis
    using dec_value_dec_nat [of n] by (simp add: read_uint_def dec_value_def Let_def)
qed

lemma ParseInt_fmt_d:
  "ParseInt (fmt_d i) = (if - (2 ^ 63) \<le> i \<and> i < 2 ^ 63 then Inr i else Inl (num_text ''ParseInt'' (fmt_d i) ErrRange))"
proof (cases "i < 0")
  case True
  then show ?thesis by (auto simp: ParseInt_def fmt_d_def read_uint_dec_nat)
next
  case False
  have "dec_nat (nat i) \<noteq> []" by simp
  then have "is_digit (hd (dec_nat (nat i)))" using dec_nat_is_digit hd_in_set by blast
  then have "hd (dec_nat (nat i)) \<notin> {CHR ''-'', CHR ''+''}" by (auto simp: is_digit_def)
  with False show ?thesis by (auto simp: ParseInt_def fmt_d_def read_uint_dec_nat)
qed

lemma parse_defaults:
  "ParseDuration ''1s'' = Inr nanos_per_second" "ParseInt ''5'' = Inr 5" "ParseInt ''25'' = Inr 25"
proof -
  have "fmt_d (int 1) = ''1''" by code_simp
  then show "ParseDuration ''1s'' = Inr nanos_per_second" using ParseDuration_whole [of 1] by simp
  have "fmt_d 5 = ''5''" "fmt_d 25 = ''25''" by code_simp+
  then show "ParseInt ''5'' = Inr 5" "ParseInt ''25'' = Inr 25" using ParseInt_fmt_d [of 5] ParseInt_fmt_d [of 25] by simp_all
qed

lemma defaults_parse:
  assumes "LoadYamlFile file env = Inr env'" "\<forall>f \<in> set (tagged_fields config_fields). env' (tf_env f) \<in> {None, Some []}"
  shows "LoadAndParseYaml file env zero_Config = Inr (default_config, env')"
proof -
  have v: "field_value env' f = tf_default f" if "f \<in> set (tagged_fields config_fields)" for f
    using assms(2) that by (auto simp: field_value_def split: option.splits)
  have "parseStruct env' config_fields zero_Config = Inr default_config"
    using v unfolding config_fields_def order_fields_def kitchen_fields_def postgres_fields_def conn_fields_def rabbit_fields_def
    by (simp add: parse_field_def Let_def set_field_def parse_defaults default_config_def zero_Config_def put_conn_def)
  with assms(1) show ?thesis by (simp add: LoadAndParseYaml_def Parse_def)
qed

lemma empty_file: "LoadYamlFile (Inr []) Map.empty = Inr Map.empty"
  by (simp add: LoadYamlFile_def scan_lines_def)

text \<open>
  Defaults: when neither the file nor the environment names a variable of the
  configuration, the program runs with the defaults of its tags, among them five attempts a
  second apart to reconnect, so no retry is configured away.
\<close>

theorem config_defaults:
  assumes "LoadYamlFile file env = Inr env'" "\<forall>f \<in> set (tagged_fields config_fields). env' (tf_env f) \<in> {None, Some []}"
  shows "LoadAndParseYaml file env zero_Config = Inr (default_config, env')"
  using assms by (rule defaults_parse)

theorem config_defaults_witness:
  "\<exists>env'. LoadAndParseYaml (Inr []) Map.empty zero_Config = Inr (default_config, env')"
  using config_defaults [OF empty_file] by blast

end
