(* ===== verification/Help.thy ===== *)
theory Help
  imports Config "HOL-Library.Sublist"
begin

text \<open>
  \<^verbatim>\<open>internal/config/help.go\<close>: the help message, as a list of lines. The usage text of the flag package, which is
  printed only if there is no message, is an argument.
\<close>

definition double_quoted :: "string \<Rightarrow> string" where
  "double_quoted s = [CHR 0x22] @ s @ [CHR 0x22]"

definition HelpMessage :: "string list" where
  "HelpMessage =
    [''Usage: ./restaurant-system --mode=<service> [options]'',
     [],
     ''Available Services:'',
     ''  order-service           - HTTP API for order management'',
     ''  kitchen-worker          - Kitchen order processing service'',
     ''  tracking-service        - Order tracking API'',
     ''  notification-subscriber - Status update subscriber'',
     [],
     ''Common Flags:'',
     ''  --help                  - Show this help message'',
     ''  --config                - Path to config file (default: config.yaml)'',
     ''  --log-level             - Defines logger level (DEBUG, INFO, WARN, ERROR)'',
     [],
     ''Service-Specific Flags:'',
     [],
     ''Order Service:'',
     ''  --port           - HTTP port (default: 3000)'',
     ''  --max-concurrent - Max concurrent orders (default: 50)'',
     [],
     ''Kitchen Worker:'',
     ''  --worker-name        - Unique worker identifier (required)'',
     ''  --order-types        - Comma-separated order types (dine_in,takeout,delivery)'',
     ''  --heartbeat-interval - Worker heartbeat in seconds (default: 30)'',
     ''  --prefetch           - RabbitMQ prefetch count (default: 1)'',
     [],
     ''Tracking Service:'',
     ''  --port - HTTP port (default: 3002)'',
     [],
     ''Examples:'',
     ''  ./restaurant-system --mode=order-service --port=3000 --max-concurrent 50'',
     [],
     ''  ./restaurant-system --mode=kitchen-worker --worker-name='' @ double_quoted ''gordon_ramsay'' @ '' --order-types='' @ double_quoted ''dine_in'' @ '' --heartbeat-interval=30 --prefetch=1'',
     ''  ./restaurant-system --mode=kitchen-worker --worker-name='' @ double_quoted ''gordon_ramsay'' @ '' --order-types='' @ double_quoted ''dine_in,takeout'' @ '' --heartbeat-interval=30 --prefetch=1'',
     ''  ./restaurant-system --mode=kitchen-worker --worker-name='' @ double_quoted ''gordon_ramsay'' @ '' --order-types='' @ double_quoted ''dine_in,takeout,delivery'' @ '' --heartbeat-interval=30 --prefetch=1'',
     [],
     ''  ./restaurant-system --mode=tracking-service --port=3002'',
     ''  ./restaurant-system --mode=notification-subscriber'']"

definition PrintHelp :: "string list \<Rightarrow> string list" where
  "PrintHelp usage = (if HelpMessage \<noteq> [] then HelpMessage else usage)"

lemma PrintHelp_prints_message [simp]: "PrintHelp usage = HelpMessage"
  by (simp add: PrintHelp_def HelpMessage_def)

text \<open>Every mode that a configuration can have is a service of the help.\<close>

lemma help_lists_modes:
  assumes "parseFlags f cfg0 = Inr cfg"
  shows "\<exists>l \<in> set HelpMessage. prefix (''  '' @ cf_Mode cfg @ '' '') l"
proof -
  have m: "cf_Mode cfg = ModeOrder \<or> cf_Mode cfg = ModeKitchenWorker \<or> cf_Mode cfg = ModeTracking \<or> cf_Mode cfg = ModeNotificationSubscriber"
    using assms by (auto simp: parseFlags_def Let_def split: if_splits option.splits)
  show ?thesis
  proof (use m in \<open>elim disjE\<close>)
    assume "cf_Mode cfg = ModeOrder" then show ?thesis by (simp add: HelpMessage_def mode_defs)
  next
    assume "cf_Mode cfg = ModeKitchenWorker" then show ?thesis by (simp add: HelpMessage_def mode_defs)
  next
    assume "cf_Mode cfg = ModeTracking" then show ?thesis by (simp add: HelpMessage_def mode_defs)
  next
    assume "cf_Mode cfg = ModeNotificationSubscriber" then show ?thesis by (simp add: HelpMessage_def mode_defs)
  qed
qed

text \<open>
  The help speaks of a flag \<^verbatim>\<open>--config\<close>; the one the program defines, \<^verbatim>\<open>--config-path\<close>, it does not name.
\<close>

lemma help_names_wrong_flag:
  "''  --config                - Path to config file (default: config.yaml)'' \<in> set HelpMessage"
  "list_all (\<lambda>l. \<not> sublist ''--config-path'' l) HelpMessage"
   apply (simp add: HelpMessage_def)
  apply code_simp
  done

end
