(* ===== verification/Application.thy ===== *)
theory Application
  imports Kitchen_Service Notification Config_Print Config_File Help
begin

text \<open>
  \<^verbatim>\<open>internal/app/app.go\<close> and \<^verbatim>\<open>cmd/main.go\<close>: the service chosen by the mode, and the process around it.
  What the surroundings do while a service runs is a record of parameters of the services'
  own models: the error of listening, whether and when a shutdown signal comes, whether requests are
  still open then, the events of the kitchen worker and of the one that replaces it (its waiting ends by a
  report or else by the signal), the name the broker gives to the queue, the events of the
  subscriber and the updates on their way to its printer when the signal comes.
\<close>

datatype service = Order_Svc order_app | Kitchen_Svc KitchenService | Tracking_Svc tracking_app
  | Notification_Svc NotificationSubscriber

record App =
  app_mode :: string
  app_service :: "service option"
  app_cfg :: Config

record surroundings =
  sr_fault :: "err option"
  sr_signal :: signal
  sr_busy :: bool
  sr_work :: "work_event list"
  sr_signals :: "bool list"
  sr_rework :: "work_event list"
  sr_queue :: string
  sr_notes :: "note_event list"
  sr_lost :: nat

definition ErrInvalidMode :: err where
  "ErrInvalidMode = Sentinel ''app.ErrInvalidMode'' ''invalid mode''"

section \<open>app.go\<close>

text \<open>The service or the error of its constructor, by mode.\<close>

definition new_service :: "(string \<Rightarrow> err option) \<Rightarrow> string \<Rightarrow> Config \<Rightarrow> world
    \<Rightarrow> (service result \<times> world) service_outcome" where
  "new_service parse_dsn mode cfg w =
     (if mode = ModeOrder then
        (case NewOrder parse_dsn cfg w of
           (None, w1) \<Rightarrow> Crash
         | (Some (Inl e), w1) \<Rightarrow> Done (Inl (errorf_w ''failed to init service: '' e), w1)
         | (Some (Inr s), w1) \<Rightarrow> Done (Inr (Order_Svc s), w1))
      else if mode = ModeKitchenWorker then
        (case NewKitchen parse_dsn cfg w of
           (Inl e, w1) \<Rightarrow> Done (Inl (errorf_w ''failed to init service: '' e), w1)
         | (Inr s, w1) \<Rightarrow> Done (Inr (Kitchen_Svc s), w1\<lparr>conn_closed := ks_producer_closed s\<rparr>))
      else if mode = ModeTracking then
        (case NewTracking parse_dsn cfg w of
           (Inl e, w1) \<Rightarrow> Done (Inl (errorf_w ''failed to init service: '' e), w1)
         | (Inr s, w1) \<Rightarrow> Done (Inr (Tracking_Svc s), w1))
      else if mode = ModeNotificationSubscriber then
        (case app_NewNotificationSubscriber cfg w of
           (Inl e, w1) \<Rightarrow> Done (Inl (errorf_w ''failed to init service: '' e), w1)
         | (Inr s, w1) \<Rightarrow> Done (Inr (Notification_Svc s), w1))
      else Done (Inl ErrInvalidMode, w))"

definition initService :: "(string \<Rightarrow> err option) \<Rightarrow> string \<Rightarrow> App \<Rightarrow> world
    \<Rightarrow> (err option \<times> App \<times> world) service_outcome" where
  "initService parse_dsn mode app w =
     (case new_service parse_dsn mode (app_cfg app) w of
        Done (Inl e, w1) \<Rightarrow> Done (Some e, app, w1)
      | Done (Inr s, w1) \<Rightarrow> Done (None, app\<lparr>app_service := Some s\<rparr>, w1)
      | Blocked \<Rightarrow> Blocked
      | Crash \<Rightarrow> Crash)"

definition NewApplication :: "(string \<Rightarrow> err option) \<Rightarrow> Config \<Rightarrow> world \<Rightarrow> (App result \<times> world) service_outcome" where
  "NewApplication parse_dsn cfg w =
     (let app = \<lparr>app_mode = cf_Mode cfg, app_service = None, app_cfg = cfg\<rparr> in
      case initService parse_dsn (app_mode app) app w of
        Done (Some e, _, w1) \<Rightarrow> Done (Inl e, w1)
      | Done (None, app', w1) \<Rightarrow> Done (Inr app', w1)
      | Blocked \<Rightarrow> Blocked
      | Crash \<Rightarrow> Crash)"

text \<open>\<^verbatim>\<open>Start\<close> of the interface \<^verbatim>\<open>Service\<close>: its error, the service and the world afterwards, and the lines printed.\<close>

fun start_service :: "(string \<Rightarrow> err option) \<Rightarrow> surroundings \<Rightarrow> service \<Rightarrow> world
    \<Rightarrow> (err option \<times> service \<times> world \<times> string list) service_outcome" where
  "start_service parse_dsn env (Order_Svc s) w =
     (case order_Start (sr_fault env) (sr_signal env) (sr_busy env) s w of
        Done (r, s1, w1) \<Rightarrow> Done (r, Order_Svc s1, w1, [])
      | Blocked \<Rightarrow> Blocked
      | Crash \<Rightarrow> Crash)"
| "start_service parse_dsn env (Tracking_Svc s) w =
     (case tracking_Start (sr_fault env) (sr_signal env) (sr_busy env) s of
        Done (r, s1) \<Rightarrow> Done (r, Tracking_Svc s1, w, [])
      | Blocked \<Rightarrow> Blocked
      | Crash \<Rightarrow> Crash)"
| "start_service parse_dsn env (Kitchen_Svc s) w =
     (case kitchen_Start parse_dsn (kitchen_deps_impl (cf_RabbitMQ (ks_cfg s))) (sr_work env) (sr_signals env) (sr_rework env) s w of
        Done (r, s1, w1) \<Rightarrow> Done (r, Kitchen_Svc s1, w1, [])
      | Blocked \<Rightarrow> Blocked
      | Crash \<Rightarrow> Crash)"
| "start_service parse_dsn env (Notification_Svc s) w =
     (case notification_Start (sr_queue env) (sr_notes env) (sr_signal env) (sr_lost env) s w of
        Done (r, lines, s1, w1) \<Rightarrow> Done (r, Notification_Svc s1, w1, lines)
      | Blocked \<Rightarrow> Blocked
      | Crash \<Rightarrow> Crash)"

definition app_Run :: "(string \<Rightarrow> err option) \<Rightarrow> surroundings \<Rightarrow> App \<Rightarrow> world
    \<Rightarrow> (err option \<times> App \<times> world \<times> string list) service_outcome" where
  "app_Run parse_dsn env app w =
     (case (if app_service app = None then initService parse_dsn (app_mode app) app w else Done (None, app, w)) of
        Blocked \<Rightarrow> Blocked
      | Crash \<Rightarrow> Crash
      | Done (Some e, app1, w1) \<Rightarrow> Done (Some e, app1, w1, [])
      | Done (None, app1, w1) \<Rightarrow>
          (case app_service app1 of
             None \<Rightarrow> Crash
           | Some s \<Rightarrow>
               (case start_service parse_dsn env s w1 of
                  Done (r, s1, w2, lines) \<Rightarrow> Done (r, app1\<lparr>app_service := Some s1\<rparr>, w2, lines)
                | Blocked \<Rightarrow> Blocked
                | Crash \<Rightarrow> Crash)))"

section \<open>cmd/main.go\<close>

text \<open>
  The end of the process: an exit status, or the panic of a goroutine, or never. The lines printed
  are those of the configuration and of the notifications; \<open>usage\<close> is the usage text of the flag package.
  An invalid configuration ends in \<^verbatim>\<open>log.Fatal\<close>, so the call after it is not reached.
\<close>

datatype exit = Exit nat | Hangs | Panicked

definition cmd_Run :: "string list \<Rightarrow> (duration \<Rightarrow> string) \<Rightarrow> (string \<Rightarrow> err option) \<Rightarrow> surroundings \<Rightarrow> bool \<Rightarrow> string result
    \<Rightarrow> flags \<Rightarrow> environ \<Rightarrow> world \<Rightarrow> exit \<times> string list" where
  "cmd_Run usage text parse_dsn env helpFlag file f vars w =
     (if helpFlag then (Exit 0, PrintHelp usage)
      else case config_New file f vars of
        Inl e \<Rightarrow> (Exit 1, [])
      | Inr cfg \<Rightarrow>
          (let shown = PrintConfig (reflect_Config text cfg) in
           case NewApplication parse_dsn cfg w of
             Blocked \<Rightarrow> (Hangs, shown)
           | Crash \<Rightarrow> (Panicked, shown)
           | Done (Inl e, w1) \<Rightarrow> (Exit 1, shown)
           | Done (Inr app, w1) \<Rightarrow>
               (case app_Run parse_dsn env app w1 of
                  Blocked \<Rightarrow> (Hangs, shown)
                | Crash \<Rightarrow> (Panicked, shown)
                | Done (Some e, _, _, lines) \<Rightarrow> (Exit 1, shown @ lines)
                | Done (None, _, _, lines) \<Rightarrow> (Exit 0, shown @ lines))))"

text \<open>The help needs no configuration, database or broker.\<close>

lemma help_only: "cmd_Run usage text parse_dsn env True file f vars w = (Exit 0, HelpMessage)"
  by (simp add: cmd_Run_def)

section \<open>A configured process\<close>

fun service_mode :: "service \<Rightarrow> string" where
  "service_mode (Order_Svc _) = ModeOrder"
| "service_mode (Kitchen_Svc _) = ModeKitchenWorker"
| "service_mode (Tracking_Svc _) = ModeTracking"
| "service_mode (Notification_Svc _) = ModeNotificationSubscriber"

lemma config_New_flags: "config_New file f vars = Inr cfg \<Longrightarrow> \<exists>cfg0. parseFlags f cfg0 = Inr cfg"
  by (auto simp: config_New_def split: sum.splits prod.splits)

lemma parseFlags_mode:
  assumes "parseFlags f cfg0 = Inr cfg"
  shows "cf_Mode cfg \<in> {ModeOrder, ModeKitchenWorker, ModeTracking, ModeNotificationSubscriber}"
    "cf_Mode cfg = ModeOrder \<Longrightarrow> 0 \<le> oc_MaxConcurrent (cf_Order cfg)"
  using assms modes_distinct by (auto simp: parseFlags_def Let_def split: if_splits option.splits)

lemma NewOrder_returns: "0 \<le> oc_MaxConcurrent (cf_Order cfg) \<Longrightarrow> \<exists>r w'. NewOrder parse_dsn cfg w = (Some r, w')"
  by (auto simp: NewOrder_def NewSemaphore_def split: prod.splits option.splits)

lemma new_service_mode:
  "new_service parse_dsn mode cfg w = Done (Inr s, w') \<Longrightarrow> service_mode s = mode"
  by (auto simp: new_service_def split: if_splits prod.splits sum.splits option.splits)

lemma new_service_valid:
  assumes "mode \<in> {ModeOrder, ModeKitchenWorker, ModeTracking, ModeNotificationSubscriber}"
    and "mode = ModeOrder \<Longrightarrow> 0 \<le> oc_MaxConcurrent (cf_Order cfg)"
  shows "\<exists>r w'. new_service parse_dsn mode cfg w = Done (r, w') \<and> r \<noteq> Inl ErrInvalidMode"
proof (cases "mode = ModeOrder")
  case True
  then obtain r w' where "NewOrder parse_dsn cfg w = (Some r, w')" using NewOrder_returns assms(2) by blast
  with True show ?thesis by (cases r) (auto simp: new_service_def ErrInvalidMode_def)
next
  case False
  with assms(1) show ?thesis
    by (auto simp: new_service_def ErrInvalidMode_def split: prod.split sum.split)
qed

text \<open>
  A server or subscriber waits until an error or a signal arrives; nothing else ends it.
\<close>

lemma server_waits:
  "order_Start fault sig busy s w = Blocked \<longleftrightarrow> fault = None \<and> sig = No_Signal"
  "tracking_Start fault sig busy t = Blocked \<longleftrightarrow> fault = None \<and> sig = No_Signal"
  by (cases sig; cases fault; simp add: order_Start_def tracking_Start_def API_Run_def)+

text \<open>
  An accepted configuration creates an application without a panic (a negative number of concurrent
  orders would make a channel of negative size) and without the error of an unknown mode;
  if the connections can be made, the application holds the service of the configured mode.
\<close>

lemma application_created:
  assumes "config_New file f vars = Inr cfg"
  shows "\<exists>r w'. NewApplication parse_dsn cfg w = Done (r, w') \<and> r \<noteq> Inl ErrInvalidMode
    \<and> (\<forall>app. r = Inr app \<longrightarrow>
         (\<exists>s. app_service app = Some s \<and> service_mode s = fl_mode f \<and> app_cfg app = cfg))"
proof -
  obtain cfg0 where p: "parseFlags f cfg0 = Inr cfg" using config_New_flags [OF assms] by blast
  have m: "cf_Mode cfg = fl_mode f" using p by (auto simp: parseFlags_def Let_def split: if_splits option.splits)
  obtain r w' where n: "new_service parse_dsn (cf_Mode cfg) cfg w = Done (r, w')" "r \<noteq> Inl ErrInvalidMode"
    using new_service_valid [OF parseFlags_mode [OF p]] by blast
  then show ?thesis
    using new_service_mode [of parse_dsn "cf_Mode cfg" cfg w] m
    by (cases r) (auto simp: NewApplication_def initService_def)
qed

text \<open>The whole process of a subscriber that is stopped by a signal.\<close>

definition plain_surroundings :: surroundings where
  "plain_surroundings = \<lparr>sr_fault = None, sr_signal = Signal_Later, sr_busy = False, sr_work = [], sr_signals = [], sr_rework = [],
     sr_queue = ''q'', sr_notes = [], sr_lost = 0\<rparr>"

lemma subscriber_process:
  "\<exists>cfg app w' app' w''. config_New (Inr []) (default_flags\<lparr>fl_mode := ModeNotificationSubscriber\<rparr>) Map.empty = Inr cfg
     \<and> NewApplication (\<lambda>_. None) cfg (start_world []) = Done (Inr app, w')
     \<and> app_Run (\<lambda>_. None) plain_surroundings app w' = Done (None, app', w'', [])
     \<and> app_Run (\<lambda>_. None) (plain_surroundings\<lparr>sr_signal := No_Signal\<rparr>) app w' = Blocked"
proof -
  let ?f = "default_flags\<lparr>fl_mode := ModeNotificationSubscriber\<rparr>" and ?w = "start_world []"
  have "LoadAndParseYaml (Inr []) Map.empty zero_Config = Inr (default_config, Map.empty)" using defaults_parse [OF empty_file] by simp
  moreover have "parseFlags ?f default_config = Inr (default_config\<lparr>cf_LogLevel := LevelDebug, cf_Mode := ModeNotificationSubscriber\<rparr>)"
    by (simp add: parseFlags_def default_flags_def validateLogLevel_def mode_defs Let_def)
  ultimately obtain cfg where c: "config_New (Inr []) ?f Map.empty = Inr cfg" "cf_Mode cfg = ModeNotificationSubscriber"
    by (simp add: config_New_def)
  let ?s = "NewNotificationSubscriber (cf_RabbitMQ cfg)"
  obtain w1 where w1: "rabbit_New ?w = (None, w1)" "quiet w1" "\<not> conn_closed w1"
    using quiet_rabbit_New [OF example_start(1)] by blast
  then have "NewApplication (\<lambda>_. None) cfg ?w = Done (Inr \<lparr>app_mode = ModeNotificationSubscriber, app_service = Some (Notification_Svc ?s), app_cfg = cfg\<rparr>, w1)"
    using c(2) by (simp add: NewApplication_def initService_def new_service_def app_NewNotificationSubscriber_def mode_defs)
  moreover obtain s' w' where "Notify ''q'' [] ?s w1 = ([], [], s', w')"
    using Notify_live [OF w1(2,3), of "''q''" "[]" ?s] by auto
  ultimately show ?thesis using c(1)
    by (auto simp: app_Run_def notification_Start_def plain_surroundings_def split: prod.splits)
qed

end
