(* ===== verification/Lifecycle.thy ===== *)
theory Lifecycle
  imports Application
begin

text \<open>
  The services together: an order accepted by the order service, the message it sends, the
  kitchen worker that takes the message, and the notification subscriber that takes the
  worker's announcements. The services share the database and the broker; a message is
  handed on by its body.
\<close>

section \<open>The order message of an accepted order\<close>

lemma fadd_Fin: "fadd x y = Fin t \<Longrightarrow> is_float64 t"
  by (cases x; cases y) (auto simp: is_float64_def intro: fl_idem split: if_splits)

lemma total_is_float64:
  assumes "co_TotalAmount (CalucalteTotalAmount m) = Fin t"
  shows "is_float64 t"
proof (cases "co_Items m" rule: rev_cases)
  case Nil
  with assms example_floats(3) show ?thesis by (simp add: CalucalteTotalAmount_def)
next
  case (snoc its it)
  with assms show ?thesis by (auto simp: CalucalteTotalAmount_def dest: fadd_Fin)
qed

lemma accepted_go_order:
  assumes "acceptable m" "\<forall>it \<in> set (co_Items m). cent_item cs it"
    and "FromInternalToPublishOrder ctx (Some (prepare_order today n m)) = Some msg"
  shows "go_order msg"
proof -
  have len: "length (co_Items m) \<le> 20" using assms(1) by (simp add: acceptable_def)
  obtain t where t: "co_TotalAmount (CalucalteTotalAmount m) = Fin t"
    using CalucalteTotalAmount_bound [OF len assms(2)] by blast
  have "go_float (ci_Price it)" "int64_range (ci_Quantity it)" if "it \<in> set (co_Items m)" for it
    using price_cents(2) [OF example_codec_rounds] assms(2) that by (auto simp: cent_item_def int64_range_def)
  moreover have "pred_option int64_range (co_TableNumber m)"
    using assms(1) by (auto simp: acceptable_def acceptable_place_def int64_range_def)
  moreover have "int64_range (co_Priority (prepare_order today n m))"
    using prepared_fields(7) [of today n m] by (auto simp: int64_range_def)
  ultimately show ?thesis
    using assms(3) t total_is_float64 [OF t] by (auto simp: FromInternalToPublishOrder_def go_order_def go_item_def)
qed

lemma accepted_message:
  assumes "acceptable m" "\<forall>it \<in> set (co_Items m). cent_item cs it"
    and "order_message cfg ctx (prepare_order today n m) c"
  shows "\<exists>key p msg. c = Publish (rm_OrderExchange cfg) key p \<and> ToInternalOrder (Some (p_Body p)) = Inr msg
    \<and> om_OrderNumber msg = co_Number (prepare_order today n m) \<and> om_OrderType msg = co_Type m"
proof -
  obtain msg where msg: "FromInternalToPublishOrder ctx (Some (prepare_order today n m)) = Some msg"
    by (simp add: FromInternalToPublishOrder_def)
  obtain v where "marshal_order msg = Some v" "ToInternalOrder (Some v) = Inr msg"
    using ToInternalOrder_marshal [OF accepted_go_order [OF assms(1,2) msg]] by blast
  with assms(3) msg show ?thesis by (auto simp: order_message_def order_publishing_def FromInternalToPublishOrder_def)
qed

section \<open>From the request to the printed notification\<close>

text \<open>
  C1. The life of an order when nothing goes wrong: database and broker are up and stay up, a slot
  is free, at least one publish attempt is configured, the request passes validation, its prices are whole
  cents and its texts are texts PostgreSQL takes, the day's next number fits its column and belongs to no order
  yet, and the worker is registered and not stopping. Then the request is stored as
  received and sent as one message; the kitchen worker that takes this message cooks the
  order for its cooking time, leaves it ready with the history received, cooking, ready,
  counts it once, announces two changes and acknowledges the message; and a subscriber whose
  broker is up and that takes the two announcements prints first the change to cooking and then the change to
  ready, with the number of the order and the name of the worker.
\<close>

theorem order_lifecycle:
  assumes "quiet w" "wf_db (db w)" "\<not> conn_closed w" "fst (TryAcquire freed (sv_sem s))"
    and "cfg = cf_RabbitMQ (sv_cfg s)" "0 < rm_ReconnectAttempt cfg" "pg_rounds pg"
    and "acceptable m" "\<forall>it \<in> set (co_Items m). cent_item cs it"
    and "number = last_sequence (db w) (todayDate (clock w)) + 1" "int4 number"
    and "order_status (db w) (co_Number (SetNumber (todayDate (clock w)) number m)) = None"
    and "n = co_Number (SetNumber (todayDate (clock w)) number m)"
    and "\<not> kw_stopping k" "name = wr_name (kw_worker k)" "orders_processed_by (db w) name = Some before" "int4 (before + 1)"
    and "quiet wn" "\<not> conn_closed wn" "text_ok m"
  shows "\<exists>info s' w1 key p ctx' w2 p1 p2 sub' wn'.
      CreateOrder_svc (order_deps_impl pg cfg) freed draw ctx m s w = (Inr info, s', w1)
    \<and> oi_Number info = n \<and> order_status (db w1) n = Some StatusOrderReceived
    \<and> amqp w1 = amqp w @ [Publish (rm_OrderExchange cfg) key p]
    \<and> handle_delivery (processOrderWrapper (kitchen_deps_impl cfg)) tag (Some (p_Body p)) None k w1 = (ctx', k, w2)
    \<and> order_status (db w2) = (order_status (db w))(n \<mapsto> StatusOrderReady)
    \<and> order_history (db w2) n = [StatusOrderReceived, StatusOrderCooking, StatusOrderReady]
    \<and> orders_processed_by (db w2) name = Some (before + 1)
    \<and> clock w1 + GetSimulateCookingDuration (co_Type m) \<le> clock w2
    \<and> amqp w2 = amqp w1 @ [Publish (rm_NotificationsExchange cfg) [] p1, Publish (rm_NotificationsExchange cfg) [] p2, Ack tag]
    \<and> Notify q [NMsg t1 (Some (p_Body p1)), NMsg t2 (Some (p_Body p2))] sub wn =
        ([], [''Notification for order '' @ n @ '': Status changed from 'received' to 'cooking' by '' @ name,
              ''Notification for order '' @ n @ '': Status changed from 'cooking' to 'ready' by '' @ name], sub', wn')"
proof -
  let ?req = "prepare_order (todayDate (clock w)) number m"
  obtain info s' w1 c where 1: "CreateOrder_svc (order_deps_impl pg cfg) freed draw ctx m s w = (Inr info, s', w1)"
    "oi_Number info = n" "quiet w1" "\<not> conn_closed w1" "workers (db w1) = workers (db w)"
    "order_message cfg ctx ?req c" "amqp w1 = amqp w @ [c]"
    using CreateOrder_live [OF assms(1-12,20)] assms(13) by blast
  have st: "wf_db (db w1)" "order_status (db w1) = (order_status (db w))(n \<mapsto> StatusOrderReceived)"
    "order_history (db w1) n = [StatusOrderReceived]"
    using CreateOrder_stored [OF assms(2,5) 1(1)] 1(2) by auto
  obtain key p msg where c: "c = Publish (rm_OrderExchange cfg) key p" "ToInternalOrder (Some (p_Body p)) = Inr msg"
    "om_OrderNumber msg = n" "om_OrderType msg = co_Type m"
    using accepted_message [OF assms(8,9) 1(6)] assms(13) by auto
  have b: "orders_processed_by (db w1) name = Some before"
    using assms(16) 1(5) by (simp add: orders_processed_by_def find_worker_def)
  obtain ctx' w2 t t' cp m1 m2 where 2:
    "handle_delivery (processOrderWrapper (kitchen_deps_impl cfg)) tag (Some (p_Body p)) None k w1 = (ctx', k, w2)"
    "amqp w2 = amqp w1 @ [m1, m2, Ack tag]" "order_status (db w2) = (order_status (db w1))(n \<mapsto> StatusOrderReady)"
    "order_history (db w2) n = order_history (db w1) n @ [StatusOrderCooking, StatusOrderReady]"
    "orders_processed_by (db w2) name = Some (before + 1)"
    "status_message cfg (cooking_update n StatusOrderReceived StatusOrderCooking name t cp ctx') m1"
    "status_message cfg (cooking_update n StatusOrderCooking StatusOrderReady name t' cp ctx') m2"
    "clock w1 + GetSimulateCookingDuration (om_OrderType msg) \<le> clock w2"
    using delivery_live [OF 1(3) st(1) 1(4) assms(14) c(2) c(3) [symmetric] assms(15) _ b assms(17),
        where old = StatusOrderReceived and cfg = cfg and tag = tag and ctx = None] st(2) by auto
  obtain p1 p2 where pp: "m1 = Publish (rm_NotificationsExchange cfg) [] p1" "m2 = Publish (rm_NotificationsExchange cfg) [] p2"
    "p_Body p1 = marshal_status_update (cooking_update n StatusOrderReceived StatusOrderCooking name t cp ctx')"
    "p_Body p2 = marshal_status_update (cooking_update n StatusOrderCooking StatusOrderReady name t' cp ctx')"
    using 2(6,7) by (auto simp: status_message_def status_publishing_def)
  obtain sub' wn' where "Notify q (map (\<lambda>x. NMsg (fst x) (snd x)) [(t1, Some (p_Body p1)), (t2, Some (p_Body p2))]) sub wn
      = ([], map notify_line (concat (map update_of [(t1, Some (p_Body p1)), (t2, Some (p_Body p2))])), sub', wn')"
    using Notify_live [OF assms(18,19)] by blast
  then have "Notify q [NMsg t1 (Some (p_Body p1)), NMsg t2 (Some (p_Body p2))] sub wn =
        ([], [''Notification for order '' @ n @ '': Status changed from 'received' to 'cooking' by '' @ name,
              ''Notification for order '' @ n @ '': Status changed from 'cooking' to 'ready' by '' @ name], sub', wn')"
    by (simp add: pp(3,4) update_of_def decode_marshal_update notify_line_def cooking_update_def quoted_def status_defs)
  with 1(1,2,7) st 2 c(1,4) pp(1,2) show ?thesis by fastforce
qed

definition staffed_world :: world where
  "staffed_world = (start_world [])\<lparr>db := (db (start_world []))\<lparr>workers := workers (db kitchen_world)\<rparr>\<rparr>"

lemma staffed_world_facts:
  "quiet staffed_world" "wf_db (db staffed_world)" "\<not> conn_closed staffed_world"
  "1 = last_sequence (db staffed_world) d + 1" "order_status (db staffed_world) o_n = None"
  "orders_processed_by (db staffed_world) ''chef'' = Some 4" "clock staffed_world = 0"
  by (simp_all add: staffed_world_def kitchen_world_def quiet_def start_world_def last_sequence_def empty_db_def
      order_status_def find_order_def wf_db_def orders_processed_by_def find_worker_def)

theorem order_lifecycle_witness:
  "\<exists>info s' w1 key p ctx' w2 (p1 :: publishing) (p2 :: publishing) sub' wn'.
      CreateOrder_svc (order_deps_impl example_codec example_rabbit) False 0 (Some ''r1'') example_order example_service staffed_world
        = (Inr info, s', w1)
    \<and> amqp w1 = [Publish ''orders_topic'' key p]
    \<and> handle_delivery (processOrderWrapper (kitchen_deps_impl example_rabbit)) 1 (Some (p_Body p)) None example_kitchen w1 = (ctx', example_kitchen, w2)
    \<and> order_history (db w2) ''ORD_19700101_001'' = [''received'', ''cooking'', ''ready'']
    \<and> Notify ''q'' [NMsg 1 (Some (p_Body p1)), NMsg 2 (Some (p_Body p2))] (NewNotificationSubscriber example_rabbit) (start_world []) =
        ([], [''Notification for order ORD_19700101_001: Status changed from 'received' to 'cooking' by chef'',
              ''Notification for order ORD_19700101_001: Status changed from 'cooking' to 'ready' by chef''], sub', wn')"
proof -
  have n: "''ORD_19700101_001'' = co_Number (SetNumber (todayDate (clock staffed_world)) 1 example_order)"
    by (simp add: staffed_world_facts(7) SetNumber_def Let_def todayDate_examples(1)) code_simp
  have i: "int4 (4 + 1)" by (simp add: int4_def)
  have e: "amqp staffed_world = []" "rm_OrderExchange example_rabbit = ''orders_topic''"
    by (simp_all add: staffed_world_def start_world_def example_rabbit_def)
  show ?thesis
    using order_lifecycle [OF staffed_world_facts(1-3) example_service_facts(4-6) example_codec_rounds example_acceptable
        example_cent_items(1) staffed_world_facts(4) example_service_facts(8) staffed_world_facts(5) n example_kitchen_facts(2)
        example_kitchen_facts(1) [symmetric] staffed_world_facts(6) i example_service_facts(1,3) example_text,
        where tag = 1 and draw = 0 and ctx = "Some ''r1''" and q = "''q''" and ?t1.0 = 1 and ?t2.0 = 2 and
          sub = "NewNotificationSubscriber example_rabbit"]
    unfolding e status_defs append.simps by (elim exE conjE) (intro exI conjI; assumption)
qed

end
