(* ===== verification/Server.thy ===== *)
theory Server
  imports Http Logging
begin

text \<open>
  The HTTP server as a whole: a request goes through the middleware of request identifiers and the
  logging middleware to the handler its route names. The handlers are written against
  the interface of response writers; its contract is a locale, met by the writer of the
  server and by the wrapper of the logging middleware.
\<close>

section \<open>The contract of response writers\<close>

text \<open>\<open>base w\<close> is what reaches the client through the writer \<open>w\<close>.\<close>

locale response_writing =
  fixes rw :: "'w response_writer" and base :: "'w \<Rightarrow> http_writer"
  assumes base_Header_Set [simp]: "base (rw_Header_Set rw k v w) = Header_Set k v (base w)"
    and base_WriteHeader [simp]: "base (rw_WriteHeader rw n w) = WriteHeader n (base w)"
    and base_Write [simp]: "base (rw_Write rw b w) = Write b (base w)"
begin

lemma base_headers: "base (fold (\<lambda>(k, v). rw_Header_Set rw k v) hs w) = fold (\<lambda>(k, v). Header_Set k v) hs (base w)"
  by (induction hs arbitrary: w) auto

lemma base_writeJSON:
  "fst (writeJSON rw n d hs w) = fst (writeJSON net_writer n d hs (base w))"
  "base (snd (writeJSON rw n d hs w)) = snd (writeJSON net_writer n d hs (base w))"
  by (simp_all add: writeJSON_def base_headers split: option.split)

lemma base_errorResponse: "base (errorResponse rw n m w) = errorResponse net_writer n m (base w)"
  by (simp add: errorResponse_def writeJSON_def)

lemma base_handler_CreateOrder:
  "apfst base (handler_CreateOrder rw service body w s) = handler_CreateOrder net_writer service body (base w) s"
  by (auto simp: handler_CreateOrder_def failedValidationResponse_def internalErrorResponse_def base_errorResponse Let_def
      writeJSON_def split: sum.split prod.split option.split)

lemma base_answer: "apfst base (answer rw enc r w) = answer net_writer enc r (base w)"
  by (auto simp: answer_def base_errorResponse split: sum.split prod.split)

end

text \<open>A writer that keeps the status it has sent; \<open>sent\<close> is what it remembers.\<close>

locale status_keeping = response_writing rw base for rw :: "'w response_writer" and base +
  fixes sent :: "'w \<Rightarrow> nat"
  assumes sent_Header_Set [simp]: "sent (rw_Header_Set rw k v w) = sent w"
    and sent_WriteHeader [simp]: "sent (rw_WriteHeader rw n w) = n"
    and sent_Write [simp]: "sent (rw_Write rw b w) = (if sent w = 0 then 200 else sent w)"
begin

definition honest :: "'w \<Rightarrow> bool" where
  "honest w \<longleftrightarrow> sent w = hw_status (base w)"

lemma honest_errorResponse:
  "hw_status (base w) = 0 \<Longrightarrow> n \<noteq> 0 \<Longrightarrow> honest (errorResponse rw n m w)"
  by (simp add: honest_def errorResponse_def writeJSON_def)

lemma honest_handler_CreateOrder:
  assumes "hw_status (base w) = 0"
  shows "honest (fst (handler_CreateOrder rw service body w s))"
  using assms honest_errorResponse [OF assms]
  by (auto simp: handler_CreateOrder_def failedValidationResponse_def internalErrorResponse_def Let_def http_status_defs
      writeJSON_def honest_def split: sum.split prod.split option.split)

lemma honest_answer:
  assumes "hw_status (base w) = 0" "sent w = 0"
  shows "honest (fst (answer rw enc r w))"
  using assms honest_errorResponse [OF assms(1)]
  by (auto simp: answer_def getCode_def http_status_defs honest_def split: sum.split prod.split)

end

interpretation net: response_writing net_writer id
  by unfold_locales simp_all

interpretation logged: status_keeping wrapper fst snd
  by unfold_locales (simp_all add: wrapper_def wrapper_WriteHeader_def wrapper_Write_def)

section \<open>The server\<close>

record http_request =
  rq_Method :: string
  rq_Path :: "string list"
  rq_URL :: string
  rq_Host :: string
  rq_XRequestID :: string
  rq_Body :: http_body

text \<open>\<^verbatim>\<open>http.Error\<close>, which the multiplexer uses for paths and methods without a pattern.\<close>

definition http_Error :: "'w response_writer \<Rightarrow> string \<Rightarrow> nat \<Rightarrow> 'w \<Rightarrow> 'w" where
  "http_Error rw text code w =
     rw_Write rw (JStr text) (rw_WriteHeader rw code
       (rw_Header_Set rw ''X-Content-Type-Options'' ''nosniff''
         (rw_Header_Set rw ''Content-Type'' ''text/plain; charset=utf-8'' w)))"

text \<open>The services behind the handlers: order intake under a context, and the tracking service.\<close>

record 'o backend =
  be_CreateOrder :: "string option \<Rightarrow> CreateOrder \<Rightarrow> 'o \<times> world \<Rightarrow> OrderCreatedInfo result \<times> 'o \<times> world"
  be_tracking :: tracking_deps
  be_heartbeat :: int

definition with_world :: "(world \<Rightarrow> 'w \<times> world) \<Rightarrow> 'o \<times> world \<Rightarrow> 'w \<times> 'o \<times> world" where
  "with_world f s = (case f (snd s) of (w, s') \<Rightarrow> (w, fst s, s'))"

definition serve_mux :: "'w response_writer \<Rightarrow> API \<Rightarrow> 'o backend \<Rightarrow> http_request \<Rightarrow> string \<Rightarrow> 'w \<Rightarrow> 'o \<times> world \<Rightarrow> 'w \<times> 'o \<times> world" where
  "serve_mux rw api be req reqID w s =
     (case setupRoutes (api_mode api) (rq_Method req) (rq_Path req) of
        RHealth \<Rightarrow> (HealthCheck rw (api_addr api) w, s)
      | RCreateOrder \<Rightarrow> handler_CreateOrder rw (be_CreateOrder be (Some reqID)) (rq_Body req) w s
      | ROrderStatus n \<Rightarrow> with_world (handler_GetOrderStatus rw (be_tracking be) n w) s
      | ROrderHistory n \<Rightarrow> with_world (handler_GetTrackingHistory rw (be_tracking be) n w) s
      | RWorkers \<Rightarrow> with_world (handler_ListWorkers rw (be_tracking be) (be_heartbeat be) w) s
      | RNotFound \<Rightarrow> (http_Error rw ''404 page not found'' 404 w, s)
      | RMethodNotAllowed \<Rightarrow> (http_Error rw ''Method Not Allowed'' 405 w, s))"

definition ActionRequestReceived :: string where
  "ActionRequestReceived = ''request_received''"

text \<open>\<open>start\<close> and \<open>finish\<close> are the instants before and after the handler. The last component is what is logged.\<close>

definition RequestLoggingMiddleware ::
  "logger \<Rightarrow> instant \<Rightarrow> instant \<Rightarrow> http_request \<Rightarrow> string \<Rightarrow> (http_writer \<times> nat \<Rightarrow> 's \<Rightarrow> (http_writer \<times> nat) \<times> 's)
    \<Rightarrow> http_writer \<Rightarrow> 's \<Rightarrow> http_writer \<times> 's \<times> json list" where
  "RequestLoggingMiddleware l start finish req reqID next w s =
     (let started = Debug l (Some reqID) start ActionRequestReceived ''started''
            [Text ''method'', Text (rq_Method req), Text ''URL'', Text (rq_URL req), Text ''request-host'', Text (rq_Host req)]
      in case next (w, 0) s of
           (rw, s') \<Rightarrow>
             (fst rw, s', started @ Debug l (Some reqID) finish ActionRequestReceived ''completed''
               [Text ''method'', Text (rq_Method req), Text ''URL'', Text (rq_URL req),
                Text ''status'', Val (JInt (int (snd rw))), Text ''duration'', Val (JInt (finish - start))]))"

definition withMiddleware ::
  "logger \<Rightarrow> instant \<Rightarrow> instant \<Rightarrow> nat list option \<Rightarrow> API \<Rightarrow> 'o backend \<Rightarrow> http_request \<Rightarrow> 'o \<times> world
    \<Rightarrow> http_writer \<times> ('o \<times> world) \<times> json list" where
  "withMiddleware l start finish draw api be req s =
     RequestIDMiddleware (rq_XRequestID req) draw start
       (\<lambda>reqID w. RequestLoggingMiddleware l start finish req reqID (serve_mux wrapper api be req reqID) w s) new_writer"

section \<open>The wrapper is transparent and logs what was sent\<close>

lemma with_world_apfst: "apfst f (with_world g s) = with_world (\<lambda>x. apfst f (g x)) s"
  by (simp add: with_world_def split: prod.split)

lemma fst_with_world: "fst (with_world g s) = fst (g (snd s))"
  by (simp add: with_world_def split: prod.split)

lemma tracking_handler_defs:
  "handler_GetOrderStatus rw deps n w = (\<lambda>s. answer rw enc_OrderStatus (GetOrderStatus deps n s) w)"
  "handler_GetTrackingHistory rw deps n w = (\<lambda>s. answer rw (\<lambda>hs. JArr (map enc_OrderHistory hs)) (GetTrackingHistory deps n s) w)"
  "handler_ListWorkers rw deps hb w = (\<lambda>s. answer rw (\<lambda>ws. JArr (map enc_Worker ws)) (ListWorkers deps hb s) w)"
  by (simp_all add: fun_eq_iff handler_GetOrderStatus_def handler_GetTrackingHistory_def handler_ListWorkers_def)

context response_writing
begin

lemma base_serve_mux:
  "apfst base (serve_mux rw api be req reqID w s) = serve_mux net_writer api be req reqID (base w) s"
  by (cases "setupRoutes (api_mode api) (rq_Method req) (rq_Path req)")
    (simp_all add: serve_mux_def with_world_apfst base_handler_CreateOrder base_answer tracking_handler_defs
      HealthCheck_def http_Error_def)

end

context status_keeping
begin

lemma honest_serve_mux:
  assumes "hw_status (base w) = 0" "sent w = 0"
  shows "honest (fst (serve_mux rw api be req reqID w s))"
  using assms
  by (cases "setupRoutes (api_mode api) (rq_Method req) (rq_Path req)")
    (simp_all add: serve_mux_def fst_with_world honest_handler_CreateOrder honest_answer tracking_handler_defs
      HealthCheck_def http_Error_def honest_def [of "rw_Write _ _ _"])

end

section \<open>What a request gets\<close>

lemma errorResponse_header: "k \<noteq> ''Content-Type'' \<Longrightarrow> map_of (hw_header (errorResponse net_writer n m w)) k = map_of (hw_header w) k"
  by (simp add: errorResponse_def writeJSON_def)

lemma serve_mux_header:
  assumes "k \<noteq> ''Content-Type''" "k \<noteq> ''X-Content-Type-Options''"
  shows "map_of (hw_header (fst (serve_mux net_writer api be req reqID w s))) k = map_of (hw_header w) k"
  using assms
  by (cases "setupRoutes (api_mode api) (rq_Method req) (rq_Path req)")
    (auto simp: serve_mux_def fst_with_world tracking_handler_defs HealthCheck_def http_Error_def answer_def
      handler_CreateOrder_def failedValidationResponse_def internalErrorResponse_def Let_def writeJSON_def errorResponse_header
      split: sum.split prod.split option.split)

lemma errorResponse_status: "hw_status w = 0 \<Longrightarrow> n \<noteq> 0 \<Longrightarrow> hw_status (errorResponse net_writer n m w) = n"
  by (simp add: errorResponse_def writeJSON_def)

lemma serve_mux_answers:
  assumes "hw_status w = 0"
  shows "hw_status (fst (serve_mux net_writer api be req reqID w s)) \<noteq> 0"
  using assms errorResponse_status [OF assms]
  by (cases "setupRoutes (api_mode api) (rq_Method req) (rq_Path req)")
    (auto simp: serve_mux_def fst_with_world tracking_handler_defs HealthCheck_def http_Error_def answer_def getCode_def
      handler_CreateOrder_def failedValidationResponse_def internalErrorResponse_def Let_def writeJSON_def http_status_defs
      split: sum.split prod.split option.split)

lemma Debug_enabled: "Enabled (InitLogger service lvl host) (- 4) \<longleftrightarrow> lvl = LevelDebug"
  by (auto simp: Enabled_def InitLogger_def slog_level_def LevelDebug_def LevelInfo_def LevelWarn_def LevelError_def)

text \<open>
  C40. Every request is answered, identified and logged: whatever the route, the method and the
  services do, the client gets exactly what the handler of the route writes, with the request
  identifier echoed and a status; and at level DEBUG the log holds two entries with that
  identifier, the second with the status the client got and the time taken, at any other
  level none.
\<close>

theorem request_served:
  "\<exists>reqID w' s' log. withMiddleware (InitLogger service lvl host) start finish draw api be req s = (w', s', log)
    \<and> reqID = (if rq_XRequestID req = [] then newRequestID draw start else rq_XRequestID req)
    \<and> (w', s') = serve_mux net_writer api be req reqID (Header_Set ''X-Request-ID'' reqID new_writer) s
    \<and> map_of (hw_header w') ''X-Request-ID'' = Some reqID \<and> hw_status w' \<noteq> 0
    \<and> (if lvl = LevelDebug
       then \<exists>e1 e2. log = [e1, e2]
         \<and> map_of (members e1) ''message'' = Some (JStr ''started'') \<and> map_of (members e1) ''request_id'' = Some (JStr reqID)
         \<and> map_of (members e2) ''message'' = Some (JStr ''completed'') \<and> map_of (members e2) ''request_id'' = Some (JStr reqID)
         \<and> map_of (members e2) ''status'' = Some (JInt (int (hw_status w')))
         \<and> map_of (members e2) ''duration'' = Some (JInt (finish - start))
       else log = [])"
proof -
  define reqID where "reqID = (if rq_XRequestID req = [] then newRequestID draw start else rq_XRequestID req)"
  let ?w = "Header_Set ''X-Request-ID'' reqID new_writer" and ?l = "InitLogger service lvl host"
  obtain rw s' where m: "serve_mux wrapper api be req reqID (?w, 0) s = (rw, s')" by (rule prod.exhaust)
  have net: "serve_mux net_writer api be req reqID ?w s = (fst rw, s')"
    using logged.base_serve_mux [of api be req reqID "(?w, 0)" s] m by simp
  have st: "snd rw = hw_status (fst rw)"
    using logged.honest_serve_mux [of "(?w, 0)" api be req reqID s] m by (simp add: logged.honest_def)
  have "map_of (hw_header (fst rw)) ''X-Request-ID'' = Some reqID" "hw_status (fst rw) \<noteq> 0"
    using serve_mux_header [of "''X-Request-ID''" api be req reqID ?w s] serve_mux_answers [of ?w api be req reqID s] net
    by simp_all
  then show ?thesis
    using m net st
    by (auto simp: withMiddleware_def RequestIDMiddleware_def RequestLoggingMiddleware_def reqID_def [symmetric] Debug_def
        log_plain_def log_at_def Debug_enabled Handle_def)
qed

end
