(* ===== verification/Interleaving.thy ===== *)
theory Interleaving
  imports Order_Intake Kitchen_Delivery
begin

text \<open>
  The order service and the kitchen workers running concurrently. Creating and processing an
  order are cut into their calls to the database and the broker, and the calls of any
  number of requests and deliveries interleave. Run without interruption the calls make up the
  functions of \<^verbatim>\<open>services/order\<close> and \<^verbatim>\<open>services/kitchen\<close>; interleaved in any way they announce only
  what the database has recorded.
\<close>

section \<open>Counting threads\<close>

lemma finite_counted: "finite (dom f) \<Longrightarrow> \<not> P None \<Longrightarrow> finite {j. P (f j)}"
  by (rule rev_finite_subset) (auto intro: ccontr)

lemma card_counted_upd:
  assumes "finite (dom f)" "\<not> P None"
  shows "card {j. P ((f(i := x)) j)} = card {j. P (f j)} - (if P (f i) then 1 else 0) + (if P x then 1 else 0)"
    and "P (f i) \<Longrightarrow> 0 < card {j. P (f j)}"
proof -
  note fin = finite_counted [of f P, OF assms]
  show pos: "P (f i) \<Longrightarrow> 0 < card {j. P (f j)}" using fin by (auto simp: card_gt_0_iff)
  have "{j. P ((f(i := x)) j)} = (if P x then insert i {j. P (f j)} else {j. P (f j)} - {i})" by auto
  then show "card {j. P ((f(i := x)) j)} = card {j. P (f j)} - (if P (f i) then 1 else 0) + (if P x then 1 else 0)"
    using fin pos by (auto simp: card_Diff_singleton_if card_insert_if insert_absorb)
qed

section \<open>Processing an order, call by call\<close>

text \<open>Where \<^verbatim>\<open>proccessOrder\<close> stands: old status and instants are its local variables.\<close>

datatype cook = Start_Cooking | Tell_Cooking string instant | Wait_Cooking instant | Set_Ready instant
  | Tell_Ready string instant instant | Count_Order | Cooked "err option"

fun cook_step :: "kitchen_deps \<Rightarrow> string \<Rightarrow> string option \<Rightarrow> CreateOrder \<Rightarrow> cook \<Rightarrow> world \<Rightarrow> cook \<times> world" where
  "cook_step deps name ctx req Start_Cooking w =
     (case kd_SetStatus deps (co_Number req) name StatusOrderCooking [] w of
        (Inl e, w1) \<Rightarrow> (Cooked (Some (errorf_w ''failed to set cooking status for order : '' e)), w1)
      | (Inr old, w1) \<Rightarrow> (Tell_Cooking old (clock w1), w1))"
| "cook_step deps name ctx req (Tell_Cooking old t) w =
     (let completion = t + GetSimulateCookingDuration (co_Type req) in
      (Wait_Cooking completion,
       snd (kd_StatusUpdate deps (cooking_update (co_Number req) old StatusOrderCooking name t completion ctx) w)))"
| "cook_step deps name ctx req (Wait_Cooking completion) w =
     (Set_Ready completion, snd (wait_or_done (GetSimulateCookingDuration (co_Type req)) w))"
| "cook_step deps name ctx req (Set_Ready completion) w =
     (case kd_SetStatus deps (co_Number req) name StatusOrderReady [] w of
        (Inl e, w1) \<Rightarrow> (Cooked (Some (errorf_w ''failed to set ready status for order: '' e)), w1)
      | (Inr old, w1) \<Rightarrow> (Tell_Ready old (clock w1) completion, w1))"
| "cook_step deps name ctx req (Tell_Ready old t completion) w =
     (Count_Order,
      snd (kd_StatusUpdate deps (cooking_update (co_Number req) old StatusOrderReady name t completion ctx) w))"
| "cook_step deps name ctx req Count_Order w = (Cooked None, snd (kd_IncrOrdersProcessed deps name w))"
| "cook_step deps name ctx req (Cooked r) w = (Cooked r, w)"

fun cook_run :: "kitchen_deps \<Rightarrow> string \<Rightarrow> string option \<Rightarrow> CreateOrder \<Rightarrow> nat \<Rightarrow> cook \<Rightarrow> world \<Rightarrow> cook \<times> world" where
  "cook_run deps name ctx req 0 p w = (p, w)"
| "cook_run deps name ctx req (Suc n) p w =
     (case cook_step deps name ctx req p w of (p', w') \<Rightarrow> cook_run deps name ctx req n p' w')"

lemma cook_run_done [simp]: "cook_run deps name ctx req n (Cooked r) w = (Cooked r, w)"
  by (induction n) auto

lemma cook_run_processes:
  assumes "proccessOrder deps s ctx (Some req) w = (r, w')"
  shows "cook_run deps (wr_name (kw_worker s)) ctx req 6 Start_Cooking w = (Cooked r, w')"
  using assms by (auto simp: proccessOrder_def Let_def numeral_eq_Suc split: prod.splits sum.splits)

section \<open>Creating an order, call by call\<close>

datatype intake = Take_Number | Store CreateOrder | Send nat "err option" CreateOrder Order
  | Answered "OrderCreatedInfo result"

abbreviation created_info :: "Order \<Rightarrow> OrderCreatedInfo" where
  "created_info order \<equiv> \<lparr>oi_Number = or_Number order, oi_Status = or_Status order, oi_TotalAmount = or_TotalAmount order\<rparr>"

fun intake_step :: "order_deps \<Rightarrow> RabbitMQ_cfg \<Rightarrow> string option \<Rightarrow> nat \<Rightarrow> CreateOrder \<Rightarrow> intake \<Rightarrow> world \<Rightarrow> intake \<times> world" where
  "intake_step deps cfg ctx draw req Take_Number w =
     (let today = todayDate (clock w) in
      case od_GetAndIncrementSequence deps today w of
        (seq, w1) \<Rightarrow>
          (Store (prepare_order today (case seq of Inr v \<Rightarrow> v | Inl _ \<Rightarrow> getRandomOrderNumber draw) req), w1))"
| "intake_step deps cfg ctx draw req (Store req1) w =
     (case od_Create deps req1 servicename [] w of
        (Inl e, w1) \<Rightarrow> (Answered (Inl (errorf_w ''failed to create new order: '' e)), w1)
      | (Inr order, w1) \<Rightarrow> (Send (nat (rm_ReconnectAttempt cfg)) None req1 order, w1))"
| "intake_step deps cfg ctx draw req (Send 0 err req1 order) w =
     (Answered (case err of Some e \<Rightarrow> Inl (errorf_w ''failed to publish order: '' e) | None \<Rightarrow> Inr (created_info order)), w)"
| "intake_step deps cfg ctx draw req (Send (Suc k) err req1 order) w =
     (case od_PublishCreateOrder deps ctx (Some req1) w of
        (None, w1) \<Rightarrow> (Answered (Inr (created_info order)), w1)
      | (Some e, w1) \<Rightarrow> (Send k (Some e) req1 order, if k = 0 then w1 else sleep (rm_ReconnectDelay cfg) w1))"
| "intake_step deps cfg ctx draw req (Answered r) w = (Answered r, w)"

fun intake_run :: "order_deps \<Rightarrow> RabbitMQ_cfg \<Rightarrow> string option \<Rightarrow> nat \<Rightarrow> CreateOrder \<Rightarrow> nat \<Rightarrow> intake \<Rightarrow> world \<Rightarrow> intake \<times> world" where
  "intake_run deps cfg ctx draw req 0 p w = (p, w)"
| "intake_run deps cfg ctx draw req (Suc n) p w =
     (case intake_step deps cfg ctx draw req p w of (p', w') \<Rightarrow> intake_run deps cfg ctx draw req n p' w')"

lemma intake_run_done [simp]: "intake_run deps cfg ctx draw req n (Answered r) w = (Answered r, w)"
  by (induction n) auto

lemma intake_run_sends:
  "order_retry k (rm_ReconnectDelay cfg) (od_PublishCreateOrder deps ctx (Some req1)) err w = (r, w') \<Longrightarrow> k < n \<Longrightarrow>
     intake_run deps cfg ctx draw req n (Send k err req1 order) w =
       (Answered (case r of Some e \<Rightarrow> Inl (errorf_w ''failed to publish order: '' e) | None \<Rightarrow> Inr (created_info order)), w')"
proof (induction n arbitrary: k err w)
  case (Suc n)
  show ?case
  proof (cases k)
    case 0
    with Suc.prems show ?thesis by simp
  next
    case (Suc j)
    obtain r1 w1 where 1: "od_PublishCreateOrder deps ctx (Some req1) w = (r1, w1)" by fastforce
    with Suc.prems Suc Suc.IH [of j] show ?thesis by (cases r1) auto
  qed
qed simp

lemma intake_run_creates:
  assumes "create_with_slot deps cfg ctx draw req w = (r, w')"
  shows "intake_run deps cfg ctx draw req (nat (rm_ReconnectAttempt cfg) + 3) Take_Number w = (Answered r, w')"
proof -
  let ?today = "todayDate (clock w)"
  obtain seq w1 where 1: "od_GetAndIncrementSequence deps ?today w = (seq, w1)" by fastforce
  let ?req1 = "prepare_order ?today (case seq of Inr v \<Rightarrow> v | Inl _ \<Rightarrow> getRandomOrderNumber draw) req"
  obtain cr w2 where 2: "od_Create deps ?req1 servicename [] w1 = (cr, w2)" by fastforce
  have run: "intake_run deps cfg ctx draw req (nat (rm_ReconnectAttempt cfg) + 3) Take_Number w =
      intake_run deps cfg ctx draw req (nat (rm_ReconnectAttempt cfg) + 1)
        (fst (intake_step deps cfg ctx draw req (Store ?req1) w1)) (snd (intake_step deps cfg ctx draw req (Store ?req1) w1))"
    using 1 by (simp add: numeral_eq_Suc Let_def split: prod.split)
  show ?thesis
  proof (cases cr)
    case (Inl e)
    with assms 1 2 run show ?thesis by (simp add: create_with_slot_def Let_def)
  next
    case (Inr order)
    obtain pr w3 where 3: "order_retry (nat (rm_ReconnectAttempt cfg)) (rm_ReconnectDelay cfg)
        (od_PublishCreateOrder deps ctx (Some ?req1)) None w2 = (pr, w3)" by fastforce
    show ?thesis
      using assms 1 2 3 Inr run intake_run_sends [OF 3, of "nat (rm_ReconnectAttempt cfg) + 1" draw req order]
      by (cases pr) (simp_all add: create_with_slot_def retry_def Let_def)
  qed
qed

section \<open>The running system\<close>

text \<open>
  A thread is a request of the order service or a delivery to a worker. \<open>sy_order\<close> remembers which
  order a delivery was for; the tag, which the broker counts per channel, stands here for the
  channel and the delivery, so that it occurs once.
\<close>

datatype thread = Request "string option" nat CreateOrder intake
  | Processing nat string "string option" CreateOrder cook

record system =
  sy_world :: world
  sy_threads :: "nat \<Rightarrow> thread option"
  sy_order :: "nat \<Rightarrow> string option"

fun silent :: "amqp_cmd \<Rightarrow> bool" where
  "silent (Publish _ _ _) = False"
| "silent (Ack _) = False"
| "silent _ = True"

text \<open>Calls to the registry of workers.\<close>

fun registry_call :: "repo_call \<Rightarrow> bool" where
  "registry_call (RMarkOnline _ _ _) = True"
| "registry_call (RMarkOffline _) = True"
| "registry_call (RUpdateLastSeen _) = True"
| "registry_call (RIncrOrdersProcessed _) = True"
| "registry_call _ = False"

definition settlement :: "nat \<Rightarrow> err option \<Rightarrow> amqp_cmd" where
  "settlement tag r = (case r of None \<Rightarrow> Ack tag | Some e \<Rightarrow> Nack tag (isRecoverableError e))"

text \<open>
  A request arrives; a delivery arrives, and is processed or refused at once; a thread makes
  its next call; a worker settles a delivery it is done with; a worker calls the registry; or
  anything else happens that touches no table and publishes and acknowledges nothing: time
  passes, connections come and go, contexts end, queues are declared.
\<close>

inductive system_step :: "pg_codec \<Rightarrow> RabbitMQ_cfg \<Rightarrow> system \<Rightarrow> system \<Rightarrow> bool" for pg cfg where
  request: "sy_threads s i = None \<Longrightarrow>
    system_step pg cfg s (s\<lparr>sy_threads := (sy_threads s)(i \<mapsto> Request ctx draw m Take_Number)\<rparr>)"
| delivery: "sy_threads s i = None \<Longrightarrow> sy_order s tag = None \<Longrightarrow> p = Start_Cooking \<or> p = Cooked (Some e) \<Longrightarrow>
    system_step pg cfg s (s\<lparr>sy_threads := (sy_threads s)(i \<mapsto> Processing tag name ctx req p),
                           sy_order := (sy_order s)(tag \<mapsto> co_Number req)\<rparr>)"
| create: "sy_threads s i = Some (Request ctx draw m p) \<Longrightarrow>
    intake_step (order_deps_impl pg cfg) cfg ctx draw m p (sy_world s) = (p', w') \<Longrightarrow>
    system_step pg cfg s (s\<lparr>sy_world := w', sy_threads := (sy_threads s)(i \<mapsto> Request ctx draw m p')\<rparr>)"
| cook: "sy_threads s i = Some (Processing tag name ctx req p) \<Longrightarrow>
    cook_step (kitchen_deps_impl cfg) name ctx req p (sy_world s) = (p', w') \<Longrightarrow>
    system_step pg cfg s (s\<lparr>sy_world := w', sy_threads := (sy_threads s)(i \<mapsto> Processing tag name ctx req p')\<rparr>)"
| settle: "sy_threads s i = Some (Processing tag name ctx req (Cooked r)) \<Longrightarrow>
    system_step pg cfg s (s\<lparr>sy_world := settle (settlement tag r) (sy_world s), sy_threads := (sy_threads s)(i := None)\<rparr>)"
| registry: "registry_call c \<Longrightarrow> system_step pg cfg s (s\<lparr>sy_world := repo_exec pg c (sy_world s)\<rparr>)"
| environment: "db w' = db (sy_world s) \<Longrightarrow> amqp w' = amqp (sy_world s) @ cs \<Longrightarrow> list_all silent cs \<Longrightarrow>
    system_step pg cfg s (s\<lparr>sy_world := w'\<rparr>)"

definition idle_system :: "event list \<Rightarrow> system" where
  "idle_system es = \<lparr>sy_world = start_world es, sy_threads = Map.empty, sy_order = Map.empty\<rparr>"

section \<open>The code's functions are runs of the system\<close>

lemma request_runs:
  assumes "sy_threads s i = Some (Request ctx draw m p)"
    and "intake_run (order_deps_impl pg cfg) cfg ctx draw m n p (sy_world s) = (p', w')"
  shows "(system_step pg cfg)\<^sup>*\<^sup>* s (s\<lparr>sy_world := w', sy_threads := (sy_threads s)(i \<mapsto> Request ctx draw m p')\<rparr>)"
  using assms
proof (induction n arbitrary: s p)
  case 0
  then have "s\<lparr>sy_world := w', sy_threads := (sy_threads s)(i \<mapsto> Request ctx draw m p')\<rparr> = s" by (auto simp: fun_upd_idem)
  then show ?case by (metis rtranclp.rtrancl_refl)
next
  case (Suc n)
  obtain p1 w1 where 1: "intake_step (order_deps_impl pg cfg) cfg ctx draw m p (sy_world s) = (p1, w1)" by fastforce
  let ?s = "s\<lparr>sy_world := w1, sy_threads := (sy_threads s)(i \<mapsto> Request ctx draw m p1)\<rparr>"
  have "(system_step pg cfg)\<^sup>*\<^sup>* ?s (?s\<lparr>sy_world := w', sy_threads := (sy_threads ?s)(i \<mapsto> Request ctx draw m p')\<rparr>)"
    using Suc.prems 1 by (intro Suc.IH) simp_all
  from converse_rtranclp_into_rtranclp [OF system_step.create [OF Suc.prems(1) 1] this] show ?case by (simp del: fun_upd_apply)
qed

lemma cook_runs:
  assumes "sy_threads s i = Some (Processing tag name ctx req p)"
    and "cook_run (kitchen_deps_impl cfg) name ctx req n p (sy_world s) = (p', w')"
  shows "(system_step pg cfg)\<^sup>*\<^sup>* s (s\<lparr>sy_world := w', sy_threads := (sy_threads s)(i \<mapsto> Processing tag name ctx req p')\<rparr>)"
  using assms
proof (induction n arbitrary: s p)
  case 0
  then have "s\<lparr>sy_world := w', sy_threads := (sy_threads s)(i \<mapsto> Processing tag name ctx req p')\<rparr> = s" by (auto simp: fun_upd_idem)
  then show ?case by (metis rtranclp.rtrancl_refl)
next
  case (Suc n)
  obtain p1 w1 where 1: "cook_step (kitchen_deps_impl cfg) name ctx req p (sy_world s) = (p1, w1)" by fastforce
  let ?s = "s\<lparr>sy_world := w1, sy_threads := (sy_threads s)(i \<mapsto> Processing tag name ctx req p1)\<rparr>"
  have "(system_step pg cfg)\<^sup>*\<^sup>* ?s (?s\<lparr>sy_world := w', sy_threads := (sy_threads ?s)(i \<mapsto> Processing tag name ctx req p')\<rparr>)"
    using Suc.prems 1 by (intro Suc.IH) simp_all
  from converse_rtranclp_into_rtranclp [OF system_step.cook [OF Suc.prems(1) 1] this] show ?case by (simp del: fun_upd_apply)
qed

lemma create_with_slot_reachable:
  assumes "sy_threads s i = None" "create_with_slot (order_deps_impl pg cfg) cfg ctx draw m (sy_world s) = (r, w')"
  shows "(system_step pg cfg)\<^sup>*\<^sup>* s (s\<lparr>sy_world := w', sy_threads := (sy_threads s)(i \<mapsto> Request ctx draw m (Answered r))\<rparr>)"
proof -
  let ?s = "s\<lparr>sy_threads := (sy_threads s)(i \<mapsto> Request ctx draw m Take_Number)\<rparr>"
  have 1: "system_step pg cfg s ?s" by (rule system_step.request [OF assms(1)])
  have "(system_step pg cfg)\<^sup>*\<^sup>* ?s (?s\<lparr>sy_world := w', sy_threads := (sy_threads ?s)(i \<mapsto> Request ctx draw m (Answered r))\<rparr>)"
    by (rule request_runs) (use intake_run_creates [OF assms(2)] in simp_all)
  from converse_rtranclp_into_rtranclp [OF 1 this] show ?thesis by simp
qed

lemma proccessOrder_reachable:
  assumes "sy_threads s i = None" "sy_order s tag = None"
    and "proccessOrder (kitchen_deps_impl cfg) k ctx (Some req) (sy_world s) = (r, w')"
  shows "(system_step pg cfg)\<^sup>*\<^sup>* s (s\<lparr>sy_order := (sy_order s)(tag \<mapsto> co_Number req), sy_world := settle (settlement tag r) w'\<rparr>)"
proof -
  let ?name = "wr_name (kw_worker k)"
  let ?s = "s\<lparr>sy_threads := (sy_threads s)(i \<mapsto> Processing tag ?name ctx req Start_Cooking), sy_order := (sy_order s)(tag \<mapsto> co_Number req)\<rparr>"
  let ?s2 = "?s\<lparr>sy_world := w', sy_threads := (sy_threads ?s)(i \<mapsto> Processing tag ?name ctx req (Cooked r))\<rparr>"
  have 1: "system_step pg cfg s ?s" using assms(1,2) by (intro system_step.delivery) simp_all
  have 2: "(system_step pg cfg)\<^sup>*\<^sup>* ?s ?s2"
    by (rule cook_runs) (use cook_run_processes [OF assms(3)] in simp_all)
  have "sy_threads ?s2 i = Some (Processing tag ?name ctx req (Cooked r))" by simp
  from system_step.settle [OF this] have 3: "system_step pg cfg ?s2 (s\<lparr>sy_order := (sy_order s)(tag \<mapsto> co_Number req), sy_world := settle (settlement tag r) w'\<rparr>)"
    using assms(1) by (simp add: fun_upd_idem)
  from 1 2 3 show ?thesis by (meson converse_rtranclp_into_rtranclp rtranclp.rtrancl_into_rtrancl)
qed

section \<open>What is announced has been recorded\<close>

text \<open>A command to the broker that the tables justify.\<close>

definition justified :: "RabbitMQ_cfg \<Rightarrow> (nat \<Rightarrow> string option) \<Rightarrow> database \<Rightarrow> amqp_cmd \<Rightarrow> bool" where
  "justified cfg ords d c \<longleftrightarrow> silent c
     \<or> (\<exists>ctx req. order_message cfg ctx req c \<and> order_status d (co_Number req) \<noteq> None)
     \<or> (\<exists>u. status_message cfg u c \<and> su_NewStatus u \<in> set (order_history d (su_OrderNumber u)))
     \<or> (\<exists>tag n. c = Ack tag \<and> ords tag = Some n \<and> StatusOrderReady \<in> set (order_history d n))"

fun cook_ok :: "string list \<Rightarrow> cook \<Rightarrow> bool" where
  "cook_ok h (Tell_Cooking _ _) = (StatusOrderCooking \<in> set h)"
| "cook_ok h (Tell_Ready _ _ _) = (StatusOrderReady \<in> set h)"
| "cook_ok h Count_Order = (StatusOrderReady \<in> set h)"
| "cook_ok h (Cooked None) = (StatusOrderReady \<in> set h)"
| "cook_ok h _ = True"

fun thread_ok :: "(nat \<Rightarrow> string option) \<Rightarrow> database \<Rightarrow> thread \<Rightarrow> bool" where
  "thread_ok ords d (Request ctx draw m (Store req)) = (co_Status req = StatusOrderReceived)"
| "thread_ok ords d (Request ctx draw m (Send k e req ord)) = (order_status d (co_Number req) \<noteq> None)"
| "thread_ok ords d (Request ctx draw m _) = True"
| "thread_ok ords d (Processing tag name ctx req p) =
     (ords tag = Some (co_Number req) \<and> cook_ok (order_history d (co_Number req)) p)"

definition system_inv :: "RabbitMQ_cfg \<Rightarrow> system \<Rightarrow> bool" where
  "system_inv cfg s \<longleftrightarrow> wf_db (db (sy_world s))
     \<and> (\<forall>c \<in> set (amqp (sy_world s)). justified cfg (sy_order s) (db (sy_world s)) c)
     \<and> (\<forall>i t. sy_threads s i = Some t \<longrightarrow> thread_ok (sy_order s) (db (sy_world s)) t)"

lemma grows_history: "grows d d' \<Longrightarrow> x \<in> set (order_history d n) \<Longrightarrow> x \<in> set (order_history d' n)"
  unfolding grows_def by (meson set_mono_prefix subsetD)

lemma grows_refl: "wf_db d \<Longrightarrow> grows d d"
  by (simp add: grows_def)

lemma map_le_Some: "ords \<subseteq>\<^sub>m ords' \<Longrightarrow> ords tag = Some n \<Longrightarrow> ords' tag = Some n"
  by (auto simp: map_le_def dom_def)

lemma justified_grows:
  assumes "justified cfg ords d c" "grows d d'" "ords \<subseteq>\<^sub>m ords'"
  shows "justified cfg ords' d' c"
proof -
  have "order_status d n \<noteq> None \<Longrightarrow> order_status d' n \<noteq> None" for n using assms(2) by (simp add: grows_def)
  then show ?thesis
    using assms(1) grows_history [OF assms(2)] map_le_Some [OF assms(3)] unfolding justified_def by (elim disjE) blast+
qed

lemma thread_ok_grows: "thread_ok ords d t \<Longrightarrow> grows d d' \<Longrightarrow> ords \<subseteq>\<^sub>m ords' \<Longrightarrow> thread_ok ords' d' t"
proof (induction ords d t rule: thread_ok.induct)
  case (4 ords d tag name ctx req p)
  have "cook_ok (order_history d' (co_Number req)) p"
    using 4 grows_history [OF 4(2)] by (cases p) (auto split: option.splits elim!: cook_ok.elims)
  moreover have "ords' tag = Some (co_Number req)" using 4 map_le_Some [OF 4(3)] by simp
  ultimately show ?case by simp
qed (auto simp: grows_def)

text \<open>One step: the tables grow, the new commands are justified, the moved thread is in order.\<close>

lemma system_inv_step:
  assumes "system_inv cfg s" "grows (db (sy_world s)) (db w')" "sy_order s \<subseteq>\<^sub>m ords'"
    and "amqp w' = amqp (sy_world s) @ cs" "\<forall>c \<in> set cs. justified cfg ords' (db w') c"
    and "\<forall>t. x = Some t \<longrightarrow> thread_ok ords' (db w') t"
  shows "system_inv cfg (s\<lparr>sy_world := w', sy_threads := (sy_threads s)(i := x), sy_order := ords'\<rparr>)"
  using assms justified_grows [OF _ assms(2,3)] thread_ok_grows [OF _ assms(2,3)]
  unfolding system_inv_def by (auto simp: grows_def)

text \<open>What a call does: \<open>moved\<close> collects the three obligations of a step of a thread.\<close>

definition moved :: "RabbitMQ_cfg \<Rightarrow> (nat \<Rightarrow> string option) \<Rightarrow> world \<Rightarrow> world \<Rightarrow> thread \<Rightarrow> bool" where
  "moved cfg ords w w' t \<longleftrightarrow> grows (db w) (db w') \<and> thread_ok ords (db w') t
     \<and> (\<exists>cs. amqp w' = amqp w @ cs \<and> (\<forall>c \<in> set cs. justified cfg ords (db w') c))"

lemma moved_silent:
  "grows (db w) (db w') \<Longrightarrow> amqp w' = amqp w \<Longrightarrow> thread_ok ords (db w') t \<Longrightarrow> moved cfg ords w w' t"
  by (simp add: moved_def)

lemma moved_sends:
  "wf_db (db w) \<Longrightarrow> db w' = db w \<Longrightarrow> amqp w' = amqp w \<or> (\<exists>c. justified cfg ords (db w) c \<and> amqp w' = amqp w @ [c]) \<Longrightarrow>
     thread_ok ords (db w) t \<Longrightarrow> moved cfg ords w w' t"
  by (auto simp: moved_def grows_refl)

lemma intake_step_moves:
  assumes wf: "wf_db (db w)" and t: "thread_ok ords (db w) (Request ctx draw m p)"
    and st: "intake_step (order_deps_impl pg cfg) cfg ctx draw m p w = (p', w')"
  shows "moved cfg ords w w' (Request ctx draw m p')"
proof (cases p)
  case Take_Number
  obtain r w1 where 1: "GetAndIncrementSequence (todayDate (clock w)) w = (r, w1)" by fastforce
  have "grows (db w) (db w1)" using repo_exec_grows [OF wf, of "RSequence (todayDate (clock w))" pg] 1 by simp
  with st Take_Number 1 db_only_GetAndIncrementSequence [OF 1] show ?thesis
    by (auto simp: order_deps_impl_def Let_def db_only_def intro: moved_silent)
next
  case (Store req)
  obtain r w1 where 1: "Create pg req servicename [] w = (r, w1)" by fastforce
  have rc: "co_Status req = StatusOrderReceived" using t Store by simp
  have g: "grows (db w) (db w1)" using repo_exec_grows [OF wf, of "RCreate req servicename []" pg] 1 rc by simp
  show ?thesis
    using st Store 1 g db_only_Create [OF 1] pg_intake.create_ok [OF wf rc, of pg servicename "[]"]
    by (cases r) (auto simp: order_deps_impl_def db_only_def intro!: moved_silent)
next
  case (Send k e req ord)
  show ?thesis
  proof (cases k)
    case 0
    with st Send wf show ?thesis by (auto intro!: moved_silent grows_refl)
  next
    case (Suc j)
    obtain r w1 where 1: "PublishCreateOrder cfg ctx (Some req) w = (r, w1)" by fastforce
    have d: "db w' = db w" "amqp w' = amqp w1"
      using st Send Suc 1 PublishCreateOrder_db [OF 1] by (auto simp: order_deps_impl_def sleep_def split: option.splits if_splits)
    have "order_status (db w) (co_Number req) \<noteq> None" using t Send by simp
    then have "amqp w' = amqp w \<or> (\<exists>c. justified cfg ords (db w) c \<and> amqp w' = amqp w @ [c])"
      using PublishCreateOrder_outcome(3) [OF 1] d(2) unfolding justified_def by metis
    moreover have "thread_ok ords (db w) (Request ctx draw m p')"
      using st Send Suc 1 t by (auto simp: order_deps_impl_def split: option.splits)
    ultimately show ?thesis using moved_sends [OF wf d(1)] by blast
  qed
next
  case (Answered r)
  with st wf show ?thesis by (auto intro!: moved_silent grows_refl)
qed

lemma cook_step_sets:
  assumes wf: "wf_db (db w)" and 1: "SetStatus n name st [] w = (r, w1)"
  shows "grows (db w) (db w1)" "amqp w1 = amqp w" "r = Inr old \<Longrightarrow> st \<in> set (order_history (db w1) n)"
  using repo_exec_grows [OF wf, of "RSetStatus n name st []"] 1 db_only_SetStatus [OF 1] pg_store.set_ok [OF wf, of n name st "[]" old w1]
  by (auto simp: db_only_def)

lemma cook_step_tells:
  assumes wf: "wf_db (db w)" and h: "new \<in> set (order_history (db w) n)"
    and t: "thread_ok ords (db w) th"
  shows "moved cfg ords w (snd (producer_StatusUpdate cfg (cooking_update n old new name stamp completion ctx) w)) th"
proof -
  let ?u = "cooking_update n old new name stamp completion ctx"
  obtain r w1 where 1: "producer_StatusUpdate cfg ?u w = (r, w1)" by fastforce
  have j: "justified cfg ords (db w) (Publish (rm_NotificationsExchange cfg) [] (status_publishing ?u now))" for now
    using h unfolding justified_def status_message_def by (auto simp: cooking_update_def)
  have "moved cfg ords w w1 th"
  proof (rule moved_sends [OF wf _ _ t])
    show "db w1 = db w" using producer_StatusUpdate_outcome(1) [OF 1] by (simp add: net_only_def)
    show "amqp w1 = amqp w \<or> (\<exists>c. justified cfg ords (db w) c \<and> amqp w1 = amqp w @ [c])"
      using producer_StatusUpdate_outcome(3) [OF 1] j by blast
  qed
  with 1 show ?thesis by simp
qed

lemma exec_update_db_only: "exec_update op f w = (r, w') \<Longrightarrow> db_only w w'"
  by (auto simp: exec_update_def split: prod.splits sum.splits if_splits dest!: db_only_exec_auto)

lemma registry_amqp: "registry_call c \<Longrightarrow> amqp (repo_exec pg c w) = amqp w"
proof (induction pg c w rule: repo_exec.induct)
  case (4 pg n ts hb w)
  show ?case using MarkOnline_frame(2) [of n ts hb w, OF surjective_pairing] by (simp add: db_only_def)
next
  case (5 pg n w)
  show ?case using exec_update_db_only [OF surjective_pairing] by (simp add: MarkOffline_def db_only_def)
next
  case (6 pg n w)
  show ?case using exec_update_db_only [OF surjective_pairing] by (simp add: UpdateLastSeen_def db_only_def)
next
  case (7 pg n w)
  show ?case using exec_update_db_only [OF surjective_pairing] by (simp add: IncrOrdersProcessed_def db_only_def)
qed simp_all

lemma cook_step_moves:
  assumes wf: "wf_db (db w)" and t: "thread_ok ords (db w) (Processing tag name ctx req p)"
    and st: "cook_step (kitchen_deps_impl cfg) name ctx req p w = (p', w')"
  shows "moved cfg ords w w' (Processing tag name ctx req p')"
proof -
  let ?n = "co_Number req"
  have tag: "ords tag = Some ?n" using t by simp
  show ?thesis
  proof (cases p)
    case Start_Cooking
    obtain r w1 where 1: "SetStatus ?n name StatusOrderCooking [] w = (r, w1)" by fastforce
    show ?thesis
      using st Start_Cooking cook_step_sets [OF wf 1] tag 1
      by (cases r) (auto simp: kitchen_deps_impl_def intro!: moved_silent)
  next
    case (Tell_Cooking old t)
    with st wf assms(2) show ?thesis by (auto simp: kitchen_deps_impl_def Let_def intro!: cook_step_tells)
  next
    case (Wait_Cooking completion)
    obtain r w1 where 1: "wait_or_done (GetSimulateCookingDuration (co_Type req)) w = (r, w1)" by fastforce
    from st Wait_Cooking 1 wait_net [OF 1] wf tag show ?thesis by (auto simp: net_only_def intro!: moved_silent grows_refl)
  next
    case (Set_Ready completion)
    obtain r w1 where 1: "SetStatus ?n name StatusOrderReady [] w = (r, w1)" by fastforce
    show ?thesis
      using st Set_Ready cook_step_sets [OF wf 1] tag 1
      by (cases r) (auto simp: kitchen_deps_impl_def intro!: moved_silent)
  next
    case (Tell_Ready old t completion)
    with st wf assms(2) show ?thesis by (auto simp: kitchen_deps_impl_def intro!: cook_step_tells)
  next
    case Count_Order
    have g: "grows (db w) (db (repo_exec pg (RIncrOrdersProcessed name) w))" for pg by (rule repo_exec_grows [OF wf]) simp
    have "StatusOrderReady \<in> set (order_history (db w) ?n)" using t Count_Order by simp
    then have "StatusOrderReady \<in> set (order_history (db (repo_exec pg (RIncrOrdersProcessed name) w)) ?n)" for pg
      using grows_history [OF g] by blast
    with g registry_amqp [of "RIncrOrdersProcessed name"] st Count_Order tag show ?thesis
      by (auto simp: kitchen_deps_impl_def intro!: moved_silent)
  next
    case (Cooked r)
    with st wf t show ?thesis by (auto intro!: moved_silent grows_refl)
  qed
qed

lemma settle_silent:
  "\<exists>cs. amqp (settle c w) = amqp w @ cs \<and> set cs \<subseteq> {c}" "db (settle c w) = db w"
  using settle_messages [of c w] settle_eqD(2) [of c w] by auto

lemma system_invD:
  "system_inv cfg s \<Longrightarrow> wf_db (db (sy_world s))"
  "system_inv cfg s \<Longrightarrow> sy_threads s i = Some t \<Longrightarrow> thread_ok (sy_order s) (db (sy_world s)) t"
  by (simp_all add: system_inv_def)

lemma system_step_inv:
  assumes "system_step pg cfg s s'" "system_inv cfg s"
  shows "system_inv cfg s' \<and> grows (db (sy_world s)) (db (sy_world s'))"
  using assms
proof (induction rule: system_step.induct)
  case (request s i ctx draw m)
  then have "wf_db (db (sy_world s))" by (simp add: system_inv_def)
  with request system_inv_step [OF request(2) grows_refl map_le_refl, where cs = "[]" and i = i and
      x = "Some (Request ctx draw m Take_Number)"]
  show ?case by (simp add: grows_refl)
next
  case (delivery s i tag p e req name ctx)
  then have wf: "wf_db (db (sy_world s))" by (simp add: system_inv_def)
  have "sy_order s \<subseteq>\<^sub>m (sy_order s)(tag \<mapsto> co_Number req)" using delivery(2) by (auto simp: map_le_def)
  with system_inv_step [OF delivery(4) grows_refl [OF wf], where cs = "[]" and i = i and
      x = "Some (Processing tag name ctx req p)"] delivery(3) wf
  show ?case by (auto simp: grows_refl)
next
  case (create s i ctx draw m p p' w')
  then have "moved cfg (sy_order s) (sy_world s) w' (Request ctx draw m p')"
    by (intro intake_step_moves [OF _ _ create(2)] system_invD)
  with system_inv_step [OF create(3) _ map_le_refl, of w'] show ?case by (auto simp: moved_def)
next
  case (cook s i tag name ctx req p p' w')
  then have "moved cfg (sy_order s) (sy_world s) w' (Processing tag name ctx req p')"
    by (intro cook_step_moves [OF _ _ cook(2)] system_invD)
  with system_inv_step [OF cook(3) _ map_le_refl, of w'] show ?case by (auto simp: moved_def)
next
  case (settle s i tag name ctx req r)
  then have wf: "wf_db (db (sy_world s))" and t: "thread_ok (sy_order s) (db (sy_world s)) (Processing tag name ctx req (Cooked r))"
    by (auto dest: system_invD)
  have "justified cfg (sy_order s) (db (sy_world s)) (settlement tag r)"
    using t by (auto simp: settlement_def justified_def split: option.split)
  moreover obtain cs where "amqp (Order_Consumer.settle (settlement tag r) (sy_world s)) = amqp (sy_world s) @ cs" "set cs \<subseteq> {settlement tag r}"
    using settle_silent(1) by blast
  ultimately show ?case
    using system_inv_step [OF settle(2) _ map_le_refl, of "Order_Consumer.settle (settlement tag r) (sy_world s)" cs None i]
      settle_silent(2) [of "settlement tag r" "sy_world s"] wf by (auto simp: grows_refl)
next
  case (registry c s)
  have "received_only c" using registry(1) by (cases c) simp_all
  then have g: "grows (db (sy_world s)) (db (repo_exec pg c (sy_world s)))"
    using registry(2) by (intro repo_exec_grows) (simp_all add: system_inv_def)
  have "\<forall>t. sy_threads s 0 = Some t \<longrightarrow> thread_ok (sy_order s) (db (repo_exec pg c (sy_world s))) t"
    using thread_ok_grows [OF system_invD(2) [OF registry(2)] g map_le_refl] by blast
  with system_inv_step [OF registry(2) g map_le_refl, where cs = "[]" and x = "sy_threads s 0" and i = 0] registry_amqp [OF registry(1)] g
  show ?case by simp
next
  case (environment w' s cs)
  then show ?case by (auto simp: system_inv_def grows_refl justified_def list_all_iff)
qed

lemma system_run_inv:
  assumes "(system_step pg cfg)\<^sup>*\<^sup>* s s'" "system_inv cfg s"
  shows "system_inv cfg s' \<and> grows (db (sy_world s)) (db (sy_world s'))"
  using assms
proof (induction rule: rtranclp_induct)
  case base
  then show ?case by (simp add: system_inv_def grows_refl)
next
  case (step s1 s2)
  with system_step_inv show ?case by (blast intro: grows_trans)
qed

lemma system_inv_idle: "system_inv cfg (idle_system es)"
  by (simp add: system_inv_def idle_system_def start_world_def)

text \<open>
  C2. Nothing is announced before it is recorded, however requests, deliveries and failures
  interleave: at every moment every order message is for an order in the database, every status
  message reports a status in the history of its order, every acknowledged delivery was for an
  order that has become ready; the tables are consistent, and from any moment to any later one
  no order disappears and no history loses an entry.
\<close>

theorem announced_is_recorded:
  assumes "(system_step pg cfg)\<^sup>*\<^sup>* (idle_system es) s" "(system_step pg cfg)\<^sup>*\<^sup>* s s'"
  shows "wf_db (db (sy_world s))
    \<and> (\<forall>ex key p. Publish ex key p \<in> set (amqp (sy_world s)) \<longrightarrow>
         (\<exists>ctx req. order_message cfg ctx req (Publish ex key p) \<and> order_status (db (sy_world s)) (co_Number req) \<noteq> None)
         \<or> (\<exists>u. status_message cfg u (Publish ex key p)
              \<and> su_NewStatus u \<in> set (order_history (db (sy_world s)) (su_OrderNumber u))))
    \<and> (\<forall>tag. Ack tag \<in> set (amqp (sy_world s)) \<longrightarrow>
         (\<exists>n. sy_order s tag = Some n \<and> StatusOrderReady \<in> set (order_history (db (sy_world s)) n)))
    \<and> (\<forall>n. prefix (order_history (db (sy_world s)) n) (order_history (db (sy_world s')) n)
         \<and> (order_status (db (sy_world s)) n \<noteq> None \<longrightarrow> order_status (db (sy_world s')) n \<noteq> None))"
proof -
  have i: "system_inv cfg s" using system_run_inv [OF assms(1) system_inv_idle] by blast
  then have j: "justified cfg (sy_order s) (db (sy_world s)) c" if "c \<in> set (amqp (sy_world s))" for c
    using that by (simp add: system_inv_def)
  have g: "grows (db (sy_world s)) (db (sy_world s'))" using system_run_inv [OF assms(2) i] by blast
  have "\<not> order_message cfg ctx req (Ack tag)" "\<not> status_message cfg u (Ack tag)" for ctx req u tag
    by (simp_all add: order_message_def status_message_def)
  then have "\<exists>n. sy_order s tag = Some n \<and> StatusOrderReady \<in> set (order_history (db (sy_world s)) n)"
    if "Ack tag \<in> set (amqp (sy_world s))" for tag
    using j [OF that] by (simp add: justified_def)
  moreover have "(\<exists>ctx req. order_message cfg ctx req (Publish ex key p) \<and> order_status (db (sy_world s)) (co_Number req) \<noteq> None)
      \<or> (\<exists>u. status_message cfg u (Publish ex key p) \<and> su_NewStatus u \<in> set (order_history (db (sy_world s)) (su_OrderNumber u)))"
    if "Publish ex key p \<in> set (amqp (sy_world s))" for ex key p
    using j [OF that] by (simp add: justified_def)
  ultimately show ?thesis using g i unfolding grows_def system_inv_def by blast
qed

theorem announced_is_recorded_witness:
  "\<exists>s c. (system_step example_codec example_rabbit)\<^sup>*\<^sup>* (idle_system []) s \<and> amqp (sy_world s) = [c]
     \<and> (\<exists>ctx req. order_message example_rabbit ctx req c \<and> order_status (db (sy_world s)) (co_Number req) \<noteq> None)"
proof -
  let ?req = "prepare_order (todayDate (clock (start_world []))) 1 example_order"
  obtain info s1 w1 c where 1: "CreateOrder_svc (order_deps_impl example_codec example_rabbit) False 0 None example_order example_service
      (start_world []) = (Inr info, s1, w1)" "order_message example_rabbit None ?req c" "amqp w1 = amqp (start_world []) @ [c]"
    using CreateOrder_live [OF example_service_facts(1-6) example_codec_rounds example_acceptable
        example_cent_items(1) example_service_facts(7-9) example_text] by blast
  then have "create_with_slot (order_deps_impl example_codec example_rabbit) example_rabbit None 0 example_order
      (sy_world (idle_system [])) = (Inr info, w1)"
    using CreateOrder_svc_slot [OF 1(1)] example_service_facts(5) by (simp add: idle_system_def)
  then obtain s where r: "(system_step example_codec example_rabbit)\<^sup>*\<^sup>* (idle_system []) s" and w: "sy_world s = w1"
    using create_with_slot_reachable [of "idle_system []" 0] by (fastforce simp: idle_system_def)
  have a: "amqp (sy_world s) = [c]" using 1(3) w by (simp add: start_world_def)
  obtain key p where p: "c = Publish ''orders_topic'' key p" using 1(2) by (auto simp: order_message_def example_rabbit_def)
  have "\<not> status_message example_rabbit u c" for u using p by (simp add: status_message_def example_rabbit_def)
  then have "\<exists>ctx req. order_message example_rabbit ctx req c \<and> order_status (db (sy_world s)) (co_Number req) \<noteq> None"
    using announced_is_recorded [OF r rtranclp.rtrancl_refl] a p by fastforce
  with r a show ?thesis by blast
qed

end
