(* ===== verification/Status_Protocol.thy ===== *)
theory Status_Protocol
  imports Interleaving
begin

text \<open>
  What the interleaved calls of \<open>Interleaving\<close> do to a single order. The specification is an
  automaton over the history of the order and the number of workers between its two
  status updates; the running system refines it. Further, that the rows of the tables stay
  typed.
\<close>

section \<open>The protocol of an order\<close>

text \<open>
  Nothing but workers leaving; the order is created; a worker sets cooking; a worker that had set
  cooking sets ready.
\<close>

inductive protocol :: "string list \<times> nat \<Rightarrow> string list \<times> nat \<Rightarrow> bool" where
  leave: "c' \<le> c \<Longrightarrow> protocol (h, c) (h, c')"
| received: "c' \<le> c \<Longrightarrow> protocol ([], c) ([StatusOrderReceived], c')"
| cooking: "h \<noteq> [] \<Longrightarrow> c' \<le> c + 1 \<Longrightarrow> protocol (h, c) (h @ [StatusOrderCooking], c')"
| ready: "h \<noteq> [] \<Longrightarrow> c' + 1 \<le> c \<Longrightarrow> protocol (h, c) (h @ [StatusOrderReady], c')"

definition balanced :: "string list \<Rightarrow> bool" where
  "balanced h \<longleftrightarrow> (\<forall>p. prefix p h \<longrightarrow> count_list p StatusOrderReady \<le> count_list p StatusOrderCooking)"

definition cooked_history :: "string list \<Rightarrow> bool" where
  "cooked_history h \<longleftrightarrow>
     h = [] \<or> hd h = StatusOrderReceived \<and> set (tl h) \<subseteq> {StatusOrderCooking, StatusOrderReady} \<and> balanced h"

fun protocol_inv :: "string list \<times> nat \<Rightarrow> bool" where
  "protocol_inv (h, c) \<longleftrightarrow>
     cooked_history h \<and> c + count_list h StatusOrderReady \<le> count_list h StatusOrderCooking"

lemma count_list_snoc [simp]: "count_list (xs @ [y]) x = count_list xs x + (if x = y then 1 else 0)"
  by simp

lemma balanced_snoc:
  "balanced (h @ [st]) \<longleftrightarrow>
     balanced h \<and> count_list (h @ [st]) StatusOrderReady \<le> count_list (h @ [st]) StatusOrderCooking"
  unfolding balanced_def by (auto simp only: prefix_snoc)

lemma protocol_keeps: "protocol a b \<Longrightarrow> protocol_inv a \<Longrightarrow> protocol_inv b"
proof (induction rule: protocol.induct)
  case (received c' c)
  then show ?case by (auto simp: cooked_history_def balanced_def prefix_Cons status_defs)
qed (auto simp: cooked_history_def balanced_snoc status_defs)

section \<open>The system follows the protocol\<close>

text \<open>A worker between the two updates of order \<open>n\<close>.\<close>

fun mid_cook :: "cook \<Rightarrow> bool" where
  "mid_cook (Tell_Cooking _ _) = True"
| "mid_cook (Wait_Cooking _) = True"
| "mid_cook (Set_Ready _) = True"
| "mid_cook _ = False"

fun cooks_now :: "string \<Rightarrow> thread option \<Rightarrow> bool" where
  "cooks_now n (Some (Processing tag name ctx req p)) = (co_Number req = n \<and> mid_cook p)"
| "cooks_now n _ = False"

definition cooks :: "system \<Rightarrow> string \<Rightarrow> nat set" where
  "cooks s n = {i. cooks_now n (sy_threads s i)}"

definition order_view :: "system \<Rightarrow> string \<Rightarrow> string list \<times> nat" where
  "order_view s n = (order_history (db (sy_world s)) n, card (cooks s n))"

text \<open>One call moves one thread: what the histories and the thread must satisfy.\<close>

definition follows :: "database \<Rightarrow> database \<Rightarrow> thread option \<Rightarrow> thread option \<Rightarrow> string \<Rightarrow> bool" where
  "follows d d' t t' n \<longleftrightarrow>
     order_history d' n = order_history d n \<and> (cooks_now n t' \<longrightarrow> cooks_now n t)
     \<or> order_history d n = [] \<and> order_history d' n = [StatusOrderReceived] \<and> \<not> cooks_now n t'
     \<or> order_history d n \<noteq> [] \<and> order_history d' n = order_history d n @ [StatusOrderCooking]
     \<or> order_history d n \<noteq> [] \<and> order_history d' n = order_history d n @ [StatusOrderReady]
         \<and> cooks_now n t \<and> \<not> cooks_now n t'"

lemma follows_protocol:
  assumes "follows (db (sy_world s)) (db w') (sy_threads s i) x n" "finite (dom (sy_threads s))"
  shows "protocol (order_view s n) (order_view (s\<lparr>sy_world := w', sy_threads := (sy_threads s)(i := x), sy_order := ords\<rparr>) n)"
proof -
  define h h' c c' where "h = order_history (db (sy_world s)) n" and "h' = order_history (db w') n"
    and "c = card {j. cooks_now n (sy_threads s j)}" and "c' = card {j. cooks_now n (((sy_threads s)(i := x)) j)}"
  then have v: "order_view s n = (h, c)"
    "order_view (s\<lparr>sy_world := w', sy_threads := (sy_threads s)(i := x), sy_order := ords\<rparr>) n = (h', c')"
    by (simp_all add: order_view_def cooks_def)
  have k: "c' = c - (if cooks_now n (sy_threads s i) then 1 else 0) + (if cooks_now n x then 1 else 0)"
    "cooks_now n (sy_threads s i) \<Longrightarrow> 0 < c"
    unfolding c_def c'_def using card_counted_upd [OF assms(2), of "cooks_now n"] by simp_all
  have "h' = h \<and> (cooks_now n x \<longrightarrow> cooks_now n (sy_threads s i)) \<or> h = [] \<and> h' = [StatusOrderReceived] \<and> \<not> cooks_now n x
     \<or> h \<noteq> [] \<and> h' = h @ [StatusOrderCooking]
     \<or> h \<noteq> [] \<and> h' = h @ [StatusOrderReady] \<and> cooks_now n (sy_threads s i) \<and> \<not> cooks_now n x"
    using assms(1) by (simp add: follows_def h_def h'_def)
  then have "protocol (h, c) (h', c')"
    using k by (cases "cooks_now n x") (auto intro!: protocol.intros)
  with v show ?thesis by simp
qed

lemma follows_same:
  "order_history d' = order_history d \<Longrightarrow> (\<And>n. cooks_now n t' \<Longrightarrow> cooks_now n t) \<Longrightarrow> follows d d' t t' n"
  by (auto simp: follows_def)

lemma intake_step_follows:
  assumes wf: "wf_db (db w)" and t: "thread_ok ords (db w) (Request ctx draw m p)"
    and st: "intake_step (order_deps_impl pg cfg) cfg ctx draw m p w = (p', w')"
  shows "follows (db w) (db w') (Some (Request ctx draw m p)) (Some (Request ctx draw m p')) n"
proof (cases p)
  case Take_Number
  obtain r w1 where 1: "GetAndIncrementSequence (todayDate (clock w)) w = (r, w1)" by fastforce
  show ?thesis using st Take_Number 1 pg_intake.next_frame [OF wf 1]
    by (auto simp: order_deps_impl_def Let_def intro: follows_same)
next
  case (Store req)
  obtain r w1 where 1: "Create pg req servicename [] w = (r, w1)" by fastforce
  have rc: "co_Status req = StatusOrderReceived" using t Store by simp
  have "w' = w1" using st Store 1 by (auto simp: order_deps_impl_def split: sum.splits)
  then show ?thesis
    by (cases rule: pg_intake.create_cases [OF wf rc 1]) (auto simp: follows_def history_unknown)
next
  case (Send k e req ord)
  show ?thesis
  proof (cases k)
    case 0
    with st Send show ?thesis by (auto intro: follows_same)
  next
    case (Suc j)
    obtain r w1 where 1: "PublishCreateOrder cfg ctx (Some req) w = (r, w1)" by fastforce
    have "db w' = db w"
      using st Send Suc 1 PublishCreateOrder_db [OF 1] by (auto simp: order_deps_impl_def sleep_def split: option.splits if_splits)
    then show ?thesis by (auto intro: follows_same)
  qed
next
  case (Answered r)
  with st show ?thesis by (auto intro: follows_same)
qed

lemma SetStatus_follows:
  assumes wf: "wf_db (db w)" and s: "SetStatus k name st [] w = (r, w')"
  shows "order_history (db w') = order_history (db w) \<and> (\<exists>e. r = Inl e)
    \<or> order_history (db w) k \<noteq> [] \<and> order_history (db w') = (order_history (db w))(k := order_history (db w) k @ [st])"
proof (cases rule: pg_store.set_cases [OF wf s])
  case 2
  then show ?thesis using pg_store.latest [OF wf] by blast
qed simp

lemma cook_step_follows:
  assumes wf: "wf_db (db w)" and st: "cook_step (kitchen_deps_impl cfg) name ctx req p w = (p', w')"
  shows "follows (db w) (db w') (Some (Processing tag name ctx req p)) (Some (Processing tag name ctx req p')) n"
proof -
  have tells: "order_history (db (snd (producer_StatusUpdate cfg u w))) = order_history (db w)" for u
    using producer_StatusUpdate_outcome(1) [OF surjective_pairing [of "producer_StatusUpdate cfg u w"]] by (simp add: net_only_def)
  show ?thesis
  proof (cases p)
    case Start_Cooking
    obtain r w1 where 1: "SetStatus (co_Number req) name StatusOrderCooking [] w = (r, w1)" by fastforce
    have w: "w' = w1" "\<And>e. r = Inl e \<Longrightarrow> \<not> mid_cook p'"
      using st Start_Cooking 1 by (auto simp: kitchen_deps_impl_def split: sum.splits)
    show ?thesis using SetStatus_follows [OF wf 1]
    proof (elim disjE)
      assume "order_history (db w1) = order_history (db w) \<and> (\<exists>e. r = Inl e)"
      with w show ?thesis by (auto intro: follows_same)
    qed (use w in \<open>auto simp: follows_def\<close>)
  next
    case (Set_Ready completion)
    obtain r w1 where 1: "SetStatus (co_Number req) name StatusOrderReady [] w = (r, w1)" by fastforce
    have "w' = w1" "\<not> mid_cook p'" using st Set_Ready 1 by (auto simp: kitchen_deps_impl_def split: sum.splits)
    with Set_Ready show ?thesis using SetStatus_follows [OF wf 1] by (cases "n = co_Number req") (auto simp: follows_def)
  next
    case (Wait_Cooking completion)
    obtain r w1 where 1: "wait_or_done (GetSimulateCookingDuration (co_Type req)) w = (r, w1)" by fastforce
    from st Wait_Cooking 1 wait_net [OF 1] show ?thesis by (auto simp: net_only_def intro!: follows_same)
  next
    case Count_Order
    have "order_history (db (snd (IncrOrdersProcessed name w))) = order_history (db w)"
      using workers_only_views(2) [OF IncrOrdersProcessed_only [OF surjective_pairing]] .
    with st Count_Order show ?thesis by (auto simp: kitchen_deps_impl_def intro!: follows_same)
  qed (use st tells in \<open>auto simp: kitchen_deps_impl_def Let_def intro!: follows_same\<close>)
qed

section \<open>Every run follows the protocol\<close>

definition run_inv :: "RabbitMQ_cfg \<Rightarrow> system \<Rightarrow> bool" where
  "run_inv cfg s \<longleftrightarrow> system_inv cfg s \<and> finite (dom (sy_threads s)) \<and> (\<forall>n. protocol_inv (order_view s n))"

lemma same_world_protocol:
  assumes "finite (dom (sy_threads s))" "\<not> cooks_now n x" "order_history (db w') n = order_history (db (sy_world s)) n"
  shows "protocol (order_view s n) (order_view (s\<lparr>sy_world := w', sy_threads := (sy_threads s)(i := x), sy_order := ords\<rparr>) n)"
  using assms by (intro follows_protocol) (auto simp: follows_def)

lemma system_step_protocol:
  assumes "system_step pg cfg s s'" "system_inv cfg s" "finite (dom (sy_threads s))"
  shows "protocol (order_view s n) (order_view s' n)"
  using assms
proof (induction rule: system_step.induct)
  case (request s i ctx draw m)
  from same_world_protocol [OF request(3), where n = n and x = "Some (Request ctx draw m Take_Number)" and w' = "sy_world s" and i = i and ords = "sy_order s"]
  show ?case by simp
next
  case (delivery s i tag p e req name ctx)
  then have "\<not> cooks_now n (Some (Processing tag name ctx req p))" by auto
  from same_world_protocol [OF delivery(5) this, where w' = "sy_world s" and i = i and ords = "(sy_order s)(tag \<mapsto> co_Number req)"]
  show ?case by simp
next
  case (create s i ctx draw m p p' w')
  then have "follows (db (sy_world s)) (db w') (sy_threads s i) (Some (Request ctx draw m p')) n"
    unfolding create(1) by (intro intake_step_follows [OF system_invD(1) [OF create(3)] system_invD(2) [OF create(3,1)] create(2)])
  from follows_protocol [OF this create(4), where ords = "sy_order s"] show ?case by simp
next
  case (cook s i tag name ctx req p p' w')
  then have "follows (db (sy_world s)) (db w') (sy_threads s i) (Some (Processing tag name ctx req p')) n"
    unfolding cook(1) by (intro cook_step_follows [OF system_invD(1) [OF cook(3)] cook(2)])
  from follows_protocol [OF this cook(4), where ords = "sy_order s"] show ?case by simp
next
  case (settle s i tag name ctx req r)
  from same_world_protocol [OF settle(3), where n = n and x = None and w' = "Order_Consumer.settle (settlement tag r) (sy_world s)" and i = i and ords = "sy_order s"]
  show ?case by (simp add: settle_silent(2))
next
  case (registry c s)
  have "order_history (db (repo_exec pg c (sy_world s))) = order_history (db (sy_world s))"
    using registry(1) workers_only_views(2) [OF MarkOnline_frame(1) [OF surjective_pairing]]
      workers_only_views(2) [OF MarkOffline_only [OF surjective_pairing]]
      workers_only_views(2) [OF UpdateLastSeen_only [OF surjective_pairing]]
      workers_only_views(2) [OF IncrOrdersProcessed_only [OF surjective_pairing]]
    by (cases c) simp_all
  then show ?case by (auto simp: order_view_def cooks_def intro: protocol.leave)
next
  case (environment w' s cs)
  then show ?case by (auto simp: order_view_def cooks_def intro: protocol.leave)
qed

lemma system_step_finite: "system_step pg cfg s s' \<Longrightarrow> finite (dom (sy_threads s)) \<Longrightarrow> finite (dom (sy_threads s'))"
  by (induction rule: system_step.induct) simp_all

lemma system_step_run_inv: "system_step pg cfg s s' \<Longrightarrow> run_inv cfg s \<Longrightarrow> run_inv cfg s'"
  using system_step_inv system_step_finite system_step_protocol protocol_keeps unfolding run_inv_def by metis

lemma idle_run_inv: "run_inv cfg (idle_system es)"
  by (simp add: run_inv_def system_inv_idle)
    (simp add: idle_system_def order_view_def cooks_def start_world_def order_history_def find_order_def empty_db_def
      cooked_history_def)

lemma reachable_run_inv:
  assumes "(system_step pg cfg)\<^sup>*\<^sup>* (idle_system es) s"
  shows "run_inv cfg s"
  using assms by (induction rule: rtranclp_induct) (auto intro: idle_run_inv system_step_run_inv)

text \<open>
  C4. The running system implements the protocol of an order: at every moment of every
  interleaved run each call moves every order along the automaton above, so an order is
  created once, as received, and becomes ready only at the hands of a worker that has set it to
  cooking before.
\<close>

theorem system_refines_protocol:
  assumes "(system_step pg cfg)\<^sup>*\<^sup>* (idle_system es) s" "system_step pg cfg s s'"
  shows "protocol (order_view s n) (order_view s' n)"
  using system_step_protocol [OF assms(2)] reachable_run_inv [OF assms(1)] by (simp add: run_inv_def)

text \<open>
  C3. Cooked before ready: in every interleaving of requests, redeliveries, several workers on
  one order, lost replies and failures, the history of an order starts with received, goes on
  with cooking and ready only, and at no point of it are there more entries ready than
  cooking; the workers between their two updates are covered by entries cooking of their own.
\<close>

theorem cooked_before_ready:
  assumes "(system_step pg cfg)\<^sup>*\<^sup>* (idle_system es) s"
  defines "h \<equiv> \<lambda>n. order_history (db (sy_world s)) n"
  shows "(h n \<noteq> [] \<longrightarrow> hd (h n) = StatusOrderReceived \<and> set (tl (h n)) \<subseteq> {StatusOrderCooking, StatusOrderReady})
    \<and> (\<forall>p. prefix p (h n) \<longrightarrow> count_list p StatusOrderReady \<le> count_list p StatusOrderCooking)
    \<and> card (cooks s n) + count_list (h n) StatusOrderReady \<le> count_list (h n) StatusOrderCooking"
proof -
  have "protocol_inv (h n, card (cooks s n))"
    using reachable_run_inv [OF assms(1)] by (simp add: run_inv_def order_view_def h_def)
  then show ?thesis by (cases "h n = []") (auto simp: cooked_history_def balanced_def)
qed

section \<open>A run\<close>

lemma ready_run:
  "\<exists>s. (system_step example_codec example_rabbit)\<^sup>*\<^sup>* (idle_system []) s
     \<and> order_history (db (sy_world s)) ''ORD_19700101_001'' = [StatusOrderReceived, StatusOrderCooking, StatusOrderReady]"
proof -
  let ?n = "''ORD_19700101_001''" and ?w = "start_world []"
  have n: "co_Number (SetNumber (todayDate (clock ?w)) 1 example_order) = ?n"
    by (simp add: start_world_def SetNumber_def Let_def todayDate_examples(1)) code_simp
  obtain info s1 w1 where 1: "CreateOrder_svc (order_deps_impl example_codec example_rabbit) False 0 None example_order example_service ?w
      = (Inr info, s1, w1)" "quiet w1" "\<not> conn_closed w1" "oi_Number info = ?n"
    using CreateOrder_live [OF example_service_facts(1-6) example_codec_rounds example_acceptable
        example_cent_items(1) example_service_facts(7-9) example_text] n by metis
  have h1: "wf_db (db w1)" "order_status (db w1) ?n = Some StatusOrderReceived" "order_history (db w1) ?n = [StatusOrderReceived]"
    using CreateOrder_stored [OF example_service_facts(2,5) 1(1)] 1(4) by auto
  have "create_with_slot (order_deps_impl example_codec example_rabbit) example_rabbit None 0 example_order
      (sy_world (idle_system [])) = (Inr info, w1)"
    using CreateOrder_svc_slot [OF 1(1)] example_service_facts(5) by (simp add: idle_system_def)
  from create_with_slot_reachable [OF _ this, of 0] obtain sa where a: "(system_step example_codec example_rabbit)\<^sup>*\<^sup>* (idle_system []) sa"
    "sy_world sa = w1" "sy_threads sa 1 = None" "sy_order sa 1 = None"
    by (fastforce simp: idle_system_def)
  let ?req = "example_order\<lparr>co_Number := ?n\<rparr>"
  obtain w2 where 2: "proccessOrder (kitchen_deps_impl example_rabbit) example_kitchen None (Some ?req) (sy_world sa) = (None, w2)"
    using proccessOrder_live [OF 1(2) h1(1) 1(3), of ?n ?req "wr_name (kw_worker example_kitchen)" example_kitchen
        StatusOrderReceived example_rabbit None] h1(2) a(2) by fastforce
  have h2: "order_history (db w2) ?n = [StatusOrderReceived, StatusOrderCooking, StatusOrderReady]"
    using proccessOrder_cooked [OF _ 2 refl refl] h1 a(2) by simp
  let ?s = "sa\<lparr>sy_order := (sy_order sa)(1 \<mapsto> co_Number ?req), sy_world := settle (settlement 1 None) w2\<rparr>"
  have "(system_step example_codec example_rabbit)\<^sup>*\<^sup>* (idle_system []) ?s"
    by (rule rtranclp_trans [OF a(1) proccessOrder_reachable [OF a(3,4) 2]])
  moreover have "order_history (db (sy_world ?s)) ?n = [StatusOrderReceived, StatusOrderCooking, StatusOrderReady]"
    using h2 by (simp add: settle_silent(2))
  ultimately show ?thesis by blast
qed

lemma run_flips: "R\<^sup>*\<^sup>* a b \<Longrightarrow> \<not> P a \<Longrightarrow> P b \<Longrightarrow> \<exists>x y. R\<^sup>*\<^sup>* a x \<and> R x y \<and> \<not> P x \<and> P y"
  by (induction rule: rtranclp_induct) auto

theorem cooked_before_ready_witness:
  "\<exists>s. order_history (db (sy_world s)) ''ORD_19700101_001'' = [StatusOrderReceived, StatusOrderCooking, StatusOrderReady]
     \<and> card (cooks s ''ORD_19700101_001'') + 1 \<le> (1 :: nat)"
proof -
  obtain s where s: "(system_step example_codec example_rabbit)\<^sup>*\<^sup>* (idle_system []) s"
    "order_history (db (sy_world s)) ''ORD_19700101_001'' = [StatusOrderReceived, StatusOrderCooking, StatusOrderReady]"
    using ready_run by blast
  from cooked_before_ready [OF s(1), of "''ORD_19700101_001''"] s(2) show ?thesis by (auto simp: status_defs)
qed

theorem system_refines_protocol_witness:
  "\<exists>s s' h c c'. system_step example_codec example_rabbit s s'
     \<and> order_view s ''ORD_19700101_001'' = (h, c) \<and> order_view s' ''ORD_19700101_001'' = (h @ [StatusOrderReady], c') \<and> c' < c"
proof -
  let ?n = "''ORD_19700101_001''"
  let ?P = "\<lambda>s. StatusOrderReady \<in> set (order_history (db (sy_world s)) ?n)"
  obtain se where "(system_step example_codec example_rabbit)\<^sup>*\<^sup>* (idle_system []) se" "?P se" using ready_run by fastforce
  moreover have "\<not> ?P (idle_system [])"
    by (simp add: idle_system_def start_world_def order_history_def find_order_def empty_db_def)
  ultimately obtain s s' where s: "(system_step example_codec example_rabbit)\<^sup>*\<^sup>* (idle_system []) s"
    "system_step example_codec example_rabbit s s'" "\<not> ?P s" "?P s'"
    using run_flips [of "system_step example_codec example_rabbit" _ _ ?P] by blast
  from system_refines_protocol [OF s(1,2), of ?n] s(3,4)
  have "\<exists>h c c'. order_view s ?n = (h, c) \<and> order_view s' ?n = (h @ [StatusOrderReady], c') \<and> c' < c"
    by (cases rule: protocol.cases) (auto simp: order_view_def status_defs)
  with s(2) show ?thesis by blast
qed

section \<open>The tables stay typed\<close>

definition kitchen_statuses :: "string list" where
  "kitchen_statuses = [StatusOrderReceived, StatusOrderCooking, StatusOrderReady]"

definition typed_row :: "order_row \<Rightarrow> bool" where
  "typed_row r \<longleftrightarrow> o_type r \<in> set AllOrderTypes \<and> o_priority r \<in> {1, 5, 10} \<and> o_status r \<in> set kitchen_statuses
     \<and> (o_status r = StatusOrderReady \<longrightarrow> o_completed_at r \<noteq> None)
     \<and> (o_processed_by r = None \<longleftrightarrow> o_status r = StatusOrderReceived)"

definition typed_db :: "database \<Rightarrow> bool" where
  "typed_db d \<longleftrightarrow> (\<forall>r \<in> set (orders d). typed_row r) \<and> (\<forall>l \<in> set (order_status_log d). l_status l \<in> set kitchen_statuses)"

lemma typed_same_tables: "same_tables d d' \<Longrightarrow> typed_db d \<Longrightarrow> typed_db d'"
  by (simp add: same_tables_def typed_db_def)

lemma typed_appended:
  assumes "orders d' = orders d @ [row]" "typed_row row" "order_status_log d' = order_status_log d @ [l]"
    "l_status l \<in> set kitchen_statuses" "typed_db d"
  shows "typed_db d'"
  using assms by (simp add: typed_db_def)

lemma typed_new_row:
  "co_Status req = StatusOrderReceived \<Longrightarrow> co_Priority req \<in> {1, 5, 10} \<Longrightarrow> List.member [''dine_in'', ''takeout'', ''delivery''] (co_Type req) \<Longrightarrow>
     typed_row (new_order_row now req ident cents)"
  by (simp add: typed_row_def new_order_row_def kitchen_statuses_def AllOrderTypes_def order_type_defs status_defs)

lemma typed_set_row: "typed_row r \<Longrightarrow> st \<in> {StatusOrderCooking, StatusOrderReady} \<Longrightarrow> typed_row (set_row_status now wn st r)"
  by (auto simp: typed_row_def set_row_status_def kitchen_statuses_def status_defs)

lemma typed_created:
  assumes "order_created pg req by nt now row d d'" "typed_db d" "co_Status req = StatusOrderReceived" "co_Priority req \<in> {1, 5, 10}"
  shows "typed_db d'"
proof -
  obtain cents ident where c: "row = new_order_row now req (next_order d) cents" "orders d' = orders d @ [row]"
      "List.member [''dine_in'', ''takeout'', ''delivery''] (co_Type req)"
      "order_status_log d' = order_status_log d @
            [\<lparr>l_id = ident, l_created_at = now, l_order_id = o_id row, l_status = StatusOrderReceived,
              l_changed_by = by, l_changed_at = now, l_notes = nt\<rparr>]"
    using assms(1) unfolding order_created_def by blast
  show ?thesis
    by (rule typed_appended [OF c(2) _ c(4) _ assms(2)])
      (simp_all add: c(1) typed_new_row [OF assms(3,4) c(3)] kitchen_statuses_def)
qed

lemma typed_changed:
  assumes "status_changed n wn st nt now old d d'" "typed_db d" "st \<in> {StatusOrderCooking, StatusOrderReady}"
  shows "typed_db d'"
proof -
  obtain ident where c: "orders d' = map (\<lambda>r. if o_number r = n then set_row_status now wn st r else r) (orders d)"
      "order_status_log d' = order_status_log d @
            [\<lparr>l_id = ident, l_created_at = now, l_order_id = o_id old, l_status = st,
              l_changed_by = wn, l_changed_at = now, l_notes = nt\<rparr>]"
    using assms(1) unfolding status_changed_def by blast
  have "st \<in> set kitchen_statuses" using assms(3) by (auto simp: kitchen_statuses_def)
  with assms(2) c typed_set_row [OF _ assms(3)] show ?thesis by (auto simp: typed_db_def)
qed

lemma typed_Create:
  assumes "Create pg req by nt w = (r, w')" "typed_db (db w)" "co_Status req = StatusOrderReceived" "co_Priority req \<in> {1, 5, 10}"
  shows "typed_db (db w')"
proof -
  have "same_tables (db w) (db w') \<or> (\<exists>now row. order_created pg req by nt now row (db w) (db w'))"
    using Create_outcome [OF assms(1)] by (auto split: sum.splits)
  then show ?thesis using typed_created [OF _ assms(2-4)] typed_same_tables [OF _ assms(2)] by blast
qed

lemma typed_SetStatus:
  assumes "SetStatus n wn st nt w = (r, w')" "typed_db (db w)" "st \<in> {StatusOrderCooking, StatusOrderReady}"
  shows "typed_db (db w')"
proof -
  have "same_tables (db w) (db w') \<or> (\<exists>now row. status_changed n wn st nt now row (db w) (db w'))"
    using SetStatus_outcome [OF assms(1)] by (auto split: sum.splits)
  then show ?thesis using typed_changed [OF _ assms(2,3)] typed_same_tables [OF _ assms(2)] by blast
qed

lemma typed_GetAndIncrementSequence:
  "GetAndIncrementSequence date w = (r, w') \<Longrightarrow> typed_db (db w) \<Longrightarrow> typed_db (db w')"
  by (drule GetAndIncrementSequence_outcome)
    (auto simp: sequence_moved_def typed_db_def same_tables_def split: sum.splits)

lemma typed_workers_only: "workers_only d d' \<Longrightarrow> typed_db d \<Longrightarrow> typed_db d'"
  by (simp add: workers_only_def typed_db_def)

fun typed_thread :: "thread \<Rightarrow> bool" where
  "typed_thread (Request ctx draw m (Store req)) = (co_Priority req \<in> {1, 5, 10})"
| "typed_thread t = True"

definition typed_system :: "system \<Rightarrow> bool" where
  "typed_system s \<longleftrightarrow> typed_db (db (sy_world s)) \<and> (\<forall>i t. sy_threads s i = Some t \<longrightarrow> typed_thread t)"

lemma typed_systemI:
  assumes "typed_system s" "typed_db (db w')" "\<forall>t. x = Some t \<longrightarrow> typed_thread t"
  shows "typed_system (s\<lparr>sy_world := w', sy_threads := (sy_threads s)(i := x), sy_order := ords\<rparr>)"
  using assms by (simp add: typed_system_def)

lemma prepare_order_priority: "co_Priority (prepare_order today number req) \<in> {1, 5, 10}"
  by (simp add: prepare_order_def CalculatePriority_def)

lemma typed_intake_step:
  assumes "typed_db (db w)" "typed_thread (Request ctx draw m p)" "thread_ok ords (db w) (Request ctx draw m p)"
    and st: "intake_step (order_deps_impl pg cfg) cfg ctx draw m p w = (p', w')"
  shows "typed_db (db w') \<and> typed_thread (Request ctx draw m p')"
proof (cases p)
  case Take_Number
  obtain r w1 where 1: "GetAndIncrementSequence (todayDate (clock w)) w = (r, w1)" by fastforce
  from st Take_Number 1 typed_GetAndIncrementSequence [OF 1 assms(1)] prepare_order_priority show ?thesis
    by (auto simp: order_deps_impl_def Let_def simp del: insert_iff)
next
  case (Store req)
  obtain r w1 where 1: "Create pg req servicename [] w = (r, w1)" by fastforce
  have "typed_db (db w1)" using typed_Create [OF 1 assms(1)] assms(2,3) Store by simp
  with st Store 1 show ?thesis by (cases r) (auto simp: order_deps_impl_def)
next
  case (Send k e req ord)
  show ?thesis
  proof (cases k)
    case 0
    with st Send assms(1) show ?thesis by auto
  next
    case (Suc j)
    obtain r w1 where 1: "PublishCreateOrder cfg ctx (Some req) w = (r, w1)" by fastforce
    with st Send Suc assms(1) PublishCreateOrder_db [OF 1] show ?thesis
      by (auto simp: order_deps_impl_def sleep_def split: option.splits if_splits)
  qed
qed (use st assms in auto)

lemma typed_cook_step:
  assumes "typed_db (db w)" and st: "cook_step (kitchen_deps_impl cfg) name ctx req p w = (p', w')"
  shows "typed_db (db w')"
proof -
  have tells: "db (snd (producer_StatusUpdate cfg u w)) = db w" for u
    using producer_StatusUpdate_outcome(1) [OF surjective_pairing [of "producer_StatusUpdate cfg u w"]] by (simp add: net_only_def)
  have sets: "typed_db (db w1)" if "SetStatus n name st [] w = (r, w1)" "st \<in> {StatusOrderCooking, StatusOrderReady}" for n st r w1
    using typed_SetStatus [OF that(1) assms(1) that(2)] .
  show ?thesis
  proof (cases p)
    case (Wait_Cooking completion)
    have "db (snd (wait_or_done (GetSimulateCookingDuration (co_Type req)) w)) = db w"
      using wait_net [OF surjective_pairing [of "wait_or_done (GetSimulateCookingDuration (co_Type req)) w"]] by (simp add: net_only_def)
    with st Wait_Cooking assms(1) show ?thesis by auto
  next
    case Count_Order
    with st typed_workers_only [OF IncrOrdersProcessed_only [OF surjective_pairing [of "IncrOrdersProcessed name w"]] assms(1)]
    show ?thesis by (auto simp: kitchen_deps_impl_def)
  qed (use st tells sets assms(1) in \<open>auto simp: kitchen_deps_impl_def Let_def split: prod.splits sum.splits\<close>)
qed

lemma system_step_typed:
  assumes "system_step pg cfg s s'" "system_inv cfg s" "typed_system s"
  shows "typed_system s'"
  using assms
proof (induction rule: system_step.induct)
  case (request s i ctx draw m)
  with typed_systemI [OF request(3), where w' = "sy_world s" and i = i and ords = "sy_order s" and
      x = "Some (Request ctx draw m Take_Number)"]
  show ?case by (simp add: typed_system_def)
next
  case (delivery s i tag p e req name ctx)
  with typed_systemI [OF delivery(5), where w' = "sy_world s" and i = i and ords = "(sy_order s)(tag \<mapsto> co_Number req)" and
      x = "Some (Processing tag name ctx req p)"]
  show ?case by (simp add: typed_system_def)
next
  case (create s i ctx draw m p p' w')
  have "typed_db (db w') \<and> typed_thread (Request ctx draw m p')"
    using create(1,4) by (intro typed_intake_step [OF _ _ system_invD(2) [OF create(3,1)] create(2)]) (simp_all add: typed_system_def)
  with typed_systemI [OF create(4), where w' = w' and i = i and ords = "sy_order s" and x = "Some (Request ctx draw m p')"]
  show ?case by simp
next
  case (cook s i tag name ctx req p p' w')
  have "typed_db (db w')" using cook(4) by (intro typed_cook_step [OF _ cook(2)]) (simp add: typed_system_def)
  with typed_systemI [OF cook(4), where w' = w' and i = i and ords = "sy_order s" and x = "Some (Processing tag name ctx req p')"]
  show ?case by simp
next
  case (settle s i tag name ctx req r)
  with typed_systemI [OF settle(3), where w' = "Order_Consumer.settle (settlement tag r) (sy_world s)" and i = i and
      ords = "sy_order s" and x = None]
  show ?case by (simp add: typed_system_def settle_silent(2))
next
  case (registry c s)
  have "typed_db (db (repo_exec pg c (sy_world s)))"
    using registry(1,3) typed_workers_only [OF MarkOnline_frame(1) [OF surjective_pairing]]
      typed_workers_only [OF MarkOffline_only [OF surjective_pairing]]
      typed_workers_only [OF UpdateLastSeen_only [OF surjective_pairing]]
      typed_workers_only [OF IncrOrdersProcessed_only [OF surjective_pairing]]
    by (cases c) (simp_all add: typed_system_def)
  with registry show ?case by (simp add: typed_system_def)
next
  case (environment w' s cs)
  then show ?case by (simp add: typed_system_def)
qed

text \<open>
  C7. The tables stay typed: in every interleaved run every stored order has one of the three order
  types, a priority of 1, 5 or 10 and one of the three statuses the services use; a
  worker's name is recorded exactly once the order has left received, an instant of
  completion whenever it is ready; and every logged status is one of the three.
\<close>

theorem tables_typed:
  assumes "(system_step pg cfg)\<^sup>*\<^sup>* (idle_system es) s"
  shows "(\<forall>r \<in> set (orders (db (sy_world s))).
      o_type r \<in> set AllOrderTypes \<and> o_priority r \<in> {1, 5, 10}
      \<and> o_status r \<in> {StatusOrderReceived, StatusOrderCooking, StatusOrderReady}
      \<and> (o_processed_by r = None \<longleftrightarrow> o_status r = StatusOrderReceived)
      \<and> (o_status r = StatusOrderReady \<longrightarrow> o_completed_at r \<noteq> None))
    \<and> (\<forall>l \<in> set (order_status_log (db (sy_world s))). l_status l \<in> {StatusOrderReceived, StatusOrderCooking, StatusOrderReady})"
proof -
  have "run_inv cfg s \<and> typed_system s"
    using assms
  proof (induction rule: rtranclp_induct)
    case base
    have "typed_system (idle_system es)"
      by (simp add: typed_system_def idle_system_def start_world_def empty_db_def typed_db_def)
    then show ?case using idle_run_inv by blast
  next
    case (step s1 s2)
    then show ?case using system_step_typed system_step_run_inv unfolding run_inv_def by blast
  qed
  then show ?thesis by (auto simp: typed_system_def typed_db_def typed_row_def kitchen_statuses_def)
qed

theorem tables_typed_witness:
  "\<exists>(s :: system) r. r \<in> set (orders (db (sy_world s))) \<and> o_number r = ''ORD_19700101_001''
     \<and> o_completed_at r \<noteq> None \<and> o_priority r \<in> {1, 5, 10} \<and> o_type r \<in> set AllOrderTypes"
proof -
  let ?n = "''ORD_19700101_001''"
  obtain s where s: "(system_step example_codec example_rabbit)\<^sup>*\<^sup>* (idle_system []) s"
    "order_history (db (sy_world s)) ?n = [StatusOrderReceived, StatusOrderCooking, StatusOrderReady]"
    using ready_run by blast
  have "wf_db (db (sy_world s))" using reachable_run_inv [OF s(1)] by (simp add: run_inv_def system_inv_def)
  then have "order_status (db (sy_world s)) ?n = Some StatusOrderReady"
    using s(2) history_unknown [of "db (sy_world s)" ?n] history_latest [of "db (sy_world s)" ?n]
    by (cases "order_status (db (sy_world s)) ?n") auto
  then obtain r where r: "r \<in> set (orders (db (sy_world s)))" "o_number r = ?n" "o_status r = StatusOrderReady"
    by (auto simp: order_status_def dest: find_order_SomeD)
  note t = bspec [OF tables_typed [OF s(1), THEN conjunct1] r(1)]
  then have "o_completed_at r \<noteq> None" "o_priority r \<in> {1, 5, 10}" "o_type r \<in> set AllOrderTypes" using r(3) by simp_all
  with r show ?thesis by blast
qed

end
