(* ===== verification/Worker_Stop.thy ===== *)
theory Worker_Stop
  imports Interleaving Kitchen_Service
begin

text \<open>
  Stopping a kitchen worker while its consumers run: \<^verbatim>\<open>Stop\<close>, \<^verbatim>\<open>processOrderWrapper\<close> and \<^verbatim>\<open>proccessOrder\<close> of
  \<^verbatim>\<open>services/kitchen/service.go\<close> as goroutines over the mutex, the \<^verbatim>\<open>stopping\<close> channel and the wait group.
  The theory \<open>Kitchen\<close> runs each of them without interruption.
\<close>

section \<open>Goroutines\<close>

text \<open>
  The wrapper before its select, between the select and \<^verbatim>\<open>activeOrders.Add\<close>, counted and at work,
  returned; \<^verbatim>\<open>Stop\<close> before the lock, holding it, waiting for the active orders,
  past the wait, having cancelled the context, returned.
  The flag of a stop says whether its context is the worker's own.
\<close>

datatype goroutine = Check "string option" CreateOrder | Enter "string option" CreateOrder
  | Busy "string option" CreateOrder cook | Handled "err option"
  | At_Lock bool | Locked bool | Await bool | Waited bool | Leaving bool | Stopped | Panicked

record worker_state =
  ws_worker :: KitchenWorker
  ws_lock :: "nat option"
  ws_world :: world
  ws_go :: "nat \<Rightarrow> goroutine option"

text \<open>
  The world's context is the one \<^verbatim>\<open>Work\<close> was called with. A call under the worker's own context
  fails once that is cancelled, and leaves the outer context alone.
\<close>

definition in_worker_ctx :: "KitchenWorker \<Rightarrow> (world \<Rightarrow> 'r \<times> world) \<Rightarrow> world \<Rightarrow> 'r \<times> world" where
  "in_worker_ctx k f w =
     (if kw_cancelled k \<and> ctx_err w = None
      then case f (w\<lparr>ctx_err := Some context_Canceled\<rparr>) of (r, w') \<Rightarrow> (r, w'\<lparr>ctx_err := None\<rparr>)
      else f w)"

abbreviation worker_name :: "worker_state \<Rightarrow> string" where
  "worker_name s \<equiv> wr_name (kw_worker (ws_worker s))"

abbreviation go :: "worker_state \<Rightarrow> nat \<Rightarrow> goroutine \<Rightarrow> worker_state" where
  "go s i g \<equiv> s\<lparr>ws_go := (ws_go s)(i \<mapsto> g)\<rparr>"

inductive worker_step :: "kitchen_deps \<Rightarrow> worker_state \<Rightarrow> worker_state \<Rightarrow> bool" for deps where
  deliver: "ws_go s i = None \<Longrightarrow> worker_step deps s (go s i (Check ctx req))"
| refuse: "ws_go s i = Some (Check ctx req) \<Longrightarrow> kw_stopping (ws_worker s) \<Longrightarrow>
    worker_step deps s (go s i (Handled (Some (Opaque ''worker is stopping, cannot process new orders''))))"
| pass: "ws_go s i = Some (Check ctx req) \<Longrightarrow> \<not> kw_stopping (ws_worker s) \<Longrightarrow> worker_step deps s (go s i (Enter ctx req))"
| count: "ws_go s i = Some (Enter ctx req) \<Longrightarrow>
    worker_step deps s ((go s i (Busy ctx req Start_Cooking))
      \<lparr>ws_worker := (ws_worker s)\<lparr>kw_activeOrders := kw_activeOrders (ws_worker s) + 1\<rparr>\<rparr>)"
| work: "ws_go s i = Some (Busy ctx req p) \<Longrightarrow>
    in_worker_ctx (ws_worker s) (cook_step deps (worker_name s) ctx req p) (ws_world s) = (p', w') \<Longrightarrow>
    worker_step deps s ((go s i (Busy ctx req p'))\<lparr>ws_world := w'\<rparr>)"
| finish: "ws_go s i = Some (Busy ctx req (Cooked r)) \<Longrightarrow>
    worker_step deps s ((go s i (Handled r))
      \<lparr>ws_worker := (ws_worker s)\<lparr>kw_activeOrders := kw_activeOrders (ws_worker s) - 1\<rparr>\<rparr>)"
| stop: "ws_go s i = None \<Longrightarrow> worker_step deps s (go s i (At_Lock own))"
| lock: "ws_go s i = Some (At_Lock own) \<Longrightarrow> ws_lock s = None \<Longrightarrow> worker_step deps s ((go s i (Locked own))\<lparr>ws_lock := Some i\<rparr>)"
| not_working: "ws_go s i = Some (Locked own) \<Longrightarrow> \<not> kw_isWorking (ws_worker s) \<Longrightarrow>
    worker_step deps s ((go s i Stopped)\<lparr>ws_lock := None\<rparr>)"
| close_twice: "ws_go s i = Some (Locked own) \<Longrightarrow> kw_isWorking (ws_worker s) \<Longrightarrow> kw_stopping (ws_worker s) \<Longrightarrow>
    worker_step deps s ((go s i Panicked)\<lparr>ws_lock := None\<rparr>)"
| close_stopping: "ws_go s i = Some (Locked own) \<Longrightarrow> kw_isWorking (ws_worker s) \<Longrightarrow> \<not> kw_stopping (ws_worker s) \<Longrightarrow>
    worker_step deps s ((go s i (Await own))\<lparr>ws_worker := (ws_worker s)\<lparr>kw_stopping := True\<rparr>\<rparr>)"
| waited: "ws_go s i = Some (Await own) \<Longrightarrow> kw_activeOrders (ws_worker s) = 0 \<Longrightarrow>
    worker_step deps s (go s i (Waited own))"
| cancel: "ws_go s i = Some (Waited own) \<Longrightarrow>
    worker_step deps s ((go s i (Leaving own))\<lparr>ws_worker := (ws_worker s)\<lparr>kw_cancelled := True\<rparr>\<rparr>)"
| marked: "ws_go s i = Some (Leaving own) \<Longrightarrow>
    (if own then in_worker_ctx (ws_worker s) else id) (kd_MarkOffline deps (worker_name s)) (ws_world s) = (r, w') \<Longrightarrow>
    worker_step deps s ((go s i Stopped)
      \<lparr>ws_worker := if r = None then (ws_worker s)\<lparr>kw_isWorking := False\<rparr> else ws_worker s, ws_lock := None, ws_world := w'\<rparr>)"
| elsewhere: "worker_step deps s (s\<lparr>ws_world := w'\<rparr>)"

text \<open>A worker that has just been marked online. A panic ends the process; the model goes on, which adds behaviours only.\<close>

definition at_work :: "KitchenWorker \<Rightarrow> world \<Rightarrow> worker_state" where
  "at_work k w = \<lparr>ws_worker = k\<lparr>kw_isWorking := True, kw_cancelled := False, kw_activeOrders := 0, kw_stopping := False\<rparr>,
     ws_lock = None, ws_world = w, ws_go = Map.empty\<rparr>"

section \<open>The code's functions are runs of the goroutines\<close>

lemma worker_run_step: "worker_step deps s1 s2 \<Longrightarrow> (worker_step deps)\<^sup>*\<^sup>* s2 s3 \<Longrightarrow> (worker_step deps)\<^sup>*\<^sup>* s1 s3"
  by (rule converse_rtranclp_into_rtranclp)

lemma work_runs:
  assumes "ws_go s i = Some (Busy ctx req p)" "\<not> kw_cancelled (ws_worker s)"
    and "cook_run deps (worker_name s) ctx req n p (ws_world s) = (p', w')"
  shows "(worker_step deps)\<^sup>*\<^sup>* s ((go s i (Busy ctx req p'))\<lparr>ws_world := w'\<rparr>)"
  using assms
proof (induction n arbitrary: s p)
  case 0
  then have "(go s i (Busy ctx req p'))\<lparr>ws_world := w'\<rparr> = s" by (auto simp: fun_upd_idem)
  then show ?case by (metis rtranclp.rtrancl_refl)
next
  case (Suc n)
  obtain p1 w1 where 1: "cook_step deps (worker_name s) ctx req p (ws_world s) = (p1, w1)" by fastforce
  then have 2: "in_worker_ctx (ws_worker s) (cook_step deps (worker_name s) ctx req p) (ws_world s) = (p1, w1)"
    using Suc.prems(2) by (simp add: in_worker_ctx_def)
  let ?s = "(go s i (Busy ctx req p1))\<lparr>ws_world := w1\<rparr>"
  have "(worker_step deps)\<^sup>*\<^sup>* ?s ((go ?s i (Busy ctx req p'))\<lparr>ws_world := w'\<rparr>)"
    using Suc.prems 1 by (intro Suc.IH) simp_all
  from worker_run_step [OF worker_step.work [OF Suc.prems(1) 2] this] show ?case by (simp del: fun_upd_apply)
qed

lemma wrapper_reachable:
  assumes "ws_go s i = None" "\<not> kw_cancelled (ws_worker s)"
    and w: "processOrderWrapper deps ctx req (ws_worker s) (ws_world s) = (r, k', w')"
  shows "(worker_step deps)\<^sup>*\<^sup>* s ((go s i (Handled r))\<lparr>ws_worker := k', ws_world := w'\<rparr>)"
proof -
  let ?k = "ws_worker s"
  let ?s1 = "go s i (Check ctx req)"
  have 1: "worker_step deps s ?s1" by (rule worker_step.deliver [OF assms(1)])
  show ?thesis
  proof (cases "kw_stopping ?k")
    case True
    have "worker_step deps ?s1 (go ?s1 i (Handled (Some (Opaque ''worker is stopping, cannot process new orders''))))"
      by (rule worker_step.refuse) (use True in simp_all)
    moreover have "go ?s1 i (Handled (Some (Opaque ''worker is stopping, cannot process new orders''))) = (go s i (Handled r))\<lparr>ws_worker := k', ws_world := w'\<rparr>"
      using w True by (auto simp: processOrderWrapper_def)
    ultimately show ?thesis using worker_run_step [OF 1] by (metis r_into_rtranclp)
  next
    case False
    define k1 where "k1 = ?k\<lparr>kw_activeOrders := kw_activeOrders ?k + 1\<rparr>"
    define s2 where "s2 = go ?s1 i (Enter ctx req)"
    define s3 where "s3 = (go s2 i (Busy ctx req Start_Cooking))\<lparr>ws_worker := (ws_worker s2)\<lparr>kw_activeOrders := kw_activeOrders (ws_worker s2) + 1\<rparr>\<rparr>"
    define s4 where "s4 = (go s3 i (Busy ctx req (Cooked r)))\<lparr>ws_world := w'\<rparr>"
    define s5 where "s5 = (go s4 i (Handled r))\<lparr>ws_worker := (ws_worker s4)\<lparr>kw_activeOrders := kw_activeOrders (ws_worker s4) - 1\<rparr>\<rparr>"
    have s3: "ws_go s3 i = Some (Busy ctx req Start_Cooking)" "ws_worker s3 = k1" "ws_world s3 = ws_world s"
      by (simp_all add: s3_def s2_def k1_def)
    obtain w1 where p: "proccessOrder deps k1 ctx (Some req) (ws_world s) = (r, w1)" and k': "k' = k1\<lparr>kw_activeOrders := kw_activeOrders k1 - 1\<rparr>" "w' = w1"
      using w False by (auto simp: processOrderWrapper_def Let_def k1_def split: prod.splits)
    have 2: "worker_step deps ?s1 s2" unfolding s2_def by (rule worker_step.pass) (use False in simp_all)
    have 3: "worker_step deps s2 s3" unfolding s3_def by (rule worker_step.count) (simp add: s2_def)
    have 4: "(worker_step deps)\<^sup>*\<^sup>* s3 s4"
      unfolding s4_def by (rule work_runs) (use s3 assms(2) cook_run_processes [OF p] k'(2) in \<open>simp_all add: k1_def\<close>)
    have 5: "worker_step deps s4 s5" unfolding s5_def by (rule worker_step.finish) (simp add: s4_def)
    have "s5 = (go s i (Handled r))\<lparr>ws_worker := k', ws_world := w'\<rparr>" using k' by (simp add: s5_def s4_def s3_def s2_def k1_def)
    moreover have "(worker_step deps)\<^sup>*\<^sup>* s s5"
      by (rule worker_run_step [OF 1 worker_run_step [OF 2 worker_run_step [OF 3 rtranclp.rtrancl_into_rtrancl [OF 4 5]]]])
    ultimately show ?thesis by simp
  qed
qed

lemma stop_reachable:
  assumes "ws_go s i = None" "ws_lock s = None"
  shows "Stop deps False (ws_worker s) (ws_world s) = Returns k' w' \<Longrightarrow>
      (worker_step deps)\<^sup>*\<^sup>* s ((go s i Stopped)\<lparr>ws_worker := k', ws_world := w'\<rparr>)"
    and "Stop deps False (ws_worker s) (ws_world s) = Panics \<Longrightarrow> (worker_step deps)\<^sup>*\<^sup>* s (go s i Panicked)"
proof -
  let ?k = "ws_worker s"
  let ?s1 = "go s i (At_Lock False)"
  let ?s2 = "(go ?s1 i (Locked False))\<lparr>ws_lock := Some i\<rparr>"
  have 1: "worker_step deps s ?s1" by (rule worker_step.stop [OF assms(1)])
  have 2: "worker_step deps ?s1 ?s2" by (rule worker_step.lock) (use assms in simp_all)
  have run: "worker_step deps ?s2 s3 \<Longrightarrow> (worker_step deps)\<^sup>*\<^sup>* s3 s' \<Longrightarrow> (worker_step deps)\<^sup>*\<^sup>* s s'" for s3 s'
    using worker_run_step [OF 1 worker_run_step [OF 2 worker_run_step]] by blast
  have unlocked: "(go s i g)\<lparr>ws_lock := None\<rparr> = go s i g" for g using assms(2) by simp
  show "(worker_step deps)\<^sup>*\<^sup>* s (go s i Panicked)" if "Stop deps False ?k (ws_world s) = Panics"
  proof -
    have "kw_isWorking ?k" "kw_stopping ?k"
      using that by (auto simp: Stop_def Let_def split: if_splits prod.splits option.splits)
    then have "worker_step deps ?s2 ((go ?s2 i Panicked)\<lparr>ws_lock := None\<rparr>)" by (intro worker_step.close_twice [where own = False]) simp_all
    from run [OF this rtranclp.rtrancl_refl] show ?thesis by (simp add: unlocked del: fun_upd_apply)
  qed
  show "(worker_step deps)\<^sup>*\<^sup>* s ((go s i Stopped)\<lparr>ws_worker := k', ws_world := w'\<rparr>)" if r: "Stop deps False ?k (ws_world s) = Returns k' w'"
  proof (cases "kw_isWorking ?k")
    case False
    then have "worker_step deps ?s2 ((go ?s2 i Stopped)\<lparr>ws_lock := None\<rparr>)" by (intro worker_step.not_working [where own = False]) simp_all
    from run [OF this rtranclp.rtrancl_refl] have "(worker_step deps)\<^sup>*\<^sup>* s (go s i Stopped)"
      by (simp add: unlocked del: fun_upd_apply)
    moreover have "(go s i Stopped)\<lparr>ws_worker := k', ws_world := w'\<rparr> = go s i Stopped" using False r by (simp add: Stop_def)
    ultimately show ?thesis by simp
  next
    case True
    obtain e where m: "kd_MarkOffline deps (wr_name (kw_worker ?k)) (ws_world s) = (e, w')"
      and k': "kw_activeOrders ?k = 0" "\<not> kw_stopping ?k" "k' = (let k1 = ?k\<lparr>kw_stopping := True, kw_cancelled := True\<rparr> in if e = None then k1\<lparr>kw_isWorking := False\<rparr> else k1)"
      using r True by (auto simp: Stop_def Let_def cancel_ctx_def split: if_splits prod.splits option.splits)
    define s2 where "s2 = ?s2"
    define s3 where "s3 = (go s2 i (Await False))\<lparr>ws_worker := (ws_worker s2)\<lparr>kw_stopping := True\<rparr>\<rparr>"
    define s4 where "s4 = go s3 i (Waited False)"
    define s5 where "s5 = (go s4 i (Leaving False))\<lparr>ws_worker := (ws_worker s4)\<lparr>kw_cancelled := True\<rparr>\<rparr>"
    define s6 where "s6 = (go s5 i Stopped)\<lparr>ws_worker := if e = None then (ws_worker s5)\<lparr>kw_isWorking := False\<rparr> else ws_worker s5, ws_lock := None, ws_world := w'\<rparr>"
    have 3: "worker_step deps s2 s3" unfolding s3_def by (rule worker_step.close_stopping) (use True k'(2) in \<open>simp_all add: s2_def\<close>)
    have 4: "worker_step deps s3 s4" unfolding s4_def by (rule worker_step.waited) (use k'(1) in \<open>simp_all add: s3_def s2_def\<close>)
    have 5: "worker_step deps s4 s5" unfolding s5_def by (rule worker_step.cancel) (simp add: s4_def)
    have 6: "worker_step deps s5 s6"
      unfolding s6_def by (rule worker_step.marked [where own = False]) (use m in \<open>simp_all add: s5_def s4_def s3_def s2_def\<close>)
    have "s6 = (go s i Stopped)\<lparr>ws_worker := k', ws_world := w'\<rparr>"
      using k'(3) assms(2) by (simp add: Let_def s6_def s5_def s4_def s3_def s2_def)
    moreover have "(worker_step deps)\<^sup>*\<^sup>* s s6"
      by (rule run [folded s2_def, OF 3 worker_run_step [OF 4 worker_run_step [OF 5 r_into_rtranclp [of "worker_step deps", OF 6]]]])
    ultimately show ?thesis by simp
  qed
qed

section \<open>What always holds\<close>

fun busy :: "goroutine option \<Rightarrow> bool" where
  "busy (Some (Busy ctx req p)) = True"
| "busy _ = False"

fun past_check :: "goroutine option \<Rightarrow> bool" where
  "past_check (Some (Enter ctx req)) = True"
| "past_check (Some (Busy ctx req p)) = True"
| "past_check _ = False"

fun stopping :: "goroutine option \<Rightarrow> bool" where
  "stopping (Some (Await own)) = True"
| "stopping (Some (Waited own)) = True"
| "stopping _ = False"

fun holds_lock :: "goroutine option \<Rightarrow> bool" where
  "holds_lock (Some (Locked own)) = True"
| "holds_lock (Some (Leaving own)) = True"
| "holds_lock g = stopping g"

definition worker_inv :: "worker_state \<Rightarrow> bool" where
  "worker_inv s \<longleftrightarrow> finite (dom (ws_go s))
     \<and> (\<forall>i. holds_lock (ws_go s i) \<longleftrightarrow> ws_lock s = Some i)
     \<and> kw_activeOrders (ws_worker s) = card {i. busy (ws_go s i)}
     \<and> (kw_stopping (ws_worker s) \<longleftrightarrow> kw_cancelled (ws_worker s) \<or> (\<exists>i. stopping (ws_go s i)))
     \<and> (kw_cancelled (ws_worker s) \<longrightarrow> (\<forall>i. \<not> stopping (ws_go s i)))
     \<and> (\<forall>i own. ws_go s i = Some (Leaving own) \<longrightarrow> kw_cancelled (ws_worker s))
     \<and> (kw_isWorking (ws_worker s) \<or> kw_cancelled (ws_worker s))
     \<and> (\<forall>i. ws_go s i = Some Panicked \<longrightarrow> kw_cancelled (ws_worker s))"

lemma at_work_inv: "worker_inv (at_work k w)"
  by (simp add: worker_inv_def at_work_def)

text \<open>A step of goroutine \<open>i\<close> to \<open>x\<close>.\<close>

lemma worker_inv_upd:
  assumes inv: "worker_inv s"
    and lock: "holds_lock x \<longleftrightarrow> l = Some i" "l = ws_lock s \<or> l = None \<and> holds_lock (ws_go s i) \<or> l = Some i \<and> ws_lock s = None"
    and active: "kw_activeOrders k = kw_activeOrders (ws_worker s) - (if busy (ws_go s i) then 1 else 0) + (if busy x then 1 else 0)"
    and flags: "kw_stopping (ws_worker s) \<longrightarrow> kw_stopping k" "kw_cancelled (ws_worker s) \<longrightarrow> kw_cancelled k"
      "kw_stopping k \<longleftrightarrow> kw_cancelled k \<or> stopping x \<or> (\<exists>j. j \<noteq> i \<and> stopping (ws_go s j))"
      "kw_cancelled k \<longrightarrow> \<not> stopping x \<and> (\<forall>j. j \<noteq> i \<longrightarrow> \<not> stopping (ws_go s j))"
      "(\<exists>own. x = Some (Leaving own)) \<or> \<not> kw_isWorking k \<or> x = Some Panicked \<longrightarrow> kw_cancelled k"
  shows "worker_inv (s\<lparr>ws_go := (ws_go s)(i := x), ws_worker := k, ws_lock := l, ws_world := w'\<rparr>)"
proof -
  have fin: "finite (dom (ws_go s))" and h: "\<And>j. holds_lock (ws_go s j) \<longleftrightarrow> ws_lock s = Some j"
    and act: "kw_activeOrders (ws_worker s) = card {j. busy (ws_go s j)}"
    and lv: "\<And>j own. ws_go s j = Some (Leaving own) \<Longrightarrow> kw_cancelled (ws_worker s)"
    and pn: "\<And>j. ws_go s j = Some Panicked \<Longrightarrow> kw_cancelled (ws_worker s)"
    using inv unfolding worker_inv_def by blast+
  have 1: "finite (dom ((ws_go s)(i := x)))"
    by (rule finite_subset [of _ "insert i (dom (ws_go s))"]) (use fin in auto)
  have 2: "holds_lock (((ws_go s)(i := x)) j) \<longleftrightarrow> l = Some j" for j using lock h [of j] h [of i] by auto
  have 3: "kw_activeOrders k = card {j. busy (((ws_go s)(i := x)) j)}"
    using active act card_counted_upd(1) [OF fin, of busy i x] by simp
  have 4: "(\<exists>j. stopping (((ws_go s)(i := x)) j)) \<longleftrightarrow> stopping x \<or> (\<exists>j. j \<noteq> i \<and> stopping (ws_go s j))" by auto
  have 5: "(\<forall>j. \<not> stopping (((ws_go s)(i := x)) j)) \<longleftrightarrow> \<not> stopping x \<and> (\<forall>j. j \<noteq> i \<longrightarrow> \<not> stopping (ws_go s j))" by auto
  have 6: "kw_cancelled k" if "((ws_go s)(i := x)) j = Some (Leaving own)" for j own
    using that flags(2,5) lv [of j own] by (cases "j = i") auto
  have 7: "kw_cancelled k" if "((ws_go s)(i := x)) j = Some Panicked" for j
    using that flags(2,5) pn [of j] by (cases "j = i") auto
  have 8: "kw_isWorking k \<or> kw_cancelled k" using flags(5) by blast
  show ?thesis
    unfolding worker_inv_def using 1 2 3 flags(3,4) 6 7 8 4 5 by (simp del: fun_upd_apply)
qed

lemma stopping_holds: "stopping g \<Longrightarrow> holds_lock g"
  by (cases g rule: stopping.cases) auto

lemma worker_invD:
  assumes "worker_inv s"
  shows "kw_stopping (ws_worker s) \<longleftrightarrow> kw_cancelled (ws_worker s) \<or> (\<exists>j. stopping (ws_go s j))"
    "kw_cancelled (ws_worker s) \<Longrightarrow> \<not> stopping (ws_go s j)"
    "ws_go s i = Some (Leaving own) \<Longrightarrow> kw_cancelled (ws_worker s)"
    "\<not> kw_isWorking (ws_worker s) \<Longrightarrow> kw_cancelled (ws_worker s)"
    "holds_lock (ws_go s i) \<longleftrightarrow> ws_lock s = Some i"
    "holds_lock (ws_go s i) \<Longrightarrow> j \<noteq> i \<Longrightarrow> \<not> stopping (ws_go s j)"
proof -
  show "kw_stopping (ws_worker s) \<longleftrightarrow> kw_cancelled (ws_worker s) \<or> (\<exists>j. stopping (ws_go s j))"
    "kw_cancelled (ws_worker s) \<Longrightarrow> \<not> stopping (ws_go s j)"
    "ws_go s i = Some (Leaving own) \<Longrightarrow> kw_cancelled (ws_worker s)"
    "\<not> kw_isWorking (ws_worker s) \<Longrightarrow> kw_cancelled (ws_worker s)"
    "holds_lock (ws_go s i) \<longleftrightarrow> ws_lock s = Some i"
    using assms unfolding worker_inv_def by blast+
  have "holds_lock (ws_go s k) \<longleftrightarrow> ws_lock s = Some k" for k using assms unfolding worker_inv_def by blast
  then show "holds_lock (ws_go s i) \<Longrightarrow> j \<noteq> i \<Longrightarrow> \<not> stopping (ws_go s j)" using stopping_holds by fastforce
qed

text \<open>Steps that leave flags and lock alone.\<close>

lemma worker_inv_quiet:
  assumes "worker_inv s" "\<not> holds_lock (ws_go s i)" "\<not> holds_lock x" "x \<noteq> Some Panicked"
    and "kw_activeOrders k = kw_activeOrders (ws_worker s) - (if busy (ws_go s i) then 1 else 0) + (if busy x then 1 else 0)"
    and "kw_stopping k = kw_stopping (ws_worker s)" "kw_cancelled k = kw_cancelled (ws_worker s)"
      "kw_isWorking k = kw_isWorking (ws_worker s)"
  shows "worker_inv (s\<lparr>ws_go := (ws_go s)(i := x), ws_worker := k, ws_world := w'\<rparr>)"
proof -
  note d = worker_invD [OF assms(1)]
  have n: "\<not> stopping (ws_go s i)" "\<not> stopping x" "\<And>own. x \<noteq> Some (Leaving own)"
    using assms(2,3) stopping_holds by auto
  then have e: "(\<exists>j. stopping (ws_go s j)) \<longleftrightarrow> (\<exists>j. j \<noteq> i \<and> stopping (ws_go s j))" by metis
  have l: "ws_lock s \<noteq> Some i" using d(5) [of i] assms(2) by simp
  have "worker_inv (s\<lparr>ws_go := (ws_go s)(i := x), ws_worker := k, ws_lock := ws_lock s, ws_world := w'\<rparr>)"
    by (rule worker_inv_upd [OF assms(1) _ _ assms(5)]) (use assms(3,4,6-8) n l d(1-4) e in auto)
  then show ?thesis by simp
qed

text \<open>Steps of the goroutine that holds the lock and keeps it.\<close>

lemma worker_inv_held:
  assumes inv: "worker_inv s" and "holds_lock (ws_go s i)" "holds_lock x" "x \<noteq> Some Panicked"
    and "kw_activeOrders k = kw_activeOrders (ws_worker s)" "\<not> busy (ws_go s i)" "\<not> busy x" "kw_isWorking k = kw_isWorking (ws_worker s)"
    and "kw_stopping (ws_worker s) \<longrightarrow> kw_stopping k" "kw_cancelled (ws_worker s) \<longrightarrow> kw_cancelled k"
      "kw_stopping k \<longleftrightarrow> kw_cancelled k \<or> stopping x" "kw_cancelled k \<longrightarrow> \<not> stopping x"
      "(\<exists>own. x = Some (Leaving own)) \<longrightarrow> kw_cancelled k"
  shows "worker_inv (s\<lparr>ws_go := (ws_go s)(i := x), ws_worker := k\<rparr>)"
proof -
  note d = worker_invD [OF inv]
  have "worker_inv (s\<lparr>ws_go := (ws_go s)(i := x), ws_worker := k, ws_lock := ws_lock s, ws_world := ws_world s\<rparr>)"
    by (rule worker_inv_upd [OF inv]) (use assms d(5) [of i] d(6) [OF assms(2)] d(4) in auto)
  then show ?thesis by simp
qed

lemma worker_step_inv: "worker_step deps s s' \<Longrightarrow> worker_inv s \<Longrightarrow> worker_inv s'"
proof (induction rule: worker_step.induct)
  case (deliver s i ctx req)
  with worker_inv_quiet [of s i "Some (Check ctx req)" "ws_worker s" "ws_world s"] show ?case by simp
next
  case (refuse s i ctx req)
  with worker_inv_quiet [of s i _ "ws_worker s" "ws_world s"] show ?case by simp
next
  case (pass s i ctx req)
  with worker_inv_quiet [of s i "Some (Enter ctx req)" "ws_worker s" "ws_world s"] show ?case by simp
next
  case (count s i ctx req)
  with worker_inv_quiet [of s i "Some (Busy ctx req Start_Cooking)" _ "ws_world s"] show ?case by simp
next
  case (work s i ctx req p p' w')
  then have "0 < kw_activeOrders (ws_worker s)"
    using card_counted_upd(2) [of "ws_go s" busy i] by (simp add: worker_inv_def)
  with work worker_inv_quiet [of s i "Some (Busy ctx req p')" "ws_worker s" w'] show ?case by simp
next
  case (finish s i ctx req r)
  with worker_inv_quiet [of s i "Some (Handled r)" _ "ws_world s"] show ?case by simp
next
  case (stop s i own)
  with worker_inv_quiet [of s i "Some (At_Lock own)" "ws_worker s" "ws_world s"] show ?case by simp
next
  case (lock s i own)
  note d = worker_invD [OF lock(3)]
  have "\<not> stopping (ws_go s i)" using lock(1) by simp
  then have "(\<exists>j. stopping (ws_go s j)) \<longleftrightarrow> (\<exists>j. j \<noteq> i \<and> stopping (ws_go s j))" by metis
  with lock worker_inv_upd [of s "Some (Locked own)" "Some i" i "ws_worker s" "ws_world s"] d show ?case by simp
next
  case (not_working s i own)
  note d = worker_invD [OF not_working(3)]
  with not_working worker_inv_upd [of s "Some Stopped" None i "ws_worker s" "ws_world s"] show ?case by auto
next
  case (close_twice s i own)
  note d = worker_invD [OF close_twice(4)]
  have "\<not> stopping (ws_go s j)" for j using close_twice(1) d(6) [of i j] by (cases "j = i") simp_all
  then have "kw_cancelled (ws_worker s)" using close_twice(3) d(1) by blast
  with close_twice d worker_inv_upd [of s "Some Panicked" None i "ws_worker s" "ws_world s"] show ?case by auto
next
  case (close_stopping s i own)
  note d = worker_invD [OF close_stopping(4)]
  have "\<not> kw_cancelled (ws_worker s)" using close_stopping(3) d(1) by blast
  with close_stopping worker_inv_held [of s i "Some (Await own)" "(ws_worker s)\<lparr>kw_stopping := True\<rparr>"] show ?case by simp
next
  case (waited s i own)
  note d = worker_invD [OF waited(3)]
  have "stopping (ws_go s i)" using waited(1) by simp
  then have "kw_stopping (ws_worker s)" "\<not> kw_cancelled (ws_worker s)" using d(1,2) by blast+
  with waited worker_inv_held [of s i "Some (Waited own)" "ws_worker s"] show ?case by simp
next
  case (cancel s i own)
  note d = worker_invD [OF cancel(2)]
  have "stopping (ws_go s i)" using cancel(1) by simp
  then have "kw_stopping (ws_worker s)" using d(1) by blast
  with cancel worker_inv_held [of s i "Some (Leaving own)" "(ws_worker s)\<lparr>kw_cancelled := True\<rparr>"] show ?case by simp
next
  case (marked s i own r w')
  note d = worker_invD [OF marked(3)]
  with marked worker_inv_upd [of s "Some Stopped" None i
      "if r = None then (ws_worker s)\<lparr>kw_isWorking := False\<rparr> else ws_worker s" w'] show ?case by auto
next
  case (elsewhere s w')
  then show ?case by (simp add: worker_inv_def)
qed

text \<open>A panic happens only after a stop that could not mark the worker offline.\<close>

definition panic_inv :: "worker_state \<Rightarrow> bool" where
  "panic_inv s \<longleftrightarrow>
     (\<forall>i. ws_go s i = Some Panicked \<longrightarrow> kw_isWorking (ws_worker s) \<and> (\<forall>j own. ws_go s j \<noteq> Some (Leaving own)))"

lemma worker_step_panic:
  assumes "worker_step deps s s'" "worker_inv s" "panic_inv s"
  shows "panic_inv s'"
  using assms
proof (induction rule: worker_step.induct)
  case (close_twice s i own)
  then have "ws_go s j \<noteq> Some (Leaving own')" for j own'
    using worker_invD(5) [OF close_twice(4), of i] worker_invD(5) [OF close_twice(4), of j] by auto
  with close_twice show ?case by (auto simp: panic_inv_def)
next
  case (cancel s i own)
  then have "\<not> kw_cancelled (ws_worker s)" using worker_invD(2) [OF cancel(2), of i] by auto
  then have "ws_go s j \<noteq> Some Panicked" for j using cancel(2) unfolding worker_inv_def by blast
  then show ?case by (auto simp: panic_inv_def)
next
  case (marked s i own r w')
  then have "ws_go s j \<noteq> Some Panicked" for j unfolding panic_inv_def by blast
  then show ?case by (auto simp: panic_inv_def)
qed (auto simp: panic_inv_def split: if_splits)

lemma worker_step_past_check:
  assumes "worker_step deps s s'" "kw_stopping (ws_worker s)"
  shows "kw_stopping (ws_worker s') \<and> {i. past_check (ws_go s' i)} \<subseteq> {i. past_check (ws_go s i)}"
  using assms by (induction rule: worker_step.induct) auto

lemma worker_run_inv:
  assumes "(worker_step deps)\<^sup>*\<^sup>* (at_work k w) s"
  shows "worker_inv s \<and> panic_inv s"
  using assms
proof (induction rule: rtranclp_induct)
  case base
  show ?case by (simp add: at_work_inv) (simp add: panic_inv_def at_work_def)
next
  case (step s1 s2)
  then show ?case using worker_step_inv worker_step_panic by blast
qed

lemma worker_run_past_check:
  assumes "(worker_step deps)\<^sup>*\<^sup>* s s'" "kw_stopping (ws_worker s)"
  shows "kw_stopping (ws_worker s') \<and> {i. past_check (ws_go s' i)} \<subseteq> {i. past_check (ws_go s i)}"
  using assms
proof (induction rule: rtranclp_induct)
  case (step s1 s2)
  then show ?case using worker_step_past_check by (meson subset_trans)
qed simp

lemma busy_past_check: "busy g \<Longrightarrow> past_check g"
  by (cases g rule: busy.cases) auto

text \<open>
  C5. Stopping a worker: in every interleaving of stops and deliveries at most one stop is inside the
  mutex, the wait group counts the orders at work, and once the stopping channel is closed no further order gets
  past the check, so when none was past it then, none is ever worked on again; a worker marked
  offline has its context cancelled; and closing the channel a second time, a panic,
  happens only when a stop before could not mark the worker offline.
\<close>

theorem worker_stop_safe:
  assumes "(worker_step deps)\<^sup>*\<^sup>* (at_work k w) s" "(worker_step deps)\<^sup>*\<^sup>* s s'"
  shows "(\<forall>i j. holds_lock (ws_go s i) \<and> holds_lock (ws_go s j) \<longrightarrow> i = j)
    \<and> kw_activeOrders (ws_worker s) = card {i. busy (ws_go s i)}
    \<and> (kw_stopping (ws_worker s) \<longrightarrow> {i. past_check (ws_go s' i)} \<subseteq> {i. past_check (ws_go s i)})
    \<and> (kw_stopping (ws_worker s) \<and> (\<forall>i. \<not> past_check (ws_go s i)) \<longrightarrow> kw_activeOrders (ws_worker s') = 0)
    \<and> (\<not> kw_isWorking (ws_worker s) \<longrightarrow> kw_cancelled (ws_worker s) \<and> kw_stopping (ws_worker s))
    \<and> (\<forall>i. ws_go s i = Some Panicked \<longrightarrow> kw_isWorking (ws_worker s) \<and> kw_cancelled (ws_worker s))"
proof -
  have i: "worker_inv s" "panic_inv s" using worker_run_inv [OF assms(1)] by blast+
  have i': "worker_inv s'" using worker_run_inv [OF rtranclp_trans [OF assms]] by blast
  note d = worker_invD [OF i(1)]
  have "kw_activeOrders (ws_worker s') = 0" if "kw_stopping (ws_worker s)" "\<forall>i. \<not> past_check (ws_go s i)"
  proof -
    have "{i. busy (ws_go s' i)} = {}"
      using worker_run_past_check [OF assms(2) that(1)] that(2) busy_past_check by blast
    then show ?thesis using i' by (simp add: worker_inv_def)
  qed
  moreover have "\<forall>i. ws_go s i = Some Panicked \<longrightarrow> kw_isWorking (ws_worker s) \<and> kw_cancelled (ws_worker s)"
    using i unfolding worker_inv_def panic_inv_def by blast
  ultimately show ?thesis
    using worker_run_past_check [OF assms(2)] d(1,4,5) i(1) unfolding worker_inv_def by (metis option.inject)
qed

section \<open>Everyone gets away\<close>

text \<open>The steps a goroutine still has to take.\<close>

fun cook_left :: "cook \<Rightarrow> nat" where
  "cook_left Start_Cooking = 6"
| "cook_left (Tell_Cooking old t) = 5"
| "cook_left (Wait_Cooking c) = 4"
| "cook_left (Set_Ready c) = 3"
| "cook_left (Tell_Ready old t c) = 2"
| "cook_left Count_Order = 1"
| "cook_left (Cooked r) = 0"

fun steps_left :: "goroutine \<Rightarrow> nat" where
  "steps_left (Check ctx req) = 9"
| "steps_left (Enter ctx req) = 8"
| "steps_left (Busy ctx req p) = Suc (cook_left p)"
| "steps_left (At_Lock own) = 5"
| "steps_left (Locked own) = 4"
| "steps_left (Await own) = 3"
| "steps_left (Waited own) = 2"
| "steps_left (Leaving own) = 1"
| "steps_left _ = 0"

definition all_left :: "worker_state \<Rightarrow> nat" where
  "all_left s = (\<Sum>i\<in>dom (ws_go s). steps_left (the (ws_go s i)))"

lemma cook_left_step: "cook_step deps name ctx req p w = (p', w') \<Longrightarrow> (\<nexists>r. p = Cooked r) \<Longrightarrow> cook_left p' < cook_left p"
  by (cases p) (auto simp: Let_def split: prod.splits sum.splits)

lemma in_worker_ctx_fst: "in_worker_ctx k f w = (r, w') \<Longrightarrow> \<exists>w1 w1'. f w1 = (r, w1')"
  by (auto simp: in_worker_ctx_def split: if_splits prod.splits)

lemma all_left_less:
  assumes "finite (dom (ws_go s))" "ws_go s i = Some g" "steps_left g' < steps_left g" "ws_go s' = (ws_go s)(i \<mapsto> g')"
  shows "all_left s' < all_left s \<and> dom (ws_go s') = dom (ws_go s)"
proof -
  have d: "dom (ws_go s') = dom (ws_go s)" using assms(2,4) by auto
  moreover have "(\<Sum>j\<in>dom (ws_go s). steps_left (the (ws_go s' j))) < (\<Sum>j\<in>dom (ws_go s). steps_left (the (ws_go s j)))"
    by (rule sum_strict_mono_ex1) (use assms in auto)
  ultimately show ?thesis by (simp add: all_left_def)
qed

text \<open>One that processes an order waits for nobody.\<close>

lemma handling_progress:
  assumes "ws_go s i = Some g" "g = Check ctx req \<or> g = Enter ctx req \<or> g = Busy ctx req p"
  shows "\<exists>s' g'. worker_step deps s s' \<and> ws_go s' = (ws_go s)(i \<mapsto> g') \<and> steps_left g' < steps_left g"
  using assms(2)
proof (elim disjE)
  assume "g = Check ctx req"
  with assms(1) worker_step.refuse [of s i ctx req deps] worker_step.pass [of s i ctx req deps] show ?thesis
    by (cases "kw_stopping (ws_worker s)") fastforce+
next
  assume "g = Enter ctx req"
  with assms(1) worker_step.count [of s i ctx req deps] show ?thesis by fastforce
next
  assume g: "g = Busy ctx req p"
  show ?thesis
  proof (cases "\<exists>r. p = Cooked r")
    case True
    with g assms(1) worker_step.finish [of s i ctx req _ deps] show ?thesis by fastforce
  next
    case False
    obtain p' w' where c: "in_worker_ctx (ws_worker s) (cook_step deps (worker_name s) ctx req p) (ws_world s) = (p', w')" by fastforce
    with False in_worker_ctx_fst [OF c] have "cook_left p' < cook_left p" using cook_left_step by blast
    with g assms(1) worker_step.work [OF _ c, of i] show ?thesis by fastforce
  qed
qed

text \<open>Nor does the one inside the mutex, once no order is at work.\<close>

lemma locked_progress:
  assumes "ws_go s i = Some g" "holds_lock (Some g)" "kw_activeOrders (ws_worker s) = 0"
  shows "\<exists>s' g'. worker_step deps s s' \<and> ws_go s' = (ws_go s)(i \<mapsto> g') \<and> steps_left g' < steps_left g"
proof (cases g)
  case (Locked own)
  with assms(1) worker_step.not_working [of s i own deps] worker_step.close_twice [of s i own deps] worker_step.close_stopping [of s i own deps]
  show ?thesis by (cases "kw_isWorking (ws_worker s)"; cases "kw_stopping (ws_worker s)") fastforce+
next
  case (Await own)
  with assms worker_step.waited [of s i own deps] show ?thesis by fastforce
next
  case (Waited own)
  with assms(1) worker_step.cancel [of s i own deps] show ?thesis by fastforce
next
  case (Leaving own)
  obtain r w' where "(if own then in_worker_ctx (ws_worker s) else id) (kd_MarkOffline deps (worker_name s)) (ws_world s) = (r, w')"
    by fastforce
  with Leaving assms(1) worker_step.marked [of s i own deps r w'] show ?thesis by fastforce
qed (use assms(2) in simp_all)

lemma worker_progress:
  assumes inv: "worker_inv s" and i: "ws_go s i = Some g" "0 < steps_left g"
  shows "\<exists>s'. worker_step deps s s' \<and> all_left s' < all_left s \<and> dom (ws_go s') = dom (ws_go s)"
proof -
  have fin: "finite (dom (ws_go s))" using inv by (simp add: worker_inv_def)
  have "\<exists>s' j h g'. worker_step deps s s' \<and> ws_go s j = Some h \<and> ws_go s' = (ws_go s)(j \<mapsto> g') \<and> steps_left g' < steps_left h"
  proof (cases "\<exists>j ctx req p. ws_go s j = Some (Check ctx req) \<or> ws_go s j = Some (Enter ctx req) \<or> ws_go s j = Some (Busy ctx req p)")
    case True
    then show ?thesis using handling_progress by blast
  next
    case False
    then have "{j. busy (ws_go s j)} = {}" by (auto elim: busy.elims)
    then have idle: "kw_activeOrders (ws_worker s) = 0" using inv by (simp add: worker_inv_def)
    show ?thesis
    proof (cases "ws_lock s")
      case (Some j)
      then have "holds_lock (ws_go s j)" using worker_invD(5) [OF inv] by blast
      moreover from this obtain h where "ws_go s j = Some h" by (cases "ws_go s j") auto
      ultimately show ?thesis using locked_progress [OF _ _ idle] by metis
    next
      case None
      then have "\<not> holds_lock (ws_go s i)" using worker_invD(5) [OF inv] by simp
      then obtain own where "g = At_Lock own" using i False by (cases g) auto
      with i None worker_step.lock [of s i own deps] show ?thesis by fastforce
    qed
  qed
  then show ?thesis using all_left_less [OF fin] by blast
qed

text \<open>
  C6. Nobody waits for ever: from every state that stops and deliveries can reach, in whatever
  order they ran so far, the goroutines that exist can all return, none of them starting another: each
  delivery is handled, each stop has returned or panicked, the mutex is free and the wait group is back at zero.
  So no stop can be caught between the mutex and the orders it waits for. Each single call to
  the database and the broker is taken to return.
\<close>

theorem nobody_waits_for_ever:
  assumes "(worker_step deps)\<^sup>*\<^sup>* (at_work k w) s"
  shows "\<exists>s'. (worker_step deps)\<^sup>*\<^sup>* s s' \<and> dom (ws_go s') = dom (ws_go s)
    \<and> (\<forall>i g. ws_go s' i = Some g \<longrightarrow> (\<exists>r. g = Handled r) \<or> g = Stopped \<or> g = Panicked)
    \<and> ws_lock s' = None \<and> kw_activeOrders (ws_worker s') = 0"
  using assms
proof (induction "all_left s" arbitrary: s rule: less_induct)
  case less
  have inv: "worker_inv s" using worker_run_inv [OF less.prems] by blast
  show ?case
  proof (cases "\<exists>i g. ws_go s i = Some g \<and> 0 < steps_left g")
    case True
    then obtain s1 where 1: "worker_step deps s s1" "all_left s1 < all_left s" "dom (ws_go s1) = dom (ws_go s)"
      using worker_progress [OF inv] by blast
    from less.hyps [OF 1(2) rtranclp.rtrancl_into_rtrancl [OF less.prems 1(1)]] 1(3)
    show ?thesis using worker_run_step [OF 1(1)] by metis
  next
    case False
    then have done': "(\<exists>r. g = Handled r) \<or> g = Stopped \<or> g = Panicked" if "ws_go s i = Some g" for i g
    proof -
      have "steps_left g = 0" using False that by auto
      then show ?thesis by (cases g) simp_all
    qed
    have "ws_lock s = None"
    proof (rule ccontr)
      assume "ws_lock s \<noteq> None"
      then obtain i where "holds_lock (ws_go s i)" using worker_invD(5) [OF inv] by blast
      then show False using done' [of i] by (cases "ws_go s i") auto
    qed
    moreover have "{i. busy (ws_go s i)} = {}" using done' by (fastforce elim: busy.elims)
    then have "kw_activeOrders (ws_worker s) = 0" using inv by (simp add: worker_inv_def)
    ultimately show ?thesis using done' by (intro exI [of _ s]) simp
  qed
qed

section \<open>The order that slips through\<close>

lemma cancelled_SetStatus:
  assumes "ctx_err w = Some e"
  shows "SetStatus n name st nt w = (Inl (errorf_v set_status_op e), w)"
  using assms by (simp add: SetStatus_def begin_tx_def call_def)

text \<open>The error of an order whose first update finds the worker's context cancelled.\<close>

definition cancelled_order :: err where
  "cancelled_order = errorf_w ''failed to set cooking status for order : '' (errorf_v set_status_op context_Canceled)"

lemma cancelled_order_dead_lettered: "\<not> isRecoverableError cancelled_order"
  by (simp add: cancelled_order_def isRecoverableError_def errorf_w_def errorf_v_def ErrNilOrder_def context_Canceled_def)

text \<open>
  C37. An order can slip past the stop: the check of the stopping channel and the addition to the wait
  group are two steps. When the worker's name can be marked offline and the caller's context is
  live, there is a run in which a stop has waited for no order, cancelled the context, marked the worker
  offline and returned while a delivery stands between its check and the addition; the next step counts
  that delivery and starts its work; the work then fails on the cancelled context without a change of
  the database, with an error that sends the message to the dead-letter queue.
\<close>

theorem order_slips_past_stop:
  assumes "ctx_err w = None" "MarkOffline (wr_name (kw_worker k)) w = (None, w')"
  shows "\<exists>s s1 s2 i j. (worker_step (kitchen_deps_impl cfg))\<^sup>*\<^sup>* (at_work k w) s
    \<and> ws_go s j = Some Stopped \<and> \<not> kw_isWorking (ws_worker s) \<and> kw_cancelled (ws_worker s)
    \<and> kw_activeOrders (ws_worker s) = 0 \<and> db (ws_world s) = db w' \<and> ws_go s i = Some (Enter ctx req)
    \<and> worker_step (kitchen_deps_impl cfg) s s1
    \<and> ws_go s1 i = Some (Busy ctx req Start_Cooking) \<and> kw_activeOrders (ws_worker s1) = 1
    \<and> (worker_step (kitchen_deps_impl cfg))\<^sup>*\<^sup>* s1 s2
    \<and> ws_go s2 i = Some (Handled (Some cancelled_order)) \<and> \<not> isRecoverableError cancelled_order
    \<and> db (ws_world s2) = db w'"
proof -
  let ?deps = "kitchen_deps_impl cfg"
  define s1 where "s1 = go (at_work k w) 0 (Check ctx req)"
  define s2 where "s2 = go s1 0 (Enter ctx req)"
  obtain k' where st: "Stop ?deps False (ws_worker s2) (ws_world s2) = Returns k' w'" "\<not> kw_isWorking k'" "kw_cancelled k'" "kw_activeOrders k' = 0"
    using assms(2) by (simp add: Stop_def Let_def cancel_ctx_def kitchen_deps_impl_def s2_def s1_def at_work_def)
  define s3 where "s3 = (go s2 1 Stopped)\<lparr>ws_worker := k', ws_world := w'\<rparr>"
  define s4 where "s4 = (go s3 0 (Busy ctx req Start_Cooking))\<lparr>ws_worker := (ws_worker s3)\<lparr>kw_activeOrders := kw_activeOrders (ws_worker s3) + 1\<rparr>\<rparr>"
  define s5 where "s5 = (go s4 0 (Busy ctx req (Cooked (Some cancelled_order))))\<lparr>ws_world := w'\<rparr>"
  define s6 where "s6 = (go s5 0 (Handled (Some cancelled_order)))\<lparr>ws_worker := (ws_worker s5)\<lparr>kw_activeOrders := kw_activeOrders (ws_worker s5) - 1\<rparr>\<rparr>"
  have 1: "worker_step ?deps (at_work k w) s1" unfolding s1_def by (rule worker_step.deliver) (simp add: at_work_def)
  have 2: "worker_step ?deps s1 s2" unfolding s2_def by (rule worker_step.pass) (simp_all add: s1_def at_work_def)
  have "(worker_step ?deps)\<^sup>*\<^sup>* s2 s3"
    unfolding s3_def by (rule stop_reachable(1) [OF _ _ st(1)]) (simp_all add: s2_def s1_def at_work_def)
  note 3 = worker_run_step [OF 1 worker_run_step [OF 2 this]]
  have 4: "worker_step ?deps s3 s4" unfolding s4_def by (rule worker_step.count) (simp add: s3_def s2_def)
  have "ctx_err w' = None"
    using exec_update_db_only [OF assms(2) [unfolded MarkOffline_def]] assms(1) by (simp add: db_only_def)
  then have "in_worker_ctx (ws_worker s4) (cook_step ?deps (worker_name s4) ctx req Start_Cooking) (ws_world s4) = (Cooked (Some cancelled_order), w')"
    using st(3) cancelled_SetStatus [of "w'\<lparr>ctx_err := Some context_Canceled\<rparr>" context_Canceled]
    by (simp add: in_worker_ctx_def kitchen_deps_impl_def cancelled_order_def s4_def s3_def)
  then have 5: "worker_step ?deps s4 s5" unfolding s5_def by (intro worker_step.work) (simp_all add: s4_def)
  have 6: "worker_step ?deps s5 s6" unfolding s6_def by (rule worker_step.finish) (simp add: s5_def)
  note 7 = worker_run_step [OF 5 r_into_rtranclp [of "worker_step ?deps", OF 6]]
  have "ws_go s3 1 = Some Stopped" "\<not> kw_isWorking (ws_worker s3)" "kw_cancelled (ws_worker s3)" "kw_activeOrders (ws_worker s3) = 0"
    "db (ws_world s3) = db w'" "ws_go s3 0 = Some (Enter ctx req)"
    using st(2-4) by (simp_all add: s3_def s2_def)
  moreover have "ws_go s4 0 = Some (Busy ctx req Start_Cooking)" "kw_activeOrders (ws_worker s4) = 1"
    using st(4) by (simp_all add: s4_def s3_def)
  moreover have "ws_go s6 0 = Some (Handled (Some cancelled_order))" "db (ws_world s6) = db w'"
    by (simp_all add: s6_def s5_def)
  ultimately show ?thesis using 3 4 7 cancelled_order_dead_lettered by (intro exI conjI)
qed

text \<open>An order refused by a stopping worker is dead-lettered as well.\<close>

lemma refused_order_dead_lettered:
  assumes "kw_stopping s" "ToInternalOrder body = Inr req"
  shows "\<exists>ctx'. handle_delivery (processOrderWrapper deps) tag body ctx s w = (ctx', s, settle (Nack tag False) w)"
  using assms by (auto simp: handle_delivery_def processOrderWrapper_def Let_def isRecoverableError_def ErrNilOrder_def
      FromPublishToInternalOrder_def)

theorem order_slips_past_stop_witness:
  "\<exists>s s1 s2 i. (worker_step (kitchen_deps_impl example_rabbit))\<^sup>*\<^sup>* (at_work example_kitchen kitchen_world) s
     \<and> \<not> kw_isWorking (ws_worker s) \<and> kw_activeOrders (ws_worker s) = 0
     \<and> worker_step (kitchen_deps_impl example_rabbit) s s1 \<and> kw_activeOrders (ws_worker s1) = 1
     \<and> (worker_step (kitchen_deps_impl example_rabbit))\<^sup>*\<^sup>* s1 s2 \<and> ws_go s2 i = Some (Handled (Some cancelled_order))"
proof -
  have "ctx_err kitchen_world = None" using kitchen_world_facts(1) by (simp add: quiet_def)
  moreover obtain w' where "MarkOffline (wr_name (kw_worker example_kitchen)) kitchen_world = (None, w')"
    using MarkOffline_live [OF kitchen_world_facts(1), of "wr_name (kw_worker example_kitchen)"] kitchen_world_facts(6)
    by (auto simp: orders_processed_by_def)
  ultimately show ?thesis using order_slips_past_stop by blast
qed

text \<open>Two stops and a delivery, the first stop already holding the mutex.\<close>

theorem nobody_waits_for_ever_witness:
  "\<exists>s s'. (worker_step (kitchen_deps_impl example_rabbit))\<^sup>*\<^sup>* (at_work example_kitchen kitchen_world) s
     \<and> ws_go s 0 = Some (Locked False) \<and> ws_go s 1 = Some (At_Lock True) \<and> ws_go s 2 = Some (Check None kitchen_order)
     \<and> (worker_step (kitchen_deps_impl example_rabbit))\<^sup>*\<^sup>* s s' \<and> dom (ws_go s') = {0, 1, 2} \<and> ws_lock s' = None"
proof -
  let ?deps = "kitchen_deps_impl example_rabbit" and ?s = "at_work example_kitchen kitchen_world"
  define s1 where "s1 = go ?s 0 (At_Lock False)"
  define s2 where "s2 = go s1 1 (At_Lock True)"
  define s3 where "s3 = go s2 2 (Check None kitchen_order)"
  define s4 where "s4 = (go s3 0 (Locked False))\<lparr>ws_lock := Some 0\<rparr>"
  have 1: "worker_step ?deps ?s s1" unfolding s1_def by (rule worker_step.stop) (simp add: at_work_def)
  have 2: "worker_step ?deps s1 s2" unfolding s2_def by (rule worker_step.stop) (simp add: s1_def at_work_def)
  have 3: "worker_step ?deps s2 s3" unfolding s3_def by (rule worker_step.deliver) (simp add: s2_def s1_def at_work_def)
  have 4: "worker_step ?deps s3 s4" unfolding s4_def by (rule worker_step.lock) (simp_all add: s3_def s2_def s1_def at_work_def)
  note run = worker_run_step [OF 1 worker_run_step [OF 2 worker_run_step [OF 3 r_into_rtranclp [of "worker_step ?deps", OF 4]]]]
  have g: "ws_go s4 0 = Some (Locked False)" "ws_go s4 1 = Some (At_Lock True)" "ws_go s4 2 = Some (Check None kitchen_order)"
    "dom (ws_go s4) = {0, 1, 2}"
    by (auto simp: s4_def s3_def s2_def s1_def at_work_def)
  from nobody_waits_for_ever [OF run] run g show ?thesis by metis
qed

theorem worker_stop_safe_witness:
  "\<exists>s :: worker_state. \<not> kw_isWorking (ws_worker s) \<and> kw_cancelled (ws_worker s) \<and> kw_activeOrders (ws_worker s) = card {i. busy (ws_go s i)}"
proof -
  obtain w' where m: "MarkOffline (wr_name (kw_worker example_kitchen)) kitchen_world = (None, w')"
    using MarkOffline_live [OF kitchen_world_facts(1), of "wr_name (kw_worker example_kitchen)"] kitchen_world_facts(6)
    by (auto simp: orders_processed_by_def)
  let ?s = "at_work example_kitchen kitchen_world" and ?deps = "kitchen_deps_impl example_rabbit"
  obtain k' where st: "Stop ?deps False (ws_worker ?s) (ws_world ?s) = Returns k' w'" "\<not> kw_isWorking k'"
    using m by (simp add: Stop_def Let_def cancel_ctx_def kitchen_deps_impl_def at_work_def)
  define s where "s = (go ?s 0 Stopped)\<lparr>ws_worker := k', ws_world := w'\<rparr>"
  have "(worker_step ?deps)\<^sup>*\<^sup>* ?s s"
    unfolding s_def by (rule stop_reachable(1) [OF _ _ st(1)]) (simp_all add: at_work_def)
  note w = worker_stop_safe [OF this rtranclp.rtrancl_refl]
  moreover have "\<not> kw_isWorking (ws_worker s)" using st(2) by (simp add: s_def)
  ultimately show ?thesis by blast
qed

end
