(* ===== verification/Subscriber_Stop.thy ===== *)
theory Subscriber_Stop
  imports Notification
begin

text \<open>
  The goroutines of the notification subscriber, \<^verbatim>\<open>adapter/rabbit/notification-consumer.go\<close>: the loop of
  \<^verbatim>\<open>startConsuming\<close> with \<^verbatim>\<open>reconnect\<close>, one health check \<^verbatim>\<open>isAlive\<close> per subscription, and \<^verbatim>\<open>Close\<close>. They
  share the channel \<^verbatim>\<open>stop\<close>, which holds one signal and gives it to one receiver. Messages
  are left out: the loop handles them between the steps shown here. The events \<open>NStop\<close> and
  \<open>NConnClosed\<close> of \<open>Notification\<close> are the steps \<open>stopped\<close> and \<open>reported\<close>.
\<close>

section \<open>The goroutines\<close>

text \<open>
  The loop subscribes, listens with the health check of the given number, is about to attempt
  to reconnect with some attempts left, pauses after a failed one, or has returned.
\<close>

datatype loop_pc = Subscribing | Listening nat | Reconnecting nat | Pausing nat | Returned

datatype check_pc = Watching | Reported | Over

text \<open>\<open>ss_started\<close>: the number of subscriptions so far, each with a health check of its own.\<close>

record subscriber_state =
  ss_stop :: bool
  ss_conn_closed :: bool
  ss_loop :: loop_pc
  ss_checks :: "nat \<Rightarrow> check_pc option"
  ss_started :: nat

definition at_start :: subscriber_state where
  "at_start = \<lparr>ss_stop = False, ss_conn_closed = False, ss_loop = Subscribing, ss_checks = Map.empty, ss_started = 0\<rparr>"

text \<open>The non-blocking send of \<^verbatim>\<open>Close\<close>.\<close>

definition signal_stop :: "subscriber_state \<Rightarrow> subscriber_state" where
  "signal_stop s = s\<lparr>ss_stop := True\<rparr>"

text \<open>
  \<open>Reported\<close> is a health check that has put its report into the channel it shares with the loop.
\<close>

inductive subscriber_step :: "subscriber_state \<Rightarrow> subscriber_state \<Rightarrow> bool" where
  subscribed: "ss_loop s = Subscribing \<Longrightarrow>
    subscriber_step s (s\<lparr>ss_loop := Listening (ss_started s), ss_checks := (ss_checks s)(ss_started s \<mapsto> Watching),
      ss_started := ss_started s + 1\<rparr>)"
| not_subscribed: "ss_loop s = Subscribing \<Longrightarrow> subscriber_step s (s\<lparr>ss_loop := Returned\<rparr>)"
| reported: "ss_loop s = Listening g \<Longrightarrow> ss_checks s g = Some Reported \<Longrightarrow>
    subscriber_step s (s\<lparr>ss_loop := Reconnecting 5, ss_checks := (ss_checks s)(g \<mapsto> Over)\<rparr>)"
| stopped: "ss_loop s = Listening g \<Longrightarrow> ss_stop s \<Longrightarrow> subscriber_step s (s\<lparr>ss_loop := Returned, ss_stop := False\<rparr>)"
| reconnected: "ss_loop s = Reconnecting (Suc n) \<Longrightarrow> subscriber_step s (s\<lparr>ss_loop := Subscribing, ss_conn_closed := False\<rparr>)"
| attempt_failed: "ss_loop s = Reconnecting (Suc n) \<Longrightarrow> subscriber_step s (s\<lparr>ss_loop := Pausing n\<rparr>)"
| pause_over: "ss_loop s = Pausing n \<Longrightarrow> subscriber_step s (s\<lparr>ss_loop := Reconnecting n\<rparr>)"
| pause_stopped: "ss_loop s = Pausing n \<Longrightarrow> ss_stop s \<Longrightarrow> subscriber_step s (s\<lparr>ss_loop := Returned, ss_stop := False\<rparr>)"
| gave_up: "ss_loop s = Reconnecting 0 \<Longrightarrow> subscriber_step s (s\<lparr>ss_loop := Returned\<rparr>)"
| found_closed: "ss_checks s i = Some Watching \<Longrightarrow> ss_conn_closed s \<Longrightarrow>
    subscriber_step s (s\<lparr>ss_checks := (ss_checks s)(i \<mapsto> Reported)\<rparr>)"
| check_stopped: "ss_checks s i = Some Watching \<Longrightarrow> ss_stop s \<Longrightarrow>
    subscriber_step s (s\<lparr>ss_checks := (ss_checks s)(i \<mapsto> Over), ss_stop := False\<rparr>)"
| connection_lost: "subscriber_step s (s\<lparr>ss_conn_closed := True\<rparr>)"

section \<open>Who can leave\<close>

fun alive :: "check_pc option \<Rightarrow> bool" where
  "alive (Some Watching) = True"
| "alive (Some Reported) = True"
| "alive _ = False"

definition can_leave :: "nat \<Rightarrow> subscriber_state \<Rightarrow> bool" where
  "can_leave g s \<longleftrightarrow> ss_stop s \<or> alive (ss_checks s g)"

text \<open>At most one health check watches, and only one of the current subscription or of a loop that has returned.\<close>

definition subscriber_inv :: "subscriber_state \<Rightarrow> bool" where
  "subscriber_inv s \<longleftrightarrow>
     (\<forall>i. alive (ss_checks s i) \<longrightarrow> ss_started s = Suc i \<and> ss_loop s \<in> {Listening i, Returned})
     \<and> (\<forall>g. ss_loop s = Listening g \<longrightarrow> ss_started s = Suc g)"

lemma subscriber_step_inv: "subscriber_step s s' \<Longrightarrow> subscriber_inv s \<Longrightarrow> subscriber_inv s'"
proof (induction rule: subscriber_step.induct)
  case (subscribed s)
  then have "\<not> alive (ss_checks s i)" for i unfolding subscriber_inv_def by auto
  then show ?case by (simp add: subscriber_inv_def)
next
  case (reported s g)
  then have "\<not> alive (ss_checks s i)" if "i \<noteq> g" for i using that unfolding subscriber_inv_def by fastforce
  then show ?case by (simp add: subscriber_inv_def)
next
  case (found_closed s i)
  then show ?case unfolding subscriber_inv_def by (auto simp del: alive.simps(2) dest: spec [of _ i])
qed (auto simp: subscriber_inv_def)

lemma signal_stop_inv: "subscriber_inv s \<Longrightarrow> subscriber_inv (signal_stop s)"
  by (simp add: subscriber_inv_def signal_stop_def)

definition run_step :: "subscriber_state \<Rightarrow> subscriber_state \<Rightarrow> bool" where
  "run_step s s' \<longleftrightarrow> subscriber_step s s' \<or> s' = signal_stop s"

lemma subscriber_run_inv: "run_step\<^sup>*\<^sup>* at_start s \<Longrightarrow> subscriber_inv s"
proof (induction rule: rtranclp_induct)
  case base
  show ?case by (simp add: subscriber_inv_def at_start_def)
next
  case (step s1 s2)
  then show ?case using subscriber_step_inv signal_stop_inv unfolding run_step_def by blast
qed

lemma cannot_leave_step:
  "subscriber_step s s' \<Longrightarrow> ss_loop s = Listening g \<Longrightarrow> \<not> can_leave g s \<Longrightarrow> ss_loop s' = Listening g \<and> \<not> can_leave g s'"
  by (induction rule: subscriber_step.induct) (auto simp: can_leave_def split: if_splits)

lemma cannot_leave_run:
  "subscriber_step\<^sup>*\<^sup>* s s' \<Longrightarrow> ss_loop s = Listening g \<Longrightarrow> \<not> can_leave g s \<Longrightarrow> ss_loop s' = Listening g"
proof -
  assume "subscriber_step\<^sup>*\<^sup>* s s'" "ss_loop s = Listening g" "\<not> can_leave g s"
  then have "ss_loop s' = Listening g \<and> \<not> can_leave g s'"
    by (induction rule: rtranclp_induct) (auto dest: cannot_leave_step)
  then show ?thesis ..
qed

lemma can_leave_run:
  assumes l: "ss_loop s = Listening g" and c: "can_leave g s"
  shows "\<exists>s'. subscriber_step\<^sup>*\<^sup>* s s' \<and> ss_loop s' \<noteq> Listening g"
proof -
  have rep: "\<exists>u'. subscriber_step\<^sup>*\<^sup>* u u' \<and> ss_loop u' \<noteq> Listening g" if "ss_loop u = Listening g" "ss_checks u g = Some Reported" for u
  proof (intro exI conjI)
    show "subscriber_step\<^sup>*\<^sup>* u (u\<lparr>ss_loop := Reconnecting 5, ss_checks := (ss_checks u)(g \<mapsto> Over)\<rparr>)"
      using subscriber_step.reported [OF that] by (rule r_into_rtranclp)
  qed simp
  consider "ss_stop s" | "ss_checks s g = Some Reported" | "ss_checks s g = Some Watching"
    using c by (auto simp: can_leave_def elim: alive.elims)
  then show ?thesis
  proof cases
    case 1
    then have "subscriber_step\<^sup>*\<^sup>* s (s\<lparr>ss_loop := Returned, ss_stop := False\<rparr>)"
      using subscriber_step.stopped [OF l] by blast
    moreover have "ss_loop (s\<lparr>ss_loop := Returned, ss_stop := False\<rparr>) \<noteq> Listening g" by simp
    ultimately show ?thesis by blast
  next
    case 2
    then show ?thesis by (rule rep [OF l])
  next
    case 3
    let ?s1 = "s\<lparr>ss_conn_closed := True\<rparr>"
    let ?s2 = "?s1\<lparr>ss_checks := (ss_checks ?s1)(g \<mapsto> Reported)\<rparr>"
    have 1: "subscriber_step s ?s1" by (rule subscriber_step.connection_lost)
    have 2: "subscriber_step ?s1 ?s2" by (rule subscriber_step.found_closed) (use 3 in simp_all)
    have "\<exists>u'. subscriber_step\<^sup>*\<^sup>* ?s2 u' \<and> ss_loop u' \<noteq> Listening g" by (rule rep) (use l in simp_all)
    then show ?thesis using 1 2 by (meson converse_rtranclp_into_rtranclp)
  qed
qed

text \<open>
  C38. Who may end a subscription: a listening loop can leave its subscription, to stop or to
  reconnect, exactly as long as a stop signal is pending or its own health check is watching or has
  reported; at most that one health check watches. So when the
  health check takes the one signal of a stop, the loop listens for ever, whether the connection is
  lost or not.
\<close>

theorem listening_leaves_iff:
  assumes "run_step\<^sup>*\<^sup>* at_start s" "ss_loop s = Listening g"
  shows "((\<exists>s'. subscriber_step\<^sup>*\<^sup>* s s' \<and> ss_loop s' \<noteq> Listening g) \<longleftrightarrow>
      ss_stop s \<or> ss_checks s g = Some Watching \<or> ss_checks s g = Some Reported)
    \<and> (\<forall>i. ss_checks s i = Some Watching \<longrightarrow> i = g)"
proof -
  have "i = g" if "ss_checks s i = Some Watching" for i
  proof -
    have "alive (ss_checks s i)" using that by simp
    then have "ss_started s = Suc i" "ss_started s = Suc g"
      using subscriber_run_inv [OF assms(1)] assms(2) unfolding subscriber_inv_def by blast+
    then show ?thesis by simp
  qed
  moreover have "(\<exists>s'. subscriber_step\<^sup>*\<^sup>* s s' \<and> ss_loop s' \<noteq> Listening g) \<longleftrightarrow> can_leave g s"
    using can_leave_run [OF assms(2)] cannot_leave_run [OF _ assms(2)] by blast
  moreover have "alive c \<longleftrightarrow> c = Some Watching \<or> c = Some Reported" for c by (cases c rule: alive.cases) simp_all
  ultimately show ?thesis by (simp add: can_leave_def)
qed

text \<open>The lost signal: the subscriber is stopped, its health check takes the signal, the connection is lost.\<close>

theorem listening_leaves_iff_witness:
  "\<exists>s0 s. run_step\<^sup>*\<^sup>* at_start s0 \<and> subscriber_step\<^sup>*\<^sup>* (signal_stop s0) s
     \<and> ss_conn_closed s \<and> (\<forall>s'. subscriber_step\<^sup>*\<^sup>* s s' \<longrightarrow> ss_loop s' = Listening 0)"
proof -
  define s0 where "s0 = \<lparr>ss_stop = False, ss_conn_closed = False, ss_loop = Listening 0, ss_checks = [0 \<mapsto> Watching], ss_started = 1\<rparr>"
  define s1 where "s1 = \<lparr>ss_stop = False, ss_conn_closed = False, ss_loop = Listening 0, ss_checks = [0 \<mapsto> Over], ss_started = 1\<rparr>"
  define s where "s = s1\<lparr>ss_conn_closed := True\<rparr>"
  have 0: "subscriber_step at_start s0"
    using subscriber_step.subscribed [of at_start] by (simp add: at_start_def s0_def)
  have 1: "subscriber_step (signal_stop s0) s1"
    using subscriber_step.check_stopped [of "signal_stop s0" 0] by (simp add: signal_stop_def s0_def s1_def)
  have 2: "subscriber_step s1 s" unfolding s_def by (rule subscriber_step.connection_lost)
  have "run_step\<^sup>*\<^sup>* at_start s"
    using 0 1 2 unfolding run_step_def
    by (intro converse_rtranclp_into_rtranclp [of _ at_start s0] converse_rtranclp_into_rtranclp [of _ s0 "signal_stop s0"]
        converse_rtranclp_into_rtranclp [of _ "signal_stop s0" s1] converse_rtranclp_into_rtranclp [of _ s1 s] rtranclp.rtrancl_refl) auto
  from listening_leaves_iff [OF this, of 0] have "\<forall>s'. subscriber_step\<^sup>*\<^sup>* s s' \<longrightarrow> ss_loop s' = Listening 0"
    by (simp add: s_def s1_def)
  moreover have "run_step\<^sup>*\<^sup>* at_start s0" using 0 unfolding run_step_def by blast
  moreover have "subscriber_step\<^sup>*\<^sup>* (signal_stop s0) s" using 1 2 by simp
  ultimately show ?thesis by (intro exI [of _ s0] exI [of _ s]) (simp add: s_def)
qed

end
