(* ===== verification/Spec2Isabelle.thy ===== *)
theory Spec2Isabelle
  imports Lifecycle Server Status_Protocol Worker_Stop Subscriber_Stop
begin

text \<open>
  A verification development of the restaurant system \<^verbatim>\<open>wheres-my-pizza\<close>, the Go program under
  \<^verbatim>\<open>src/\<close>. One binary runs as one of four services, chosen by a flag. The order service takes
  orders over HTTP, validates them, numbers and stores them in PostgreSQL and announces them
  to RabbitMQ. Kitchen workers take the announcements, cook, move the stored order from
  received over cooking to ready, and announce both changes. The tracking service answers
  queries from the database. The notification subscriber prints the changes. The services
  share nothing but the database and the broker.

  \<^bold>\<open>The world.\<close> \<open>World\<close> holds the state all operations act on: the tables, the list of
  commands given to the broker, the clock, the error of the current context, whether the
  broker connection of the process is closed, and a script of what happens to the next calls
  that leave the process. A call succeeds, fails without effect, or fails after having taken
  effect (a lost reply); an empty script is a fault-free environment (\<open>quiet\<close>). Operations are functions from
  a world to a result and a world, errors are values (\<open>Go_Errors\<close>, with \<^verbatim>\<open>%w\<close> and \<^verbatim>\<open>%v\<close>
  wrapping and \<^verbatim>\<open>errors.Is\<close>), panics and waiting for ever are values of outcome types. Go's
  \<^verbatim>\<open>int\<close> and \<^verbatim>\<open>time.Duration\<close> are integers with \<open>wrap64\<close> where the code can overflow, message
  priorities are words of 8 bits, \<^verbatim>\<open>float64\<close> is \<open>Float64\<close>: rationals with the rounding of every
  operation, infinities and NaN. Strings are lists of bytes; a statement whose arguments hold text of a
  client fails when that is not UTF-8 or has a byte 0 (\<open>with_text\<close>, \<open>pg_text\<close>), as PostgreSQL does. Worker names
  are an argument of the operator's command line and are taken to be such text.

  \<^bold>\<open>Theories and sources\<close>, in the order they build on each other:

  \<^item> \<open>Prelude\<close>, \<open>Float64\<close>, \<open>Go_Errors\<close>, \<open>Calendar\<close>, \<open>Durations\<close>, \<open>Json\<close>: what the code uses of the
    language and its library (formatting, trimming, runes, dates, durations, JSON values), and
    \<^verbatim>\<open>pkg/utils\<close>.
  \<^item> \<open>Domain\<close>: \<^verbatim>\<open>internal/domain\<close>: constants, records, totals, priorities, order numbers. Order numbers are
    unique; for prices of whole cents float64 totals stay within a hundredth of a millionth of a dollar, and
    priorities are right away from the two boundary amounts and can be wrong on them.
  \<^item> \<open>Validation\<close>: \<^verbatim>\<open>pkg/validator\<close> and \<^verbatim>\<open>handler/dto/validate.go\<close>: validation accepts exactly the
    requests that meet the rules as coded.
  \<^item> \<open>Rabbit_Dto\<close>: \<^verbatim>\<open>adapter/rabbit/dto.go\<close>: order messages survive the queue.
  \<^item> \<open>Semaphores\<close>: \<^verbatim>\<open>pkg/semaphore\<close>: the semaphore as data, and an inductive step relation of any
    number of requests that arrive, wait, time out, hold and release; mutual exclusion is an
    invariant of the reachable states. The locale \<open>slot_provider\<close> is its contract.
  \<^item> \<open>Database\<close>, \<open>Order_Store\<close>, \<open>Repositories\<close>, \<open>Registry\<close>: \<^verbatim>\<open>adapter/postgres\<close>: every statement on the
    tables, transactions with rollback, commits whose reply is lost. The specification
    of a repository is a pair of maps, the status and the history of every order number; the locales
    \<open>order_store\<close>, \<open>order_intake\<close> (\<open>Order_Contract\<close>) and \<open>worker_registry\<close> state what each operation does
    to them, and their interpretations are the refinement proofs. The tables stay consistent
    under every sequence of calls that creates orders as received.
  \<^item> \<open>Config\<close>, \<open>Configparser\<close>, \<open>Config_File\<close>, \<open>Config_Print\<close>, \<open>Help\<close>: \<^verbatim>\<open>internal/config\<close> and \<^verbatim>\<open>pkg/configparser\<close>: the flags
    and their checks, the reader of the file (any printed tree of sections is read back), the
    parser of tagged structures with the environment and the defaults, printed integers are read back; the printed configuration hides what is secret.
  \<^item> \<open>Broker\<close>, \<open>Routing\<close>: \<^verbatim>\<open>pkg/rabbit\<close>, \<^verbatim>\<open>queue_init.go\<close>, \<^verbatim>\<open>retry.go\<close> and the producers: connecting,
    reconnecting, publishing; an order reaches the queue of its type and no other. The topic
    matching of the broker is a parameter under the law \<open>topic_law\<close>, with an executable instance.
  \<^item> \<open>Order_Service\<close>, \<open>Order_Intake\<close>: \<^verbatim>\<open>services/order\<close>: what a created order leaves behind and what a failed
    creation can leave behind, over the contract \<open>order_service_env\<close>; on a live system an accepted
    request with prices of whole cents, text PostgreSQL takes and a free next number is served and stored to the cent.
  \<^item> \<open>Order_Consumer\<close>, \<open>Kitchen\<close>, \<open>Cooking\<close>, \<open>Kitchen_Delivery\<close>: \<^verbatim>\<open>order-consumer.go\<close> and \<^verbatim>\<open>services/kitchen\<close>: the
    consuming loop, the worker with its heartbeat, stop and processing, over the contract
    \<open>kitchen_env\<close>; a message is acknowledged only for a ready order, and settled at most once; a message
    delivered again is processed again, which the task description forbids.
  \<^item> \<open>Tracking\<close>: \<^verbatim>\<open>services/tracking\<close> over the contract \<open>tracking_env\<close>.
  \<^item> \<open>Http\<close>, \<open>Logging\<close>, \<open>Server\<close>: \<^verbatim>\<open>adapter/http\<close> and \<^verbatim>\<open>pkg/logger\<close>: the handlers against the interface of
    response writers (locales \<open>response_writing\<close> and \<open>status_keeping\<close>, met by the writer of the server and by
    the logging wrapper), routes, middleware, log entries.
  \<^item> \<open>Notification\<close>: \<^verbatim>\<open>notification-consumer.go\<close> and \<^verbatim>\<open>services/notification\<close>: what is printed and settled
    once the printer has caught up.
  \<^item> \<open>Startup\<close>, \<open>Kitchen_Service\<close>, \<open>Application\<close>: \<^verbatim>\<open>pkg/postgres\<close>, \<^verbatim>\<open>internal/app\<close> and \<^verbatim>\<open>cmd\<close>: creation,
    start, the wait for a report or a signal, reconnection and shutdown of the services, and the process around them.
  \<^item> \<open>Lifecycle\<close>: the services together, from the request to the printed notification.
  \<^item> \<open>Interleaving\<close>: any number of requests and workers at once. Creating and processing an order are
    cut into their single calls to the database and the broker (\<open>intake_step\<close>, \<open>cook_step\<close>; run to the end
    they are \<^verbatim>\<open>CreateOrder\<close> and \<^verbatim>\<open>proccessOrder\<close>), and the inductive relation \<open>system_step\<close> interleaves
    the calls. Whatever is announced or acknowledged has been recorded before.
  \<^item> \<open>Status_Protocol\<close>: what the interleaved calls do to one order: the system refines the automaton \<open>protocol\<close>,
    so an order is cooked before it is ready; the rows of the tables stay typed.
  \<^item> \<open>Worker_Stop\<close>: \<^verbatim>\<open>Stop\<close> and \<^verbatim>\<open>processOrderWrapper\<close> of \<^verbatim>\<open>services/kitchen\<close> as goroutines over the mutex, the
    closed channel and the wait group, run to the end they are the functions of \<open>Kitchen\<close>: what a stop
    guarantees, that stops and deliveries never deadlock, and the order that slips through.
  \<^item> \<open>Subscriber_Stop\<close>: the goroutines of \<^verbatim>\<open>notification-consumer.go\<close> around the stop channel: who may end a subscription,
    and the signal the health check takes.

  \<^bold>\<open>Loops and concurrency.\<close> Loops over data are structural recursions. Loops over a select are
  recursions over the list of the branches taken, so a theorem about every list is a theorem
  about every schedule; retry loops recurse on the number of attempts left, which is the
  configured one, so no fuel is involved. Reading a duration needs a measure, the length of the
  rest. In the theories of the services one request or delivery runs at a time: a worker
  handles a delivery before it takes the next, as the code does, and the consumers of several
  order types take turns. \<open>Interleaving\<close> lifts this: goroutines and processes interleave at the
  granularity of transactions, publications and settlements; \<open>Worker_Stop\<close> and \<open>Subscriber_Stop\<close> go down to the
  single operations on mutexes, channels and wait groups. Their step relations have no fuel:
  the theorems speak of all reachable states, and that everyone can get away is shown by a measure of the steps left
  under the lock and the wait group. Where a select could
  take several branches at once the model takes them as the schedule says, except that a wait
  whose context is already done ends at once.

  \<^bold>\<open>Parameters.\<close> \<open>pg_codec\<close> is the rounding of the numeric columns (assumed only to round to the cent within a
  quarter of a cent), the row orders of queries without ORDER BY are arbitrary permutations, \<open>parse_dsn\<close>
  is the driver's parser, what comes to a waiting service (errors, signals) is a record, the broker chooses queue names, random bytes and stack texts are
  arguments.

  \<^bold>\<open>Granularity.\<close> A call to the database or the broker takes effect in one step and returns; in \<open>intake_step\<close> a whole
  publication with its reconnection loop is one call, and the steps begin after the wait for a slot, which
  \<open>Semaphores\<close> models. \<open>Notify\<close> prints an update in the step that acknowledges it, while the code acknowledges before it
  hands the update to the printing goroutine; \<open>notification_Start\<close> takes the up to three lines a signal can cut off
  as a parameter.

  \<^bold>\<open>Not modelled.\<close> Redirects of unclean request paths by the server's mux (\<open>serve_mux\<close> takes clean paths);
  log entries other than those of the HTTP middleware and the notification printer, which have no effect on results;
  the schema's migration; the bytes of JSON texts (messages are values,
  instants in them are exact) and the character offsets in decoding errors; fused multiply-add, which a
  Go compiler may use on some processors; the sign of zero; float fields of the
  configuration parser, which the configuration does not have; upper-casing of non-ASCII
  letters in the configuration file; the escapes of control characters in quoted error texts; time limits of
  closing operations beyond whether they are met. PostgreSQL and RabbitMQ appear by the effect of the statements
  and commands the code gives to them.
\<close>

end
